(* ===== verification/Go_Prelude.thy ===== *)
theory Go_Prelude
  imports
    Main
    "HOL-Library.AList"
    "HOL-Library.List_Lexorder"
    "HOL-Library.Char_ord"
    "HOL-Library.Product_Lexorder"
    "HOL-Library.Multiset"
    "HOL-Library.Word"
begin

text \<open>
  Shared vocabulary of the development: the Go values every component uses.

  \<^item> \<open>int64\<close> is an integer with two's complement wrap-around written out in \<open>wrap64\<close>;
    the arithmetic operators of the source on \<open>int64\<close> are \<open>add64\<close>, \<open>sub64\<close>, \<open>mul64\<close> and
    \<open>div64\<close> (truncating).
  \<^item> a Go map is an association list \<open>gomap\<close>: a \<open>range\<close> loop visits the entries in list order,
    and a statement for every list is a statement for every iteration order; \<open>mget\<close> reads with
    the zero value as default, \<open>mput\<close> and \<open>mdel\<close> write.
  \<^item> Go strings are byte strings, compared byte-wise (\<open>List_Lexorder\<close>, \<open>Char_ord\<close>).
  \<^item> \<open>fnv32\<close> is \<open>hash/fnv\<close>'s \<open>New32\<close> (FNV-1).
\<close>

unbundle bit_operations_syntax

named_theorems go_arith \<open>exactness of the 64-bit operators inside the representable range\<close>
named_theorems gomap_simps \<open>reading after writing on Go maps\<close>

type_synonym int64 = int
type_synonym ('k, 'v) gomap = "('k \<times> 'v) list"

definition wrap64 :: "int \<Rightarrow> int64" where
  "wrap64 x = (x + 2 ^ 63) mod 2 ^ 64 - 2 ^ 63"

definition in64 :: "int \<Rightarrow> bool" where
  "in64 x \<longleftrightarrow> - (2 ^ 63) \<le> x \<and> x < 2 ^ 63"

definition add64 :: "int64 \<Rightarrow> int64 \<Rightarrow> int64" where
  "add64 a b = wrap64 (a + b)"

definition sub64 :: "int64 \<Rightarrow> int64 \<Rightarrow> int64" where
  "sub64 a b = wrap64 (a - b)"

definition mul64 :: "int64 \<Rightarrow> int64 \<Rightarrow> int64" where
  "mul64 a b = wrap64 (a * b)"

definition trunc_div :: "int \<Rightarrow> int \<Rightarrow> int" where
  "trunc_div a b = sgn a * sgn b * (\<bar>a\<bar> div \<bar>b\<bar>)"

definition div64 :: "int64 \<Rightarrow> int64 \<Rightarrow> int64" where
  "div64 a b = wrap64 (trunc_div a b)"

definition mget :: "'v \<Rightarrow> ('k, 'v) gomap \<Rightarrow> 'k \<Rightarrow> 'v" where
  "mget d m k = (case map_of m k of None \<Rightarrow> d | Some v \<Rightarrow> v)"

definition mput :: "'k \<Rightarrow> 'v \<Rightarrow> ('k, 'v) gomap \<Rightarrow> ('k, 'v) gomap" where
  "mput k v m = AList.update k v m"

definition mdel :: "'k \<Rightarrow> ('k, 'v) gomap \<Rightarrow> ('k, 'v) gomap" where
  "mdel k m = AList.delete k m"

definition mkeys :: "('k, 'v) gomap \<Rightarrow> 'k list" where
  "mkeys m = map fst m"

definition mvals :: "('k, 'v) gomap \<Rightarrow> 'v list" where
  "mvals m = map snd m"

definition wf_map :: "('k, 'v) gomap \<Rightarrow> bool" where
  "wf_map m \<longleftrightarrow> distinct (map fst m)"

definition sum64 :: "int64 list \<Rightarrow> int64" where
  "sum64 xs = foldl add64 0 xs"

definition fnv32 :: "string \<Rightarrow> 32 word" where
  "fnv32 s = fold (\<lambda>c h. (h * 16777619) XOR of_char c) s 2166136261"

text \<open>\<open>strings.HasPrefix\<close>, \<open>HasSuffix\<close>, \<open>Contains\<close> and \<open>Join\<close>.\<close>

definition hasPrefix :: "string \<Rightarrow> string \<Rightarrow> bool" where
  "hasPrefix s p \<longleftrightarrow> take (length p) s = p"

definition hasSuffix :: "string \<Rightarrow> string \<Rightarrow> bool" where
  "hasSuffix s p \<longleftrightarrow> hasPrefix (rev s) (rev p)"

fun strContains :: "string \<Rightarrow> string \<Rightarrow> bool" where
  "strContains [] sub = (sub = [])"
| "strContains (c # s) sub = (hasPrefix (c # s) sub \<or> strContains s sub)"

fun joinStr :: "string \<Rightarrow> string list \<Rightarrow> string" where
  "joinStr sep [] = []"
| "joinStr sep [s] = s"
| "joinStr sep (s # ss) = s @ sep @ joinStr sep ss"

text \<open>
  Replica counts per cluster, and what the two planners share: a count never above a capacity
  that may be absent, non-negative capacities, and the sum of a plan over a list of clusters.
\<close>

type_synonym replicas = "(string, int64) gomap"

definition minInt64 :: "int64 \<Rightarrow> int64 \<Rightarrow> int64" where
  "minInt64 a b = (if a < b then a else b)"

text \<open>
  The idiom \<open>if capacity, has := m[k]; has && total > capacity { total = capacity; .. }\<close>:
  \<open>exceeds\<close> is its condition and \<open>capTo\<close> the value of \<open>total\<close> after it.
\<close>

definition exceeds :: "int64 option \<Rightarrow> int64 \<Rightarrow> bool" where
  "exceeds cap x = (case cap of None \<Rightarrow> False | Some c \<Rightarrow> x > c)"

definition capTo :: "int64 option \<Rightarrow> int64 \<Rightarrow> int64" where
  "capTo cap x = (case cap of None \<Rightarrow> x | Some c \<Rightarrow> if x > c then c else x)"

definition caps_ok :: "replicas \<Rightarrow> bool" where
  "caps_ok m \<longleftrightarrow> list_all (\<lambda>(k, v). 0 \<le> v) m"

definition planTotal :: "string list \<Rightarrow> replicas \<Rightarrow> int" where
  "planTotal ns plan = (\<Sum>n\<leftarrow>ns. mget 0 plan n)"

text \<open>The invariant of the loops that hand out \<open>T\<close> replicas: what is planned and what remains.\<close>

definition plan_inv :: "string list \<Rightarrow> int \<Rightarrow> int \<Rightarrow> replicas \<Rightarrow> bool" where
  "plan_inv ns T remaining plan \<longleftrightarrow>
     0 \<le> remaining \<and> planTotal ns plan + remaining = T \<and>
     list_all (\<lambda>n. 0 \<le> mget 0 plan n) ns"

definition cap3 :: "int64 option \<Rightarrow> int64 option \<Rightarrow> int64 option \<Rightarrow> int64 \<Rightarrow> int64" where
  "cap3 e l m x = capTo e (capTo l (capTo m x))"


section \<open>64-bit arithmetic\<close>

lemma in64_wrap64: "in64 (wrap64 x)"
proof -
  have "0 \<le> (x + 2 ^ 63) mod 2 ^ 64" and "(x + 2 ^ 63) mod 2 ^ 64 < (2 :: int) ^ 64"
    by simp_all
  then show ?thesis
    by (simp add: in64_def wrap64_def)
qed

lemma wrap64_id [go_arith]: "in64 x \<Longrightarrow> wrap64 x = x"
  by (simp add: in64_def wrap64_def)

lemma add64_exact [go_arith]: "in64 (a + b) \<Longrightarrow> add64 a b = a + b"
  by (simp add: add64_def wrap64_id)

lemma sub64_exact [go_arith]: "in64 (a - b) \<Longrightarrow> sub64 a b = a - b"
  by (simp add: sub64_def wrap64_id)

lemma mul64_exact [go_arith]: "in64 (a * b) \<Longrightarrow> mul64 a b = a * b"
  by (simp add: mul64_def wrap64_id)

lemma in64_between: "in64 a \<Longrightarrow> in64 b \<Longrightarrow> a \<le> x \<Longrightarrow> x \<le> b \<Longrightarrow> in64 x"
  by (simp add: in64_def)

lemma in64_0 [simp]: "in64 0"
  by (simp add: in64_def)

lemma in64I: "0 \<le> x \<Longrightarrow> x < 2 ^ 63 \<Longrightarrow> in64 x"
  by (simp add: in64_def)

lemma in64_nonneg: "0 \<le> x \<Longrightarrow> in64 b \<Longrightarrow> x \<le> b \<Longrightarrow> in64 x"
  by (simp add: in64_def)

lemma trunc_div_nonneg: "0 \<le> a \<Longrightarrow> 0 < b \<Longrightarrow> trunc_div a b = a div b"
  by (cases "a = 0") (simp_all add: trunc_div_def)

lemma div64_exact [go_arith]:
  assumes "0 \<le> a" and "0 < b" and "in64 a"
  shows "div64 a b = a div b"
proof -
  have "0 \<le> a div b" using assms by (simp add: pos_imp_zdiv_nonneg_iff)
  moreover have "a div b \<le> a" using assms by (cases "a = 0") (simp_all add: int_div_le_self)
  ultimately have "in64 (a div b)" using assms(3) by (auto intro: in64_nonneg)
  then show ?thesis using assms by (simp add: div64_def trunc_div_nonneg wrap64_id)
qed

text \<open>The rounding-up division of the planner.\<close>

lemma ceil_div_bounds:
  assumes "0 < (W :: int)"
  shows "x \<le> (x + W - 1) div W * W" and "(x + W - 1) div W * W < x + W"
proof -
  have "(x + W - 1) div W * W + (x + W - 1) mod W = x + W - 1"
    by simp
  moreover have "0 \<le> (x + W - 1) mod W" and "(x + W - 1) mod W < W"
    using assms by simp_all
  ultimately show "x \<le> (x + W - 1) div W * W" and "(x + W - 1) div W * W < x + W"
    by linarith+
qed


section \<open>Go maps\<close>

lemma map_of_mput [gomap_simps]: "map_of (mput k v m) k' = (if k' = k then Some v else map_of m k')"
  by (simp add: mput_def update_conv')

lemma mget_mput [gomap_simps]: "mget d (mput k v m) k' = (if k' = k then v else mget d m k')"
  by (simp add: mget_def map_of_mput)

lemma map_of_mdel [gomap_simps]: "map_of (mdel k m) k' = (if k' = k then None else map_of m k')"
  by (simp add: mdel_def delete_conv')

lemma mget_Nil [simp]: "mget d [] k = d"
  by (simp add: mget_def)

lemma set_mkeys_mput [gomap_simps]: "set (mkeys (mput k v m)) = insert k (set (mkeys m))"
  by (auto simp: mkeys_def mput_def update_keys)

lemma mkeys_mput_in [gomap_simps]: "k \<in> set (mkeys m) \<Longrightarrow> mkeys (mput k v m) = mkeys m"
  by (simp add: mkeys_def mput_def update_keys)

lemma mkeys_mput_fresh [gomap_simps]: "k \<notin> set (mkeys m) \<Longrightarrow> mkeys (mput k v m) = mkeys m @ [k]"
  by (simp add: mkeys_def mput_def update_keys)

lemma mkeys_Nil [simp]: "mkeys [] = []"
  by (simp add: mkeys_def)

lemma in_mkeys: "(k, v) \<in> set m \<Longrightarrow> k \<in> set (mkeys m)"
  by (force simp: mkeys_def)

lemma mget_entry: "wf_map m \<Longrightarrow> (k, v) \<in> set m \<Longrightarrow> mget d m k = v"
  by (simp add: mget_def wf_map_def)

lemma mput_fresh: "k \<notin> set (mkeys m) \<Longrightarrow> mput k v m = m @ [(k, v)]"
  unfolding mput_def mkeys_def by (induction m) auto

lemma wf_map_unique: "wf_map m \<Longrightarrow> (k, a) \<in> set m \<Longrightarrow> (k, b) \<in> set m \<Longrightarrow> a = b"
  by (simp add: wf_map_def eq_key_imp_eq_value)

lemma mkeys_Cons [simp]: "mkeys (p # m) = fst p # mkeys m"
  by (simp add: mkeys_def)

lemma mkeys_append [simp]: "mkeys (m @ m') = mkeys m @ mkeys m'"
  by (simp add: mkeys_def)

lemma wf_map_mput [simp]: "wf_map m \<Longrightarrow> wf_map (mput k v m)"
  by (simp add: wf_map_def mput_def distinct_update)

lemma wf_map_mdel [simp]: "wf_map m \<Longrightarrow> wf_map (mdel k m)"
  by (simp add: wf_map_def mdel_def distinct_delete)

lemma wf_map_Nil [simp]: "wf_map []"
  by (simp add: wf_map_def)

lemma map_of_in_mkeys: "map_of m k = Some v \<Longrightarrow> k \<in> set (mkeys m)"
  by (force simp: mkeys_def dest: map_of_SomeD)

lemma mget_notin: "k \<notin> set (mkeys m) \<Longrightarrow> mget d m k = d"
  by (force simp: mget_def mkeys_def dest: map_of_SomeD split: option.splits)

text \<open>The values of a map, read back through its keys.\<close>

lemma mvals_mget:
  assumes "wf_map m"
  shows "mvals m = map (mget d m) (mkeys m)"
proof -
  have "snd p = mget d m (fst p)" if "p \<in> set m" for p
    using assms that by (cases p) (simp add: mget_def wf_map_def)
  then show ?thesis
    by (simp add: mvals_def mkeys_def)
qed

lemma gomap_eqI:
  assumes "wf_map m" "mkeys m' = mkeys m" "\<And>k. k \<in> set (mkeys m) \<Longrightarrow> mget d m' k = mget d m k"
  shows "m' = m"
proof -
  have wf: "wf_map m'" using assms(1,2) by (simp add: wf_map_def mkeys_def)
  have "mvals m' = mvals m"
    using mvals_mget [OF assms(1), of d] mvals_mget [OF wf, of d] assms(2,3) by simp
  then show ?thesis
    using assms(2) by (metis mkeys_def mvals_def zip_map_fst_snd)
qed

lemma mset_eq_map_of:
  assumes "wf_map m" "wf_map m'" "map_of m = map_of m'"
  shows "mset m = mset m'"
proof -
  have "set m = set m'"
    using assms by (auto simp: wf_map_def) (metis map_of_eq_Some_iff)+
  then show ?thesis
    using assms by (simp add: wf_map_def set_eq_iff_mset_eq_distinct distinct_map)
qed

lemma sum_list_update1:
  "distinct xs \<Longrightarrow> k \<in> set xs \<Longrightarrow>
   (\<Sum>x\<leftarrow>xs. if x = k then (v :: int) else f x) = (\<Sum>x\<leftarrow>xs. f x) - f k + v"
proof (induction xs)
  case Nil
  then show ?case by simp
next
  case (Cons a xs)
  show ?case
  proof (cases "a = k")
    case True
    with Cons.prems have "(\<Sum>x\<leftarrow>xs. if x = k then v else f x) = (\<Sum>x\<leftarrow>xs. f x)"
      by (auto intro!: arg_cong [where f = sum_list] map_cong)
    with True show ?thesis by simp
  next
    case False
    with Cons show ?thesis by simp
  qed
qed

lemma sum_mget_mput:
  "distinct xs \<Longrightarrow> k \<in> set xs \<Longrightarrow>
   (\<Sum>x\<leftarrow>xs. mget 0 (mput k v m) x) = (\<Sum>x\<leftarrow>xs. mget 0 m x) - mget (0 :: int) m k + v"
  using sum_list_update1 [of xs k v "mget 0 m"] by (simp add: mget_mput)

lemma sum64_exact_aux:
  assumes "\<forall>x \<in> set xs. 0 \<le> x" and "0 \<le> s" and "in64 (s + sum_list xs)"
  shows "foldl add64 s xs = s + sum_list xs"
  using assms
proof (induction xs arbitrary: s)
  case Nil
  then show ?case by simp
next
  case (Cons x xs)
  have nn: "0 \<le> sum_list xs"
    using Cons.prems(1) by (auto intro: sum_list_nonneg)
  with Cons.prems have "in64 (s + x)"
    by (intro in64_nonneg [of "s + x" "s + sum_list (x # xs)"]) auto
  then have "add64 s x = s + x" by (rule add64_exact)
  with Cons show ?case by (simp add: add.assoc)
qed

lemma sum64_exact [go_arith]:
  "\<forall>x \<in> set xs. 0 \<le> x \<Longrightarrow> in64 (sum_list xs) \<Longrightarrow> sum64 xs = sum_list xs"
  using sum64_exact_aux [of xs 0] by (simp add: sum64_def)


text \<open>A loop that updates one entry of a map for every entry of another.\<close>

lemma mget_fold_mput:
  "wf_map inc \<Longrightarrow> mget d (fold (\<lambda>(c, n) m. mput c (f (mget d m c) n) m) inc cur) c =
     (case map_of inc c of None \<Rightarrow> mget d cur c | Some n \<Rightarrow> f (mget d cur c) n)"
proof (induction inc arbitrary: cur)
  case Nil
  then show ?case by simp
next
  case (Cons x inc)
  obtain k v where x: "x = (k, v)" by (cases x)
  have "wf_map inc" "map_of inc k = None"
    using Cons.prems by (auto simp: wf_map_def x map_of_eq_None_iff)
  then show ?case using Cons.IH [of "mput k (f (mget d cur k) v) cur"]
    by (auto simp: x gomap_simps split: option.splits)
qed

lemma mkeys_fold_mput:
  "set (mkeys inc) \<subseteq> set (mkeys cur) \<Longrightarrow>
   mkeys (fold (\<lambda>(c, n) m. mput c (f (mget d m c) n) m) inc cur) = mkeys cur"
  by (induction inc arbitrary: cur) (auto simp: mkeys_mput_in)


section \<open>Capacities and replica totals\<close>

lemma minInt64_min: "minInt64 a b = min a b"
  by (simp add: minInt64_def min_def)

lemma capTo_le: "capTo c x \<le> x"
  by (simp add: capTo_def split: option.splits)

lemma capTo_bound: "c = Some v \<Longrightarrow> capTo c x \<le> v"
  by (simp add: capTo_def)

lemma capTo_nonneg: "0 \<le> x \<Longrightarrow> (\<forall>v. c = Some v \<longrightarrow> 0 \<le> v) \<Longrightarrow> 0 \<le> capTo c x"
  by (simp add: capTo_def split: option.splits)

lemma exceeds_capTo: "exceeds c x \<longleftrightarrow> capTo c x < x"
  by (simp add: capTo_def exceeds_def split: option.splits)

lemma capTo_exceeds_eq: "exceeds c x \<Longrightarrow> c = Some (capTo c x)"
  by (simp add: capTo_def exceeds_def split: option.splits)

lemma capTo_id: "\<not> exceeds c x \<Longrightarrow> capTo c x = x"
  by (simp add: capTo_def exceeds_def split: option.splits)

lemma capTo_mono: "x \<le> y \<Longrightarrow> capTo c x \<le> capTo c y"
  by (simp add: capTo_def split: option.splits)

lemma mget_caps: "exceeds (map_of m k) x \<Longrightarrow> mget 0 m k = capTo (map_of m k) x"
  by (auto simp: exceeds_def capTo_def mget_def split: option.splits)

lemma caps_okD: "caps_ok m \<Longrightarrow> map_of m k = Some v \<Longrightarrow> 0 \<le> v"
  by (auto simp: caps_ok_def list_all_iff dest!: map_of_SomeD)

lemma planTotal_mput:
  "distinct ns \<Longrightarrow> n \<in> set ns \<Longrightarrow>
   planTotal ns (mput n v plan) = planTotal ns plan - mget 0 plan n + v"
  by (simp add: planTotal_def sum_mget_mput)

lemma planTotal_desired: "wf_map m \<Longrightarrow> planTotal (mkeys m) m = (\<Sum>(c, d)\<leftarrow>m. d)"
  by (simp add: planTotal_def mvals_mget [symmetric] mvals_def case_prod_unfold)

lemma planTotal_pairs: "planTotal (mkeys m) cur = (\<Sum>(c, d)\<leftarrow>m. mget 0 cur c)"
  by (simp add: planTotal_def mkeys_def comp_def case_prod_unfold)

lemma planTotal_mset: "mset ns = mset ns' \<Longrightarrow> planTotal ns m = planTotal ns' m"
  unfolding planTotal_def by (metis mset_map sum_mset_sum_list)

lemma sum_mvals_planTotal: "mkeys plan = ns \<Longrightarrow> distinct ns \<Longrightarrow> sum_list (mvals plan) = planTotal ns plan"
  using mvals_mget [of plan 0] by (simp add: wf_map_def mkeys_def planTotal_def)

lemma caps_okI: "wf_map m \<Longrightarrow> \<forall>c \<in> set (mkeys m). 0 \<le> mget 0 m c \<Longrightarrow> caps_ok m"
  using mget_entry [of m _ _ 0] by (fastforce simp: caps_ok_def list_all_iff dest: in_mkeys)

lemma entry_le_sum:
  assumes "(c, d) \<in> set m" "\<forall>(c, d) \<in> set m. 0 \<le> f c d"
  shows "f c d \<le> (\<Sum>(c, d)\<leftarrow>m. (f c d :: int))"
  using assms by (intro member_le_sum_list) (auto simp: image_iff intro!: bexI [of _ "(c, d)"])

lemma cap3_le: "cap3 e l m x \<le> x"
  unfolding cap3_def by (meson capTo_le order_trans)

lemma cap3_mono: "x \<le> y \<Longrightarrow> cap3 e l m x \<le> cap3 e l m y"
  by (simp add: cap3_def capTo_mono)

lemma cap3_idem: "cap3 e l m (cap3 e l m x) = cap3 e l m x"
  by (auto simp: cap3_def capTo_def split: option.splits)

lemma cap3_nonneg:
  assumes "\<And>v. e = Some v \<Longrightarrow> 0 \<le> v" "\<And>v. l = Some v \<Longrightarrow> 0 \<le> v" "\<And>v. m = Some v \<Longrightarrow> 0 \<le> v" "0 \<le> x"
  shows "0 \<le> cap3 e l m x"
  unfolding cap3_def using assms by (intro capTo_nonneg) auto

lemma cap3_less: "cap3 e l m x < x \<Longrightarrow> Some (cap3 e l m x) \<in> {e, l, m}"
  by (auto simp: cap3_def capTo_def split: option.splits if_splits)

lemma cap3_bounds:
  shows "m = Some v \<Longrightarrow> cap3 e l m x \<le> v"
    and "l = Some v \<Longrightarrow> cap3 e l m x \<le> v"
    and "e = Some v \<Longrightarrow> cap3 e l m x \<le> v"
proof -
  have "cap3 e l m x \<le> capTo m x" "cap3 e l m x \<le> capTo l (capTo m x)"
    unfolding cap3_def by (meson capTo_le order_trans)+
  then show "m = Some v \<Longrightarrow> cap3 e l m x \<le> v" "l = Some v \<Longrightarrow> cap3 e l m x \<le> v"
    using capTo_bound order_trans by metis+
  show "e = Some v \<Longrightarrow> cap3 e l m x \<le> v"
    unfolding cap3_def by (rule capTo_bound)
qed

lemma planTotal_bound:
  "plan_inv ns T r plan \<Longrightarrow> n \<in> set ns \<Longrightarrow> 0 \<le> mget 0 plan n \<and> mget 0 plan n + r \<le> T"
  by (auto simp: plan_inv_def planTotal_def list_all_iff intro!: member_le_sum_list)

end
