(* ===== verification/Indexes.thy ===== *)
theory Indexes
  imports Go_Prelude
begin

text \<open>
  In-memory indexes: \<open>pkg/util/bijection\<close>, \<open>pkg/util/multimap\<close>, the follower controller's
  \<open>bidirectionalCache\<close> and the reference counter of policies (\<open>policyrc/counter.go\<close>).  Every operation
  runs under the structure's lock and is atomic.  A set is the list of its elements in iteration
  order.
\<close>


section \<open>Model: bijection\<close>

record ('a, 'b) Bijection =
  t1ToT2 :: "('a, 'b) gomap"
  t2ToT1 :: "('b, 'a) gomap"

definition NewBijection :: "('a, 'b) Bijection" where
  "NewBijection = \<lparr>t1ToT2 = [], t2ToT1 = []\<rparr>"

datatype ('a, 'b) indexError = T1AlreadyMapped 'a 'b | T2AlreadyMapped 'b 'a

definition Bijection_LookupByT1 :: "('a, 'b) Bijection \<Rightarrow> 'a \<Rightarrow> 'b option" where
  "Bijection_LookupByT1 m key = map_of (t1ToT2 m) key"

definition Bijection_LookupByT2 :: "('a, 'b) Bijection \<Rightarrow> 'b \<Rightarrow> 'a option" where
  "Bijection_LookupByT2 m key = map_of (t2ToT1 m) key"

definition Bijection_Add ::
    "'a \<Rightarrow> 'b \<Rightarrow> ('a, 'b) Bijection \<Rightarrow> ('a, 'b) Bijection \<times> ('a, 'b) indexError option" where
  "Bijection_Add t1 t2 m =
     (case map_of (t1ToT2 m) t1 of
        Some val \<Rightarrow> (m, Some (T1AlreadyMapped t1 val))
      | None \<Rightarrow>
          (case map_of (t2ToT1 m) t2 of
             Some val \<Rightarrow> (m, Some (T2AlreadyMapped t2 val))
           | None \<Rightarrow> (\<lparr>t1ToT2 = mput t1 t2 (t1ToT2 m), t2ToT1 = mput t2 t1 (t2ToT1 m)\<rparr>, None)))"

definition Bijection_DeleteT1 :: "'a \<Rightarrow> ('a, 'b) Bijection \<Rightarrow> ('a, 'b) Bijection \<times> bool" where
  "Bijection_DeleteT1 key m =
     (case map_of (t1ToT2 m) key of
        None \<Rightarrow> (m, False)
      | Some val \<Rightarrow> (\<lparr>t1ToT2 = mdel key (t1ToT2 m), t2ToT1 = mdel val (t2ToT1 m)\<rparr>, True))"

definition Bijection_DeleteT2 :: "'b \<Rightarrow> ('a, 'b) Bijection \<Rightarrow> ('a, 'b) Bijection \<times> bool" where
  "Bijection_DeleteT2 key m =
     (case map_of (t2ToT1 m) key of
        None \<Rightarrow> (m, False)
      | Some val \<Rightarrow> (\<lparr>t1ToT2 = mdel val (t1ToT2 m), t2ToT1 = mdel key (t2ToT1 m)\<rparr>, True))"


section \<open>Model: multimap\<close>

record ('a, 'b) MultiMap =
  mt1ToT2 :: "('a, 'b list) gomap"
  mt2ToT1 :: "('b, 'a) gomap"

definition NewMultiMap :: "('a, 'b) MultiMap" where
  "NewMultiMap = \<lparr>mt1ToT2 = [], mt2ToT1 = []\<rparr>"

definition MultiMap_LookupByT1 :: "('a, 'b) MultiMap \<Rightarrow> 'a \<Rightarrow> 'b list option" where
  "MultiMap_LookupByT1 m key = map_of (mt1ToT2 m) key"

definition MultiMap_LookupByT2 :: "('a, 'b) MultiMap \<Rightarrow> 'b \<Rightarrow> 'a option" where
  "MultiMap_LookupByT2 m key = map_of (mt2ToT1 m) key"

definition MultiMap_Add ::
    "'a \<Rightarrow> 'b \<Rightarrow> ('a, 'b) MultiMap \<Rightarrow> ('a, 'b) MultiMap \<times> ('a, 'b) indexError option" where
  "MultiMap_Add t1 t2 m =
     (if t2 \<in> set (mget [] (mt1ToT2 m) t1) then (m, Some (T1AlreadyMapped t1 t2))
      else case map_of (mt2ToT1 m) t2 of
        Some val \<Rightarrow> (m, Some (T2AlreadyMapped t2 val))
      | None \<Rightarrow>
          (\<lparr>mt1ToT2 = mput t1 (List.insert t2 (mget [] (mt1ToT2 m) t1)) (mt1ToT2 m),
            mt2ToT1 = mput t2 t1 (mt2ToT1 m)\<rparr>, None))"

definition MultiMap_DeleteT1 :: "'a \<Rightarrow> ('a, 'b) MultiMap \<Rightarrow> ('a, 'b) MultiMap \<times> bool" where
  "MultiMap_DeleteT1 key m =
     (case map_of (mt1ToT2 m) key of
        None \<Rightarrow> (m, False)
      | Some val \<Rightarrow> (\<lparr>mt1ToT2 = mdel key (mt1ToT2 m), mt2ToT1 = fold mdel val (mt2ToT1 m)\<rparr>, True))"

definition MultiMap_DeleteT2 :: "'b \<Rightarrow> ('a, 'b) MultiMap \<Rightarrow> ('a, 'b) MultiMap \<times> bool" where
  "MultiMap_DeleteT2 key m =
     (case map_of (mt2ToT1 m) key of
        None \<Rightarrow> (m, False)
      | Some val \<Rightarrow>
          let rest = removeAll key (mget [] (mt1ToT2 m) val) in
          (\<lparr>mt1ToT2 = (if rest = [] then mdel val (mt1ToT2 m) else mput val rest (mt1ToT2 m)),
            mt2ToT1 = mdel key (mt2ToT1 m)\<rparr>, True))"


section \<open>Model: bidirectional cache\<close>

record ('a, 'b) bidirectionalCache =
  cache :: "('a, 'b list) gomap"
  reverseCache :: "('b, 'a list) gomap"

definition newBidirectionalCache :: "('a, 'b) bidirectionalCache" where
  "newBidirectionalCache = \<lparr>cache = [], reverseCache = []\<rparr>"

definition cacheLookup :: "('a, 'b) bidirectionalCache \<Rightarrow> 'a \<Rightarrow> 'b list" where
  "cacheLookup c key = mget [] (cache c) key"

definition cacheReverseLookup :: "('a, 'b) bidirectionalCache \<Rightarrow> 'b \<Rightarrow> 'a list" where
  "cacheReverseLookup c key = mget [] (reverseCache c) key"

definition dropKey :: "'a \<Rightarrow> 'b \<Rightarrow> ('b, 'a list) gomap \<Rightarrow> ('b, 'a list) gomap" where
  "dropKey key val rc =
     (case map_of rc val of
        None \<Rightarrow> rc
      | Some keySet \<Rightarrow>
          let rest = removeAll key keySet in
          if rest = [] then mdel val rc else mput val rest rc)"

definition addKey :: "'a \<Rightarrow> 'b \<Rightarrow> ('b, 'a list) gomap \<Rightarrow> ('b, 'a list) gomap" where
  "addKey key val rc = mput val (List.insert key (mget [] rc val)) rc"

definition cacheUpdate ::
    "'a \<Rightarrow> 'b list \<Rightarrow> ('a, 'b) bidirectionalCache \<Rightarrow> ('a, 'b) bidirectionalCache" where
  "cacheUpdate key newValues c =
     (let oldValues = mget [] (cache c) key;
          staleValues = filter (\<lambda>v. v \<notin> set newValues) oldValues;
          addedValues = filter (\<lambda>v. v \<notin> set oldValues) newValues
      in \<lparr>cache = (if newValues \<noteq> [] then mput key newValues (cache c) else mdel key (cache c)),
          reverseCache = fold (addKey key) addedValues (fold (dropKey key) staleValues (reverseCache c))\<rparr>)"


section \<open>Model: policy reference counter\<close>

record ('o, 'p) Counter =
  knownPolicies :: "('o, 'p list) gomap"
  policyCounts :: "('p, int) gomap"

definition NewCounter :: "('o, 'p) Counter" where
  "NewCounter = \<lparr>knownPolicies = [], policyCounts = []\<rparr>"

text \<open>\<open>None\<close> is the panic on a negative count.  Counts stay far below \<open>2^63\<close>.\<close>

fun decrementAll :: "'p list \<Rightarrow> ('p, int) gomap \<Rightarrow> ('p, int) gomap option" where
  "decrementAll [] counts = Some counts"
| "decrementAll (p # ps) counts =
     (let n = mget 0 counts p - 1 in
      if n < 0 then None else decrementAll ps (mput p n counts))"

definition incrementAll :: "'p list \<Rightarrow> ('p, int) gomap \<Rightarrow> ('p, int) gomap" where
  "incrementAll ps counts = fold (\<lambda>p m. mput p (mget 0 m p + 1) m) ps counts"

text \<open>\<open>Update\<close> also returns the policies it flags for an update.\<close>

definition Counter_Update ::
    "'o \<Rightarrow> 'p list \<Rightarrow> ('o, 'p) Counter \<Rightarrow> (('o, 'p) Counter \<times> 'p list) option" where
  "Counter_Update obj newPolicies counter =
     (let previousPolicies = mget [] (knownPolicies counter) obj;
          known = (if newPolicies \<noteq> [] then mput obj newPolicies (knownPolicies counter)
                   else mdel obj (knownPolicies counter))
      in case decrementAll previousPolicies (policyCounts counter) of
        None \<Rightarrow> None
      | Some counts \<Rightarrow>
          Some (\<lparr>knownPolicies = known, policyCounts = incrementAll newPolicies counts\<rparr>,
                previousPolicies @ newPolicies))"

definition GetPolicyCounts :: "('o, 'p) Counter \<Rightarrow> 'p list \<Rightarrow> int list" where
  "GetPolicyCounts counter keys = map (mget 0 (policyCounts counter)) keys"


section \<open>Statement vocabulary\<close>

datatype ('a, 'b) biOp = AddPair 'a 'b | DelT1 'a | DelT2 'b

fun bijectionOp :: "('a, 'b) biOp \<Rightarrow> ('a, 'b) Bijection \<Rightarrow> ('a, 'b) Bijection" where
  "bijectionOp (AddPair a b) m = fst (Bijection_Add a b m)"
| "bijectionOp (DelT1 a) m = fst (Bijection_DeleteT1 a m)"
| "bijectionOp (DelT2 b) m = fst (Bijection_DeleteT2 b m)"

fun multiMapOp :: "('a, 'b) biOp \<Rightarrow> ('a, 'b) MultiMap \<Rightarrow> ('a, 'b) MultiMap" where
  "multiMapOp (AddPair a b) m = fst (MultiMap_Add a b m)"
| "multiMapOp (DelT1 a) m = fst (MultiMap_DeleteT1 a m)"
| "multiMapOp (DelT2 b) m = fst (MultiMap_DeleteT2 b m)"

text \<open>The abstract specifications: relations between the two sides.\<close>

fun oneToOneOp :: "('a, 'b) biOp \<Rightarrow> ('a \<times> 'b) set \<Rightarrow> ('a \<times> 'b) set" where
  "oneToOneOp (AddPair a b) R = (if a \<in> Domain R \<or> b \<in> Range R then R else insert (a, b) R)"
| "oneToOneOp (DelT1 a) R = {(x, y) \<in> R. x \<noteq> a}"
| "oneToOneOp (DelT2 b) R = {(x, y) \<in> R. y \<noteq> b}"

fun oneToManyOp :: "('a, 'b) biOp \<Rightarrow> ('a \<times> 'b) set \<Rightarrow> ('a \<times> 'b) set" where
  "oneToManyOp (AddPair a b) R = (if b \<in> Range R then R else insert (a, b) R)"
| "oneToManyOp (DelT1 a) R = {(x, y) \<in> R. x \<noteq> a}"
| "oneToManyOp (DelT2 b) R = {(x, y) \<in> R. y \<noteq> b}"

definition setImage :: "'a \<times> 'b list \<Rightarrow> ('a \<times> 'b) set \<Rightarrow> ('a \<times> 'b) set" where
  "setImage kv R = {(x, y) \<in> R. x \<noteq> fst kv} \<union> {fst kv} \<times> set (snd kv)"

definition bijection_rel :: "('a, 'b) Bijection \<Rightarrow> ('a \<times> 'b) set" where
  "bijection_rel m = {(a, b). Bijection_LookupByT1 m a = Some b}"

definition bijection_ok :: "('a, 'b) Bijection \<Rightarrow> bool" where
  "bijection_ok m \<longleftrightarrow> (\<forall>a b. Bijection_LookupByT1 m a = Some b \<longleftrightarrow> Bijection_LookupByT2 m b = Some a)"

definition multiMap_rel :: "('a, 'b) MultiMap \<Rightarrow> ('a \<times> 'b) set" where
  "multiMap_rel m = {(a, b). MultiMap_LookupByT2 m b = Some a}"

definition multiMap_ok :: "('a, 'b) MultiMap \<Rightarrow> bool" where
  "multiMap_ok m \<longleftrightarrow>
     (\<forall>a b. b \<in> set (mget [] (mt1ToT2 m) a) \<longleftrightarrow> MultiMap_LookupByT2 m b = Some a) \<and>
     (\<forall>a. MultiMap_LookupByT1 m a \<noteq> Some [])"

definition cache_rel :: "('a, 'b) bidirectionalCache \<Rightarrow> ('a \<times> 'b) set" where
  "cache_rel c = {(a, b). b \<in> set (cacheLookup c a)}"

definition cache_ok :: "('a, 'b) bidirectionalCache \<Rightarrow> bool" where
  "cache_ok c \<longleftrightarrow>
     (\<forall>a b. b \<in> set (cacheLookup c a) \<longleftrightarrow> a \<in> set (cacheReverseLookup c b)) \<and>
     (\<forall>a. map_of (cache c) a \<noteq> Some []) \<and> (\<forall>b. map_of (reverseCache c) b \<noteq> Some [])"

definition refCount :: "('o, 'p list) gomap \<Rightarrow> 'p \<Rightarrow> int" where
  "refCount known p = (\<Sum>o' \<in> set (mkeys known). int (count_list (mget [] known o') p))"

definition counter_ok :: "('o, 'p) Counter \<Rightarrow> bool" where
  "counter_ok c \<longleftrightarrow> wf_map (knownPolicies c) \<and> (\<forall>p. mget 0 (policyCounts c) p = refCount (knownPolicies c) p)"

definition counterRun :: "('o \<times> 'p list) list \<Rightarrow> ('o, 'p) Counter option \<Rightarrow> ('o, 'p) Counter option" where
  "counterRun ups = fold (\<lambda>(obj, ps) r. Option.bind r (\<lambda>c. map_option fst (Counter_Update obj ps c))) ups"

definition lastPolicies :: "('o \<times> 'p list) list \<Rightarrow> 'o \<Rightarrow> 'p list" where
  "lastPolicies ups = fold (\<lambda>(obj, ps) f. f(obj := ps)) ups (\<lambda>_. [])"


section \<open>Indexes as refinements of relations\<close>

locale relation_index =
  fixes ok :: "'s \<Rightarrow> bool"
    and rel :: "'s \<Rightarrow> ('a \<times> 'b) set"
    and conc :: "'op \<Rightarrow> 's \<Rightarrow> 's"
    and abst :: "'op \<Rightarrow> ('a \<times> 'b) set \<Rightarrow> ('a \<times> 'b) set"
    and fresh :: 's
  assumes fresh_ok: "ok fresh"
    and fresh_rel: "rel fresh = {}"
    and conc_ok: "ok s \<Longrightarrow> ok (conc op s)"
    and conc_rel: "ok s \<Longrightarrow> rel (conc op s) = abst op (rel s)"
begin

lemma run_ok: "ok s \<Longrightarrow> ok (fold conc ops s)"
  by (induction ops arbitrary: s) (auto simp: conc_ok)

lemma run_rel: "ok s \<Longrightarrow> rel (fold conc ops s) = fold abst ops (rel s)"
  by (induction ops arbitrary: s) (auto simp: conc_ok conc_rel)

lemma runs_refine: "ok (fold conc ops fresh) \<and> rel (fold conc ops fresh) = fold abst ops {}"
  using run_ok [OF fresh_ok] run_rel [OF fresh_ok] fresh_rel by simp

end

lemmas bijection_defs = bijection_ok_def bijection_rel_def Bijection_LookupByT1_def Bijection_LookupByT2_def
  Bijection_Add_def Bijection_DeleteT1_def Bijection_DeleteT2_def NewBijection_def

interpretation BijectionIndex: relation_index bijection_ok bijection_rel bijectionOp oneToOneOp NewBijection
proof
  fix m :: "('a, 'b) Bijection" and op :: "('a, 'b) biOp"
  assume ok: "bijection_ok m"
  then have i: "map_of (t2ToT1 m) b = Some a \<Longrightarrow> map_of (t1ToT2 m) a = Some b" for a b
    by (auto simp: bijection_defs)
  show "bijection_ok (bijectionOp op m)"
    using ok
    by (cases op) (auto simp: bijection_defs gomap_simps dest!: i split: option.splits if_splits)
  show "bijection_rel (bijectionOp op m) = oneToOneOp op (bijection_rel m)"
    using ok
    by (cases op) (auto simp: bijection_defs gomap_simps dest!: i split: option.splits if_splits)
qed (auto simp: bijection_defs)

lemmas multiMap_defs = multiMap_ok_def multiMap_rel_def MultiMap_LookupByT1_def MultiMap_LookupByT2_def
  MultiMap_Add_def MultiMap_DeleteT1_def MultiMap_DeleteT2_def NewMultiMap_def

lemma map_of_fold_mdel: "map_of (fold mdel ks m) k = (if k \<in> set ks then None else map_of m k)"
  by (induction ks arbitrary: m) (auto simp: gomap_simps)

lemma mget_mdel: "mget d (mdel k m) k' = (if k' = k then d else mget d m k')"
  by (simp add: mget_def map_of_mdel)

lemma removeAll_Nil_iff: "removeAll k xs = [] \<longleftrightarrow> set xs \<subseteq> {k}"
  by (induction xs) auto

lemma mget_map_of: "mget d m k = (case map_of m k of None \<Rightarrow> d | Some v \<Rightarrow> v)"
  by (simp add: mget_def)

interpretation MultiMapIndex: relation_index multiMap_ok multiMap_rel multiMapOp oneToManyOp NewMultiMap
proof
  fix m :: "('a, 'b) MultiMap" and op :: "('a, 'b) biOp"
  assume ok: "multiMap_ok m"
  then have i: "b \<in> set (mget [] (mt1ToT2 m) a) \<longleftrightarrow> map_of (mt2ToT1 m) b = Some a"
    and ne: "map_of (mt1ToT2 m) a \<noteq> Some []" for a b
    by (auto simp: multiMap_defs)
  have vals: "set val = {b. map_of (mt2ToT1 m) b = Some a}" if "map_of (mt1ToT2 m) a = Some val" for a val
    using i [of _ a] that by (auto simp: mget_map_of)
  have none: "map_of (mt2ToT1 m) b \<noteq> Some a" if "map_of (mt1ToT2 m) a = None" for a b
    using i [of b a] that by (auto simp: mget_map_of)
  show "multiMap_ok (multiMapOp op m)"
  proof (cases op)
    case (AddPair a b)
    then show ?thesis using ok i ne
      by (auto simp: multiMap_defs gomap_simps split: option.splits if_splits)
  next
    case (DelT1 a)
    show ?thesis
    proof (cases "map_of (mt1ToT2 m) a")
      case None
      then show ?thesis using ok DelT1 by (simp add: MultiMap_DeleteT1_def)
    next
      case (Some val)
      then have "multiMapOp op m = \<lparr>mt1ToT2 = mdel a (mt1ToT2 m), mt2ToT1 = fold mdel val (mt2ToT1 m)\<rparr>"
        using DelT1 by (simp add: MultiMap_DeleteT1_def)
      then show ?thesis using i ne vals [OF Some]
        by (auto simp: multiMap_ok_def MultiMap_LookupByT1_def MultiMap_LookupByT2_def map_of_fold_mdel mget_map_of
          map_of_mdel split: option.splits)
    qed
  next
    case (DelT2 b)
    show ?thesis
    proof (cases "map_of (mt2ToT1 m) b")
      case None
      then show ?thesis using ok DelT2 by (simp add: MultiMap_DeleteT2_def)
    next
      case (Some a)
      define rest where "rest = removeAll b (mget [] (mt1ToT2 m) a)"
      have "multiMapOp op m = \<lparr>mt1ToT2 = (if rest = [] then mdel a (mt1ToT2 m) else mput a rest (mt1ToT2 m)),
          mt2ToT1 = mdel b (mt2ToT1 m)\<rparr>"
        using DelT2 Some by (simp add: MultiMap_DeleteT2_def Let_def rest_def)
      moreover have "set rest = {y. y \<noteq> b \<and> map_of (mt2ToT1 m) y = Some a}" using i by (auto simp: rest_def)
      moreover have "rest = [] \<Longrightarrow> y \<noteq> b \<Longrightarrow> map_of (mt2ToT1 m) y \<noteq> Some a" for y
        using calculation(2) by auto
      ultimately show ?thesis using i ne Some
        by (auto simp: multiMap_ok_def MultiMap_LookupByT1_def MultiMap_LookupByT2_def gomap_simps mget_mdel)
    qed
  qed
  show "multiMap_rel (multiMapOp op m) = oneToManyOp op (multiMap_rel m)"
  proof (cases op)
    case (AddPair a b)
    then show ?thesis using i ne
      by (auto simp: multiMap_defs gomap_simps split: option.splits if_splits)
  next
    case (DelT1 a)
    then show ?thesis using vals none
      by (auto simp: multiMap_rel_def MultiMap_LookupByT2_def MultiMap_DeleteT1_def map_of_fold_mdel
        split: option.splits if_splits)
  next
    case (DelT2 b)
    then show ?thesis
      by (auto simp: multiMap_rel_def MultiMap_LookupByT2_def MultiMap_DeleteT2_def Let_def map_of_mdel
        split: option.splits if_splits)
  qed
qed (auto simp: multiMap_defs)


section \<open>The bidirectional cache\<close>

lemma set_mget_dropKey: "set (mget [] (dropKey k v rc) w) = set (mget [] rc w) - (if w = v then {k} else {})"
  by (auto simp: dropKey_def Let_def mget_map_of gomap_simps removeAll_Nil_iff split: option.splits)

lemma set_mget_addKey: "set (mget [] (addKey k v rc) w) = set (mget [] rc w) \<union> (if w = v then {k} else {})"
  by (auto simp: addKey_def gomap_simps)

lemma set_mget_dropKeys:
  "set (mget [] (fold (dropKey k) vs rc) w) = set (mget [] rc w) - (if w \<in> set vs then {k} else {})"
  by (induction vs arbitrary: rc) (auto simp: set_mget_dropKey)

lemma set_mget_addKeys:
  "set (mget [] (fold (addKey k) vs rc) w) = set (mget [] rc w) \<union> (if w \<in> set vs then {k} else {})"
  by (induction vs arbitrary: rc) (auto simp: set_mget_addKey)

lemma dropKeys_nonempty: "\<forall>w. map_of rc w \<noteq> Some [] \<Longrightarrow> map_of (fold (dropKey k) vs rc) w \<noteq> Some []"
  by (induction vs arbitrary: rc) (auto simp: dropKey_def Let_def gomap_simps split: option.splits)

lemma addKeys_nonempty: "\<forall>w. map_of rc w \<noteq> Some [] \<Longrightarrow> map_of (fold (addKey k) vs rc) w \<noteq> Some []"
proof (induction vs arbitrary: rc)
  case (Cons v vs)
  have "\<forall>w. map_of (addKey k v rc) w \<noteq> Some []"
    using Cons.prems by (auto simp: addKey_def gomap_simps List.insert_def split: if_splits)
  then show ?case using Cons.IH by simp
qed simp

interpretation FollowerCache: relation_index cache_ok cache_rel "\<lambda>(k, vs). cacheUpdate k vs" setImage
  newBidirectionalCache
proof
  fix c :: "('a, 'b) bidirectionalCache" and kv :: "'a \<times> 'b list"
  obtain k vs where kv: "kv = (k, vs)" by fastforce
  assume ok: "cache_ok c"
  let ?c = "cacheUpdate k vs c"
  have look: "cacheLookup ?c a = (if a = k then vs else cacheLookup c a)" for a
    by (auto simp: cacheLookup_def cacheUpdate_def Let_def mget_map_of gomap_simps)
  have rev: "set (cacheReverseLookup ?c b) = (set (cacheReverseLookup c b) - {k}) \<union> (if b \<in> set vs then {k} else {})" for b
    using ok [unfolded cache_ok_def]
    by (auto simp: cacheReverseLookup_def cacheUpdate_def Let_def set_mget_addKeys set_mget_dropKeys cacheLookup_def)
  have ne: "map_of (cache ?c) a \<noteq> Some []" for a
    using ok by (auto simp: cache_ok_def cacheUpdate_def Let_def gomap_simps)
  have ne': "map_of (reverseCache ?c) b \<noteq> Some []" for b
    unfolding cacheUpdate_def Let_def bidirectionalCache.simps
    using ok by (intro addKeys_nonempty allI dropKeys_nonempty) (auto simp: cache_ok_def)
  show "cache_ok ((\<lambda>(k, vs). cacheUpdate k vs) kv c)"
    unfolding kv split cache_ok_def
  proof (intro conjI allI)
    fix a b
    have "b \<in> set (cacheLookup c a) \<longleftrightarrow> a \<in> set (cacheReverseLookup c b)" using ok by (simp add: cache_ok_def)
    then show "b \<in> set (cacheLookup ?c a) \<longleftrightarrow> a \<in> set (cacheReverseLookup ?c b)"
      by (cases "a = k") (auto simp: look rev)
  qed (use ne ne' in auto)
  show "cache_rel ((\<lambda>(k, vs). cacheUpdate k vs) kv c) = setImage kv (cache_rel c)"
    by (auto simp: kv cache_rel_def setImage_def look split: if_splits)
qed (auto simp: cache_ok_def cache_rel_def newBidirectionalCache_def cacheLookup_def cacheReverseLookup_def)


section \<open>The policy counter\<close>

lemma mget_incrementAll: "mget 0 (incrementAll ps m) q = mget 0 m q + int (count_list ps q)"
  unfolding incrementAll_def by (induction ps arbitrary: m) (auto simp: gomap_simps)

lemma decrementAll_spec:
  assumes "\<forall>q. int (count_list ps q) \<le> mget 0 m q"
  shows "\<exists>m'. decrementAll ps m = Some m' \<and> (\<forall>q. mget 0 m' q = mget 0 m q - int (count_list ps q))"
  using assms
proof (induction ps arbitrary: m)
  case (Cons p ps)
  let ?m = "mput p (mget 0 m p - 1) m"
  have "\<forall>q. int (count_list ps q) \<le> mget 0 ?m q" using Cons.prems by (auto simp: gomap_simps split: if_splits)
  from Cons.IH [OF this] obtain m' where m': "decrementAll ps ?m = Some m'"
    "\<forall>q. mget 0 m' q = mget 0 ?m q - int (count_list ps q)" by blast
  have "0 \<le> mget 0 m p - 1" using Cons.prems [rule_format, of p] by simp
  then show ?case using m' by (auto simp: Let_def gomap_simps)
qed simp

lemma refCount_split:
  assumes "wf_map known"
  shows "refCount known p = int (count_list (mget [] known obj) p) + refCount (mdel obj known) p"
proof -
  have keys: "set (mkeys (mdel obj known)) = set (mkeys known) - {obj}"
    by (auto simp: mkeys_def mdel_def delete_keys)
  have same: "(\<Sum>o' \<in> set (mkeys known) - {obj}. int (count_list (mget [] (mdel obj known) o') p)) =
      (\<Sum>o' \<in> set (mkeys known) - {obj}. int (count_list (mget [] known o') p))"
    by (intro sum.cong) (auto simp: mget_mdel)
  show ?thesis
  proof (cases "obj \<in> set (mkeys known)")
    case True
    then show ?thesis by (simp add: refCount_def keys same sum.remove)
  next
    case False
    then have all: "set (mkeys known) - {obj} = set (mkeys known)" by blast
    show ?thesis using same False by (simp add: refCount_def keys all mget_notin)
  qed
qed

lemma refCount_put:
  assumes "wf_map known"
  shows "refCount (mput obj ps known) p = int (count_list ps p) + refCount (mdel obj known) p"
proof -
  have "mget [] (mdel obj (mput obj ps known)) o' = mget [] (mdel obj known) o'" for o'
    by (simp add: mget_mdel mget_mput)
  moreover have "set (mkeys (mdel obj (mput obj ps known))) = set (mkeys (mdel obj known))"
    by (auto simp: mkeys_def mdel_def delete_keys mput_def update_keys)
  ultimately have "refCount (mdel obj (mput obj ps known)) p = refCount (mdel obj known) p"
    by (simp add: refCount_def)
  then show ?thesis
    using refCount_split [of "mput obj ps known" p obj] assms by (simp add: mget_mput)
qed

lemma refCount_nonneg: "0 \<le> refCount known p"
  by (simp add: refCount_def sum_nonneg)

lemma Counter_Update_ok:
  assumes "counter_ok c"
  shows "\<exists>c' flagged. Counter_Update obj ps c = Some (c', flagged) \<and> counter_ok c' \<and>
     mget [] (knownPolicies c') = (mget [] (knownPolicies c))(obj := ps) \<and> set flagged = set (mget [] (knownPolicies c) obj) \<union> set ps"
proof -
  let ?old = "mget [] (knownPolicies c) obj"
  have wf: "wf_map (knownPolicies c)" and cnt: "mget 0 (policyCounts c) p = refCount (knownPolicies c) p" for p
    using assms by (auto simp: counter_ok_def)
  have "\<forall>q. int (count_list ?old q) \<le> mget 0 (policyCounts c) q"
    using cnt refCount_split [OF wf, of _ obj] refCount_nonneg [of "mdel obj (knownPolicies c)"] by simp
  from decrementAll_spec [OF this] obtain m where m: "decrementAll ?old (policyCounts c) = Some m"
    "\<forall>q. mget 0 m q = refCount (mdel obj (knownPolicies c)) q"
    using cnt refCount_split [OF wf, of _ obj] by auto
  then show ?thesis
    using wf refCount_put [OF wf]
    by (auto simp: Counter_Update_def Let_def counter_ok_def mget_incrementAll mget_mput mget_mdel fun_eq_iff)
qed

lemma counterRun_ok:
  assumes "counter_ok c0"
  shows "\<exists>c. counterRun ups (Some c0) = Some c \<and> counter_ok c \<and>
     (\<forall>obj. mget [] (knownPolicies c) obj = fold (\<lambda>(obj, ps) f. f(obj := ps)) ups (mget [] (knownPolicies c0)) obj)"
  using assms
proof (induction ups arbitrary: c0)
  case (Cons u ups)
  obtain obj ps where u: "u = (obj, ps)" by fastforce
  obtain c' fl where c': "Counter_Update obj ps c0 = Some (c', fl)" "counter_ok c'"
      "mget [] (knownPolicies c') = (mget [] (knownPolicies c0))(obj := ps)"
    using Counter_Update_ok [OF Cons.prems, of obj ps] by blast
  show ?case using Cons.IH [OF c'(2)] c'(1,3) by (simp add: u counterRun_def)
qed (simp add: counterRun_def)


section \<open>Properties\<close>

text \<open>
  A \<open>Bijection\<close> refines a one-to-one relation and a \<open>MultiMap\<close> a one-to-many relation: after any
  sequence of additions and deletions, successful or not, both directions of the lookup agree and
  contain exactly the pairs of the specification.
\<close>

lemma bijection_multimap_refine:
  "(\<forall>a b. Bijection_LookupByT1 (fold bijectionOp ops NewBijection) a = Some b \<longleftrightarrow>
      Bijection_LookupByT2 (fold bijectionOp ops NewBijection) b = Some a) \<and>
   {(a, b). Bijection_LookupByT1 (fold bijectionOp ops NewBijection) a = Some b} = fold oneToOneOp ops {} \<and>
   multiMap_ok (fold multiMapOp ops NewMultiMap) \<and>
   {(a, b). MultiMap_LookupByT2 (fold multiMapOp ops NewMultiMap) b = Some a} = fold oneToManyOp ops {}"
  using BijectionIndex.runs_refine [of ops] MultiMapIndex.runs_refine [of ops]
  unfolding bijection_ok_def bijection_rel_def multiMap_rel_def by blast

text \<open>
  C22.  The follower controller's cache refines the relation between leaders and followers: after any
  sequence of updates the forward and the reverse lookup agree, hold exactly the last values given
  for every key, and no empty set is kept.
\<close>

theorem bidirectionalCache_refines:
  "cache_ok (fold (\<lambda>(k, vs). cacheUpdate k vs) ups newBidirectionalCache) \<and>
   (\<forall>a b. b \<in> set (cacheLookup (fold (\<lambda>(k, vs). cacheUpdate k vs) ups newBidirectionalCache) a) \<longleftrightarrow>
      (a, b) \<in> fold setImage ups {}) \<and>
   (\<forall>a b. a \<in> set (cacheReverseLookup (fold (\<lambda>(k, vs). cacheUpdate k vs) ups newBidirectionalCache) b) \<longleftrightarrow>
      (a, b) \<in> fold setImage ups {})"
  using FollowerCache.runs_refine [of ups] unfolding cache_ok_def cache_rel_def by blast

text \<open>
  C23.  The policy counter never panics: after any sequence of updates the counter knows for every
  object the policies of its last update, and every count is the number of references that the
  objects currently hold to that policy.
\<close>

theorem counter_counts_references:
  "\<exists>c. counterRun ups (Some NewCounter) = Some c \<and> wf_map (knownPolicies c) \<and>
     (\<forall>obj. mget [] (knownPolicies c) obj = lastPolicies ups obj) \<and>
     GetPolicyCounts c keys = map (refCount (knownPolicies c)) keys"
proof -
  have new: "mget [] (knownPolicies NewCounter) = (\<lambda>_. [])" by (simp add: NewCounter_def mget_def fun_eq_iff)
  have "counter_ok NewCounter" by (simp add: counter_ok_def NewCounter_def refCount_def)
  from counterRun_ok [OF this, of ups] obtain c where "counterRun ups (Some NewCounter) = Some c" "counter_ok c"
    "\<forall>obj. mget [] (knownPolicies c) obj = lastPolicies ups obj"
    by (auto simp: lastPolicies_def new)
  then show ?thesis by (auto simp: GetPolicyCounts_def counter_ok_def)
qed

end
