(* ===== verification/Go_Strings.thy ===== *)
theory Go_Strings
  imports Go_Prelude
begin

text \<open>
  String formatting of the Go standard library: \<open>strconv.FormatInt(n, 10)\<close>, \<open>strconv.ParseInt(s, 10, 64)\<close>
  (decimal digits with an optional sign) and the \<open>%q\<close> verb of \<open>fmt\<close> for strings without characters
  that need an escape.
\<close>

section \<open>Model\<close>

definition digit :: "int \<Rightarrow> char" where
  "digit d = char_of (48 + nat d)"

function digitsOf :: "int \<Rightarrow> string" where
  "digitsOf n = (if n < 10 then [digit n] else digitsOf (n div 10) @ [digit (n mod 10)])"
  by auto
termination by (relation "measure nat") auto

declare digitsOf.simps [simp del]

definition formatInt :: "int \<Rightarrow> string" where
  "formatInt n = (if n < 0 then CHR ''-'' # digitsOf (- n) else digitsOf n)"

definition digitVal :: "char \<Rightarrow> int option" where
  "digitVal c = (let n = int (of_char c) in if 48 \<le> n \<and> n \<le> 57 then Some (n - 48) else None)"

fun parseDigits :: "int \<Rightarrow> string \<Rightarrow> int option" where
  "parseDigits acc [] = Some acc"
| "parseDigits acc (c # cs) =
     (case digitVal c of None \<Rightarrow> None | Some d \<Rightarrow> parseDigits (acc * 10 + d) cs)"

definition parseInt :: "string \<Rightarrow> int option" where
  "parseInt s =
     (let neg = (s \<noteq> [] \<and> hd s = CHR ''-'');
          digits = (if s \<noteq> [] \<and> (hd s = CHR ''-'' \<or> hd s = CHR ''+'') then tl s else s) in
      if digits = [] then None
      else case parseDigits 0 digits of
        None \<Rightarrow> None
      | Some n \<Rightarrow> (let v = (if neg then - n else n) in if in64 v then Some v else None))"

definition quoteStr :: "string \<Rightarrow> string" where
  "quoteStr s = [CHR 0x22] @ s @ [CHR 0x22]"


section \<open>Round trip\<close>

lemma digitVal_digit: "0 \<le> d \<Longrightarrow> d < 10 \<Longrightarrow> digitVal (digit d) = Some d"
  by (simp add: digitVal_def digit_def Let_def)

lemma digit_not_sign: "0 \<le> d \<Longrightarrow> d < 10 \<Longrightarrow> digit d \<noteq> CHR ''-'' \<and> digit d \<noteq> CHR ''+''"
  using digitVal_digit [of d] by (auto simp: digitVal_def Let_def split: if_splits)

lemma parseDigits_append:
  "parseDigits acc (xs @ ys) = (case parseDigits acc xs of None \<Rightarrow> None | Some a \<Rightarrow> parseDigits a ys)"
  by (induction xs arbitrary: acc) (auto split: option.splits)

lemma parseDigits_digitsOf: "0 \<le> n \<Longrightarrow> parseDigits 0 (digitsOf n) = Some n"
proof (induction n rule: digitsOf.induct)
  case (1 n)
  show ?case
  proof (cases "n < 10")
    case True
    then show ?thesis using 1 by (subst digitsOf.simps) (simp add: digitVal_digit)
  next
    case False
    then have "parseDigits 0 (digitsOf (n div 10)) = Some (n div 10)" using 1 by simp
    then show ?thesis using False
      by (subst digitsOf.simps) (simp add: parseDigits_append digitVal_digit)
  qed
qed

lemma digitsOf_hd: "0 \<le> n \<Longrightarrow> digitsOf n \<noteq> [] \<and> hd (digitsOf n) \<noteq> CHR ''-'' \<and> hd (digitsOf n) \<noteq> CHR ''+''"
proof (induction n rule: digitsOf.induct)
  case (1 n)
  then show ?case
    using digit_not_sign [of n] by (subst (1 2 3) digitsOf.simps) (auto simp: hd_append)
qed

lemma parseInt_formatInt: "in64 n \<Longrightarrow> parseInt (formatInt n) = Some n"
  using parseDigits_digitsOf [of n] parseDigits_digitsOf [of "- n"] digitsOf_hd [of n] digitsOf_hd [of "- n"]
  by (auto simp: parseInt_def formatInt_def Let_def)

lemma formatInt_inj: "in64 m \<Longrightarrow> in64 n \<Longrightarrow> formatInt m = formatInt n \<longleftrightarrow> m = n"
  using parseInt_formatInt by (metis option.inject)

end
