(* ===== verification/Json.thy ===== *)
theory Json
  imports Go_Strings
begin

text \<open>
  The part of \<open>encoding/json\<close> that the controllers use to keep structured data in annotations:
  compact output with Go's escapes (including the HTML-safe ones), and a parser for the JSON grammar.
  A string is a list of bytes of valid UTF-8; a number is its literal, as in \<open>json.Number\<close>.
\<close>


section \<open>Model\<close>

datatype json =
    JNull
  | JBool bool
  | JNum string
  | JStr string
  | JArr "json list"
  | JObj "(string \<times> json) list"

definition hexDigit :: "nat \<Rightarrow> char" where
  "hexDigit d = (if d < 10 then char_of (48 + d) else char_of (87 + d))"

definition escChar :: "char \<Rightarrow> string" where
  "escChar c =
     (let n = of_char c :: nat in
      if c = CHR 0x22 then [CHR 0x5C, CHR 0x22]
      else if c = CHR 0x5C then [CHR 0x5C, CHR 0x5C]
      else if c = CHR 8 then [CHR 0x5C, CHR ''b'']
      else if c = CHR 12 then [CHR 0x5C, CHR ''f'']
      else if c = CHR 10 then [CHR 0x5C, CHR ''n'']
      else if c = CHR 13 then [CHR 0x5C, CHR ''r'']
      else if c = CHR 9 then [CHR 0x5C, CHR ''t'']
      else if n < 0x20 \<or> c = CHR ''<'' \<or> c = CHR ''>'' \<or> c = CHR ''&''
        then [CHR 0x5C, CHR ''u'', CHR ''0'', CHR ''0'', hexDigit (n div 16), hexDigit (n mod 16)]
      else [c])"

text \<open>The line separators U+2028 and U+2029 are escaped although they are valid in JSON.\<close>

definition isSeparator :: "string \<Rightarrow> bool" where
  "isSeparator s \<longleftrightarrow> take 3 s = [CHR 0xE2, CHR 0x80, CHR 0xA8] \<or> take 3 s = [CHR 0xE2, CHR 0x80, CHR 0xA9]"

function escStr :: "string \<Rightarrow> string" where
  "escStr [] = []"
| "escStr (c # cs) =
     (if isSeparator (c # cs)
      then [CHR 0x5C, CHR ''u'', CHR ''2'', CHR ''0'', CHR ''2'', (if cs ! 1 = CHR 0xA8 then CHR ''8'' else CHR ''9'')]
             @ escStr (drop 2 cs)
      else escChar c @ escStr cs)"
  by pat_completeness auto
termination by (relation "measure length") auto

definition printStr :: "string \<Rightarrow> string" where
  "printStr s = [CHR 0x22] @ escStr s @ [CHR 0x22]"

fun printJson :: "json \<Rightarrow> string" where
  "printJson JNull = ''null''"
| "printJson (JBool b) = (if b then ''true'' else ''false'')"
| "printJson (JNum n) = n"
| "printJson (JStr s) = printStr s"
| "printJson (JArr xs) = ''['' @ joinStr '','' (map printJson xs) @ '']''"
| "printJson (JObj ps) =
     ''{'' @ joinStr '','' (map (\<lambda>p. printStr (fst p) @ '':'' @ printJson (snd p)) ps) @ ''}''"

definition hexVal :: "char \<Rightarrow> nat option" where
  "hexVal c =
     (let n = of_char c :: nat in
      if 48 \<le> n \<and> n \<le> 57 then Some (n - 48)
      else if 97 \<le> n \<and> n \<le> 102 then Some (n - 87)
      else if 65 \<le> n \<and> n \<le> 70 then Some (n - 55)
      else None)"

fun hex4 :: "string \<Rightarrow> (nat \<times> string) option" where
  "hex4 (a # b # c # d # r) =
     (case (hexVal a, hexVal b, hexVal c, hexVal d) of
        (Some w, Some x, Some y, Some z) \<Rightarrow> Some (((w * 16 + x) * 16 + y) * 16 + z, r)
      | _ \<Rightarrow> None)"
| "hex4 _ = None"

text \<open>UTF-8 encoding of a code point.\<close>

definition utf8 :: "nat \<Rightarrow> string" where
  "utf8 u =
     (if u < 0x80 then [char_of u]
      else if u < 0x800 then [char_of (0xC0 + u div 64), char_of (0x80 + u mod 64)]
      else if u < 0x10000
        then [char_of (0xE0 + u div 4096), char_of (0x80 + u div 64 mod 64), char_of (0x80 + u mod 64)]
      else [char_of (0xF0 + u div 262144), char_of (0x80 + u div 4096 mod 64),
            char_of (0x80 + u div 64 mod 64), char_of (0x80 + u mod 64)])"

text \<open>
  A \<open>\u\<close> escape after its four digits: a high surrogate must be followed by the escape of a low one,
  any other surrogate becomes U+FFFD.
\<close>

definition unicodeEscape :: "nat \<Rightarrow> string \<Rightarrow> string \<times> string" where
  "unicodeEscape u r =
     (if 0xD800 \<le> u \<and> u < 0xE000 then
        (case (if u < 0xDC00 \<and> take 2 r = [CHR 0x5C, CHR ''u''] then hex4 (drop 2 r) else None) of
           Some (v, r') \<Rightarrow>
             if 0xDC00 \<le> v \<and> v < 0xE000
             then (utf8 ((u - 0xD800) * 1024 + (v - 0xDC00) + 0x10000), r')
             else (utf8 0xFFFD, r)
         | None \<Rightarrow> (utf8 0xFFFD, r))
      else (utf8 u, r))"

lemma hex4_length: "hex4 s = Some (n, r) \<Longrightarrow> length r < length s"
  by (induction s rule: hex4.induct) (auto split: option.splits)

lemma unicodeEscape_length: "length (snd (unicodeEscape u r)) \<le> length r"
  using hex4_length by (fastforce simp: unicodeEscape_def split: option.splits)

text \<open>The contents of a string literal after the opening quote.\<close>

function unescStr :: "string \<Rightarrow> (string \<times> string) option" where
  "unescStr [] = None"
| "unescStr (c # s) =
     (if c = CHR 0x22 then Some ([], s)
      else if (of_char c :: nat) < 0x20 then None
      else if c \<noteq> CHR 0x5C then map_option (\<lambda>(t, r). (c # t, r)) (unescStr s)
      else case s of
        [] \<Rightarrow> None
      | e # s' \<Rightarrow>
          if e = CHR ''u'' then
            (case hex4 s' of
               None \<Rightarrow> None
             | Some (u, r) \<Rightarrow>
                 map_option (\<lambda>(t, r'). (fst (unicodeEscape u r) @ t, r')) (unescStr (snd (unicodeEscape u r))))
          else
            (case map_of [(CHR 0x22, CHR 0x22), (CHR 0x5C, CHR 0x5C), (CHR ''/'', CHR ''/''), (CHR ''b'', CHR 8),
                (CHR ''f'', CHR 12), (CHR ''n'', CHR 10), (CHR ''r'', CHR 13), (CHR ''t'', CHR 9)] e of
               None \<Rightarrow> None
             | Some d \<Rightarrow> map_option (\<lambda>(t, r). (d # t, r)) (unescStr s')))"
  by pat_completeness auto
termination
  by (relation "measure length")
    (auto dest!: hex4_length intro: le_less_trans [OF unicodeEscape_length] less_SucI)

definition isDigit :: "char \<Rightarrow> bool" where
  "isDigit c = (CHR ''0'' \<le> c \<and> c \<le> CHR ''9'')"

definition isSpace :: "char \<Rightarrow> bool" where
  "isSpace c = (c = CHR '' '' \<or> c = CHR 9 \<or> c = CHR 10 \<or> c = CHR 13)"

definition skipWs :: "string \<Rightarrow> string" where
  "skipWs = dropWhile isSpace"

definition takeDigits :: "string \<Rightarrow> string \<times> string" where
  "takeDigits s = (takeWhile isDigit s, dropWhile isDigit s)"

text \<open>A number literal: sign, integer part without leading zeros, fraction, exponent.\<close>

definition scanFrac :: "string \<Rightarrow> (string \<times> string) option" where
  "scanFrac s =
     (if s \<noteq> [] \<and> hd s = CHR ''.'' then
        (case takeDigits (tl s) of (d, r) \<Rightarrow> if d = [] then None else Some (CHR ''.'' # d, r))
      else Some ([], s))"

definition scanExp :: "string \<Rightarrow> (string \<times> string) option" where
  "scanExp s =
     (if s \<noteq> [] \<and> (hd s = CHR ''e'' \<or> hd s = CHR ''E'') then
        (let sg = (if tl s \<noteq> [] \<and> (hd (tl s) = CHR ''+'' \<or> hd (tl s) = CHR ''-'') then [hd (tl s)] else []) in
         case takeDigits (drop (length sg) (tl s)) of
           (d, r) \<Rightarrow> if d = [] then None else Some (hd s # sg @ d, r))
      else Some ([], s))"

definition scanInt :: "string \<Rightarrow> string \<times> string" where
  "scanInt s = (if s \<noteq> [] \<and> hd s = CHR ''0'' then ([CHR ''0''], tl s) else takeDigits s)"

definition scanNum :: "string \<Rightarrow> (string \<times> string) option" where
  "scanNum s =
     (let neg = (s \<noteq> [] \<and> hd s = CHR ''-'') in
      case scanInt (if neg then tl s else s) of
        (ints, s2) \<Rightarrow>
          if ints = [] then None
          else case scanFrac s2 of
            None \<Rightarrow> None
          | Some (frac, s3) \<Rightarrow>
              map_option (\<lambda>(ex, s4). ((if neg then ''-'' else []) @ ints @ frac @ ex, s4)) (scanExp s3))"

definition scanWord :: "string \<Rightarrow> 'a \<Rightarrow> string \<Rightarrow> ('a \<times> string) option" where
  "scanWord w v s = (if hasPrefix s w then Some (v, drop (length w) s) else None)"

text \<open>The value parser; the fuel bounds the number of nested calls and is the input's length.\<close>

fun parseVal :: "nat \<Rightarrow> string \<Rightarrow> (json \<times> string) option"
and parseElems :: "nat \<Rightarrow> string \<Rightarrow> (json list \<times> string) option"
and parseMembers :: "nat \<Rightarrow> string \<Rightarrow> ((string \<times> json) list \<times> string) option"
where
  "parseVal 0 s = None"
| "parseVal (Suc n) s =
     (case skipWs s of
        [] \<Rightarrow> None
      | c # r \<Rightarrow>
          if c = CHR 0x22 then map_option (\<lambda>(t, r'). (JStr t, r')) (unescStr r)
          else if c = CHR ''['' then
            (if hasPrefix (skipWs r) '']'' then Some (JArr [], tl (skipWs r))
             else map_option (\<lambda>(xs, r'). (JArr xs, r')) (parseElems n r))
          else if c = CHR ''{'' then
            (if hasPrefix (skipWs r) ''}'' then Some (JObj [], tl (skipWs r))
             else map_option (\<lambda>(ps, r'). (JObj ps, r')) (parseMembers n r))
          else if c = CHR ''n'' then scanWord ''null'' JNull (c # r)
          else if c = CHR ''t'' then scanWord ''true'' (JBool True) (c # r)
          else if c = CHR ''f'' then scanWord ''false'' (JBool False) (c # r)
          else map_option (\<lambda>(t, r'). (JNum t, r')) (scanNum (c # r)))"
| "parseElems 0 s = None"
| "parseElems (Suc n) s =
     (case parseVal n s of
        None \<Rightarrow> None
      | Some (v, r) \<Rightarrow>
          (case skipWs r of
             [] \<Rightarrow> None
           | c # r' \<Rightarrow>
               if c = CHR '']'' then Some ([v], r')
               else if c = CHR '','' then map_option (\<lambda>(vs, r''). (v # vs, r'')) (parseElems n r')
               else None))"
| "parseMembers 0 s = None"
| "parseMembers (Suc n) s =
     (case skipWs s of
        [] \<Rightarrow> None
      | q # r0 \<Rightarrow>
          if q \<noteq> CHR 0x22 then None
          else case unescStr r0 of
            None \<Rightarrow> None
          | Some (k, r1) \<Rightarrow>
              if \<not> hasPrefix (skipWs r1) '':'' then None
              else case parseVal n (tl (skipWs r1)) of
                None \<Rightarrow> None
              | Some (v, r) \<Rightarrow>
                  (case skipWs r of
                     [] \<Rightarrow> None
                   | c # r' \<Rightarrow>
                       if c = CHR ''}'' then Some ([(k, v)], r')
                       else if c = CHR '','' then map_option (\<lambda>(ps, r''). ((k, v) # ps, r'')) (parseMembers n r')
                       else None))"

definition parseJson :: "string \<Rightarrow> json option" where
  "parseJson s =
     (case parseVal (2 * length s + 2) s of
        None \<Rightarrow> None
      | Some (v, r) \<Rightarrow> if skipWs r = [] then Some v else None)"


text \<open>
  Decoding into Go types as \<open>json.Unmarshal\<close> does it for a fresh target: \<open>null\<close> leaves the zero value,
  any other value of the wrong kind is an error.
\<close>

definition decodeString :: "json \<Rightarrow> string option" where
  "decodeString j = (case j of JNull \<Rightarrow> Some [] | JStr s \<Rightarrow> Some s | _ \<Rightarrow> None)"

definition decodeInt64 :: "json \<Rightarrow> int64 option" where
  "decodeInt64 j = (case j of JNull \<Rightarrow> Some 0 | JNum n \<Rightarrow> parseInt n | _ \<Rightarrow> None)"

definition decodeList :: "(json \<Rightarrow> 'a option) \<Rightarrow> json \<Rightarrow> 'a list option" where
  "decodeList d j =
     (case j of JNull \<Rightarrow> Some [] | JArr xs \<Rightarrow> those (map d xs) | _ \<Rightarrow> None)"

definition encodeStrings :: "string list \<Rightarrow> json" where
  "encodeStrings xs = JArr (map JStr xs)"

text \<open>Statement vocabulary: the values whose numbers are integers.\<close>

fun intJson :: "json \<Rightarrow> bool" where
  "intJson (JNum n) \<longleftrightarrow> (\<exists>k. n = formatInt k)"
| "intJson (JArr xs) \<longleftrightarrow> (\<forall>x \<in> set xs. intJson x)"
| "intJson (JObj ps) \<longleftrightarrow> (\<forall>p \<in> set ps. intJson (snd p))"
| "intJson _ \<longleftrightarrow> True"


section \<open>Round trip of strings\<close>

lemma hexVal_hexDigit: "d < 16 \<Longrightarrow> hexVal (hexDigit d) = Some d"
  by (auto simp: hexVal_def hexDigit_def Let_def)

lemma unescStr_u:
  assumes "n < 0x80"
  shows "unescStr (CHR 0x5C # CHR ''u'' # CHR ''0'' # CHR ''0'' # hexDigit (n div 16) # hexDigit (n mod 16) # s) =
     map_option (\<lambda>(t, r). (char_of n # t, r)) (unescStr s)"
proof -
  have "hexVal (hexDigit (n div 16)) = Some (n div 16)" "hexVal (hexDigit (n mod 16)) = Some (n mod 16)"
    using assms by (auto intro!: hexVal_hexDigit)
  moreover have "hexVal CHR ''0'' = Some 0" by (simp add: hexVal_def)
  ultimately have "hex4 (CHR ''0'' # CHR ''0'' # hexDigit (n div 16) # hexDigit (n mod 16) # s) = Some (n, s)"
    by simp
  then show ?thesis using assms by (simp add: unicodeEscape_def utf8_def)
qed

lemma unescStr_escChar:
  "unescStr (escChar c @ s) = map_option (\<lambda>(t, r). (c # t, r)) (unescStr s)"
proof -
  let ?n = "of_char c :: nat"
  define special where "special \<longleftrightarrow> c \<in> {CHR 0x22, CHR 0x5C, CHR 8, CHR 12, CHR 10, CHR 13, CHR 9}"
  define hex where "hex \<longleftrightarrow> ?n < 0x20 \<or> c = CHR ''<'' \<or> c = CHR ''>'' \<or> c = CHR ''&''"
  consider special | "\<not> special" hex | "\<not> special" "\<not> hex" by blast
  then show ?thesis
  proof cases
    case 1
    then show ?thesis unfolding special_def by (elim insertE emptyE) (simp_all add: escChar_def)
  next
    case 2
    then have e: "escChar c = [CHR 0x5C, CHR ''u'', CHR ''0'', CHR ''0'', hexDigit (?n div 16), hexDigit (?n mod 16)]"
      by (auto simp: escChar_def Let_def special_def hex_def)
    have "?n < 0x80" using 2(2) by (auto simp: hex_def)
    from unescStr_u [OF this, of s] show ?thesis unfolding e by simp
  next
    case 3
    then show ?thesis by (simp add: escChar_def Let_def special_def hex_def)
  qed
qed

lemma utf8_separator: "utf8 0x2028 = [CHR 0xE2, CHR 0x80, CHR 0xA8]" "utf8 0x2029 = [CHR 0xE2, CHR 0x80, CHR 0xA9]"
  by (simp_all add: utf8_def char_of_def bit_0)

lemma unescStr_escStr: "unescStr (escStr s @ CHR 0x22 # r) = Some (s, r)"
proof (induction s rule: escStr.induct)
  case (2 c cs)
  show ?case
  proof (cases "isSeparator (c # cs)")
    case True
    define x where "x = (if cs ! 1 = CHR 0xA8 then CHR ''8'' else CHR ''9'')"
    define y where "y = (if cs ! 1 = CHR 0xA8 then CHR 0xA8 else CHR 0xA9)"
    obtain cs' where cs: "c # cs = CHR 0xE2 # CHR 0x80 # y # cs'"
      using True by (cases cs; cases "tl cs") (auto simp: isSeparator_def y_def)
    have "hex4 (CHR ''2'' # CHR ''0'' # CHR ''2'' # x # t) = Some ((if x = CHR ''8'' then 0x2028 else 0x2029), t)" for t
      by (auto simp: hexVal_def x_def)
    then have "unescStr (CHR 0x5C # CHR ''u'' # CHR ''2'' # CHR ''0'' # CHR ''2'' # x # t) =
        map_option (\<lambda>(u, r). (CHR 0xE2 # CHR 0x80 # y # u, r)) (unescStr t)" for t
      using utf8_separator by (auto simp: unicodeEscape_def x_def y_def)
    moreover have "escStr (c # cs) = [CHR 0x5C, CHR ''u'', CHR ''2'', CHR ''0'', CHR ''2'', x] @ escStr cs'"
      using True cs by (simp add: x_def)
    moreover have "unescStr (escStr cs' @ CHR 0x22 # r) = Some (cs', r)" using 2(1) [OF True] cs by simp
    ultimately show ?thesis using cs by (simp del: unescStr.simps hex4.simps escStr.simps)
  next
    case False
    then show ?thesis using 2(2) by (simp add: unescStr_escChar)
  qed
qed simp


section \<open>Round trip of values\<close>

definition stops :: "string \<Rightarrow> bool" where
  "stops r \<longleftrightarrow> r = [] \<or> hd r \<in> {CHR '','', CHR '']'', CHR ''}''}"

lemma isDigit_digit: "0 \<le> d \<Longrightarrow> d < 10 \<Longrightarrow> isDigit (digit d)"
proof -
  assume "0 \<le> d" "d < 10"
  then have "d = 0 \<or> d = 1 \<or> d = 2 \<or> d = 3 \<or> d = 4 \<or> d = 5 \<or> d = 6 \<or> d = 7 \<or> d = 8 \<or> d = 9" by presburger
  then show ?thesis by (elim disjE) (simp_all add: isDigit_def digit_def less_eq_char_def)
qed

lemma digitsOf_digits: "0 \<le> n \<Longrightarrow> list_all isDigit (digitsOf n)"
proof (induction n rule: digitsOf.induct)
  case (1 n)
  then show ?case by (subst digitsOf.simps) (auto simp: isDigit_digit)
qed

lemma digitsOf_zero: "0 < n \<Longrightarrow> hd (digitsOf n) \<noteq> CHR ''0''"
proof (induction n rule: digitsOf.induct)
  case (1 n)
  show ?case
  proof (cases "n < 10")
    case True
    then show ?thesis using 1 digitVal_digit [of n]
      by (subst digitsOf.simps) (auto simp: digitVal_def Let_def)
  next
    case False
    then show ?thesis using 1 digitsOf_hd [of "n div 10"] by (subst digitsOf.simps) (simp add: hd_append)
  qed
qed

lemma stops_hd: "stops r \<Longrightarrow> r \<noteq> [] \<Longrightarrow>
   \<not> isDigit (hd r) \<and> \<not> isSpace (hd r) \<and> hd r \<notin> {CHR ''.'', CHR ''e'', CHR ''E''}"
  by (auto simp: stops_def isDigit_def isSpace_def less_eq_char_def)

lemma takeDigits_append: "list_all isDigit ds \<Longrightarrow> stops r \<Longrightarrow> takeDigits (ds @ r) = (ds, r)"
  using stops_hd [of r] by (cases r) (auto simp: takeDigits_def list_all_iff takeWhile_append2 dropWhile_append2)

lemma scanInt_digits:
  assumes "0 \<le> n" "stops r"
  shows "scanInt (digitsOf n @ r) = (digitsOf n, r)"
proof (cases "n = 0")
  case True
  then have "digitsOf n = ''0''" by (subst digitsOf.simps) (simp add: digit_def char_of_def bit_0)
  then show ?thesis by (simp add: scanInt_def)
next
  case False
  then show ?thesis
    using assms digitsOf_zero [of n] digitsOf_hd [of n] takeDigits_append [OF digitsOf_digits]
    by (simp add: scanInt_def)
qed

lemma scanNum_formatInt:
  assumes "stops r"
  shows "scanNum (formatInt k @ r) = Some (formatInt k, r)"
proof -
  have "scanFrac r = Some ([], r)" "scanExp r = Some ([], r)"
    using stops_hd [OF assms] by (auto simp: scanFrac_def scanExp_def)
  then show ?thesis
    using scanInt_digits [OF _ assms, of k] scanInt_digits [OF _ assms, of "- k"] digitsOf_hd [of k] digitsOf_hd [of "- k"]
    by (simp add: scanNum_def formatInt_def Let_def)
qed

lemma skipWs_id: "\<not> isSpace c \<Longrightarrow> skipWs (c # s) = c # s"
  by (simp add: skipWs_def)

lemma formatInt_hd: "\<not> isSpace (hd (formatInt k)) \<and> formatInt k \<noteq> [] \<and>
    (hd (formatInt k) = CHR ''-'' \<or> isDigit (hd (formatInt k)))"
proof (cases "k < 0")
  case True
  then show ?thesis by (simp add: formatInt_def isSpace_def)
next
  case False
  then have "digitsOf k \<noteq> []" "isDigit (hd (digitsOf k))"
    using digitsOf_hd [of k] digitsOf_digits [of k] by (auto simp: list_all_iff)
  then show ?thesis using False by (auto simp: formatInt_def isSpace_def isDigit_def less_eq_char_def)
qed

lemma printJson_hd:
  assumes "intJson j"
  shows "printJson j \<noteq> [] \<and> \<not> isSpace (hd (printJson j)) \<and> hd (printJson j) \<notin> {CHR '']'', CHR ''}''}"
  using assms
proof (cases j)
  case (JNum n)
  then obtain k where "n = formatInt k" using assms by auto
  then show ?thesis using formatInt_hd [of k] JNum by (auto simp: isDigit_def less_eq_char_def)
qed (auto simp: isSpace_def printStr_def)

text \<open>A parser call on printed output, whatever follows it.\<close>

definition reads :: "json \<Rightarrow> nat \<Rightarrow> bool" where
  "reads j n \<longleftrightarrow> (\<forall>m r. n \<le> m \<longrightarrow> stops r \<longrightarrow> parseVal m (printJson j @ r) = Some (j, r))"

lemma stops_simps [simp]: "stops []" "stops (CHR '','' # r)" "stops (CHR '']'' # r)" "stops (CHR ''}'' # r)"
  by (simp_all add: stops_def)

lemma parseElems_print:
  assumes "\<forall>x \<in> set xs. reads x n" "xs \<noteq> []" "n + length xs \<le> m"
  shows "parseElems m (joinStr '','' (map printJson xs) @ CHR '']'' # r) = Some (xs, r)"
  using assms
proof (induction xs arbitrary: m)
  case (Cons x xs)
  obtain m' where m: "m = Suc m'" using Cons.prems(3) by (cases m) auto
  have x: "parseVal m' (printJson x @ t) = Some (x, t)" if "stops t" for t
    using Cons.prems m that by (simp add: reads_def)
  show ?case
  proof (cases "xs = []")
    case True
    then show ?thesis using x [of "CHR '']'' # r"] by (simp add: m skipWs_def isSpace_def)
  next
    case False
    then obtain y ys where xs: "xs = y # ys" by (cases xs) auto
    have "parseElems m' (joinStr '','' (map printJson xs) @ CHR '']'' # r) = Some (xs, r)"
      using Cons False m by simp
    then show ?thesis using x [of "CHR '','' # joinStr '','' (map printJson xs) @ CHR '']'' # r"]
      by (simp add: m xs skipWs_def isSpace_def)
  qed
qed simp

lemma parseMembers_print:
  assumes "\<forall>p \<in> set ps. reads (snd p) n" "ps \<noteq> []" "n + length ps \<le> m"
  shows "parseMembers m (joinStr '','' (map (\<lambda>p. printStr (fst p) @ '':'' @ printJson (snd p)) ps) @ CHR ''}'' # r) =
     Some (ps, r)"
  using assms
proof (induction ps arbitrary: m)
  case (Cons p ps)
  obtain m' where m: "m = Suc m'" using Cons.prems(3) by (cases m) auto
  have x: "parseVal m' (printJson (snd p) @ t) = Some (snd p, t)" if "stops t" for t
    using Cons.prems m that by (simp add: reads_def)
  have k: "unescStr (escStr (fst p) @ CHR 0x22 # t) = Some (fst p, t)" for t by (rule unescStr_escStr)
  note ws = skipWs_def isSpace_def hasPrefix_def printStr_def
  show ?case
  proof (cases "ps = []")
    case True
    then show ?thesis using x [of "CHR ''}'' # r"] by (simp add: m ws k del: unescStr.simps)
  next
    case False
    define rest where "rest = joinStr '','' (map (\<lambda>p. printStr (fst p) @ '':'' @ printJson (snd p)) ps) @ CHR ''}'' # r"
    obtain q qs where ps: "ps = q # qs" using False by (cases ps) auto
    have "joinStr '','' (map (\<lambda>p. printStr (fst p) @ '':'' @ printJson (snd p)) (p # ps)) @ CHR ''}'' # r =
        CHR 0x22 # escStr (fst p) @ CHR 0x22 # CHR '':'' # printJson (snd p) @ CHR '','' # rest"
      by (simp add: ps rest_def printStr_def)
    moreover have "parseMembers m' rest = Some (ps, r)" using Cons False m by (simp add: rest_def)
    ultimately show ?thesis using x [of "CHR '','' # rest"] by (simp add: m ws k del: unescStr.simps)
  qed
qed simp

text \<open>Fuel that is enough for a value: at most twice the length of its text.\<close>

lemma joinStr_length: "length (joinStr '','' (map f xs)) + 1 \<ge> length xs + sum_list (map (length \<circ> f) xs) \<or> xs = []"
proof (induction xs)
  case (Cons x xs)
  then show ?case by (cases xs) auto
qed simp

lemma element_length:
  assumes "x \<in> set xs" "\<forall>y \<in> set xs. f y \<noteq> []"
  shows "length (f x) + length xs \<le> length (joinStr '','' (map f xs)) + 1"
proof -
  have "length (f x) \<le> sum_list (map (length \<circ> f) xs)"
    using assms(1) by (auto intro!: member_le_sum_list)
  then show ?thesis using joinStr_length [where f = f and xs = xs] assms(1) by auto
qed

lemma reads_mono: "reads j n \<Longrightarrow> n \<le> n' \<Longrightarrow> reads j n'"
  by (auto simp: reads_def)

lemma printJson_reads: "intJson j \<Longrightarrow> reads j (2 * length (printJson j))"
proof (induction j)
  case JNull
  show ?case unfolding reads_def
  proof (intro allI impI)
    fix m r assume "2 * length (printJson JNull) \<le> m"
    then obtain m' where "m = Suc m'" by (cases m) auto
    then show "parseVal m (printJson JNull @ r) = Some (JNull, r)"
      by (simp add: skipWs_def isSpace_def scanWord_def hasPrefix_def)
  qed
next
  case (JBool b)
  show ?case unfolding reads_def
  proof (intro allI impI)
    fix m r assume "2 * length (printJson (JBool b)) \<le> m"
    then obtain m' where "m = Suc m'" by (cases m) (auto split: if_splits)
    then show "parseVal m (printJson (JBool b) @ r) = Some (JBool b, r)"
      by (simp add: skipWs_def isSpace_def scanWord_def hasPrefix_def)
  qed
next
  case (JNum t)
  then obtain k where t: "t = formatInt k" by auto
  show ?case unfolding reads_def
  proof (intro allI impI)
    fix m r assume m: "2 * length (printJson (JNum t)) \<le> m" and r: "stops r"
    obtain c cs where c: "formatInt k = c # cs" using formatInt_hd [of k] by (cases "formatInt k") auto
    have "\<not> isSpace c" "c = CHR ''-'' \<or> isDigit c" using formatInt_hd [of k] c by auto
    moreover have "c \<noteq> CHR 0x22 \<and> c \<noteq> CHR ''['' \<and> c \<noteq> CHR ''{'' \<and> c \<noteq> CHR ''n'' \<and> c \<noteq> CHR ''t'' \<and> c \<noteq> CHR ''f''"
      using calculation(2) by (auto simp: isDigit_def less_eq_char_def)
    moreover obtain m' where "m = Suc m'" using m t c by (cases m) auto
    ultimately show "parseVal m (printJson (JNum t) @ r) = Some (JNum t, r)"
      using scanNum_formatInt [OF r, of k] by (simp add: t c skipWs_id)
  qed
next
  case (JStr t)
  show ?case unfolding reads_def
  proof (intro allI impI)
    fix m r assume "2 * length (printJson (JStr t)) \<le> m"
    then obtain m' where "m = Suc m'" by (cases m) (auto simp: printStr_def)
    then show "parseVal m (printJson (JStr t) @ r) = Some (JStr t, r)"
      by (simp add: printStr_def skipWs_def isSpace_def unescStr_escStr del: unescStr.simps)
  qed
next
  case (JArr xs)
  define body where "body = joinStr '','' (map printJson xs)"
  have ne: "\<forall>y \<in> set xs. printJson y \<noteq> []" using JArr.prems printJson_hd by auto
  show ?case unfolding reads_def
  proof (intro allI impI)
    fix m r assume m: "2 * length (printJson (JArr xs)) \<le> m"
    obtain m' where m': "m = Suc m'" using m by (cases m) auto
    show "parseVal m (printJson (JArr xs) @ r) = Some (JArr xs, r)"
    proof (cases "xs = []")
      case True
      then show ?thesis by (simp add: m' skipWs_def isSpace_def hasPrefix_def)
    next
      case False
      then obtain y ys where xs: "xs = y # ys" by (cases xs) auto
      obtain c cs where c: "body = c # cs" "\<not> isSpace c" "c \<noteq> CHR '']''"
        using printJson_hd [of y] JArr.prems by (cases "printJson y"; cases ys) (auto simp: body_def xs)
      have "reads x (2 * (length body + 1 - length xs))" if "x \<in> set xs" for x
        using JArr that element_length [OF that ne] by (intro reads_mono [OF JArr.IH]) (auto simp: body_def)
      moreover have "length xs \<le> length body + 1" using element_length [OF _ ne, of y] xs by (auto simp: body_def)
      ultimately have "parseElems m' (body @ CHR '']'' # r) = Some (xs, r)"
        using parseElems_print [of xs "2 * (length body + 1 - length xs)" m' r] False m m' xs
        by (auto simp: body_def)
      then show ?thesis using c by (simp add: m' body_def [symmetric] skipWs_def isSpace_def hasPrefix_def)
    qed
  qed
next
  case (JObj ps)
  let ?f = "\<lambda>p. printStr (fst p) @ '':'' @ printJson (snd p)"
  define body where "body = joinStr '','' (map ?f ps)"
  have ne: "\<forall>y \<in> set ps. ?f y \<noteq> []" by simp
  show ?case unfolding reads_def
  proof (intro allI impI)
    fix m r assume m: "2 * length (printJson (JObj ps)) \<le> m"
    obtain m' where m': "m = Suc m'" using m by (cases m) auto
    show "parseVal m (printJson (JObj ps) @ r) = Some (JObj ps, r)"
    proof (cases "ps = []")
      case True
      then show ?thesis by (simp add: m' skipWs_def isSpace_def hasPrefix_def)
    next
      case False
      then obtain y ys where ps: "ps = y # ys" by (cases ps) auto
      obtain cs where c: "body = CHR 0x22 # cs" by (cases ys) (auto simp: body_def ps printStr_def)
      have "reads (snd p) (2 * (length body + 1 - length ps))" if "p \<in> set ps" for p
      proof (rule reads_mono)
        show "reads (snd p) (2 * length (printJson (snd p)))"
          using that JObj.prems by (intro JObj.IH [of p "snd p"]) (auto simp: prod_set_simps snds.simps)
        show "2 * length (printJson (snd p)) \<le> 2 * (length body + 1 - length ps)"
          using element_length [OF that ne] by (simp add: body_def)
      qed
      moreover have "length ps \<le> length body + 1" using element_length [OF _ ne, of y] ps by (auto simp: body_def)
      ultimately have "parseMembers m' (body @ CHR ''}'' # r) = Some (ps, r)"
        using parseMembers_print [of ps "2 * (length body + 1 - length ps)" m' r] False m m' ps
        by (auto simp: body_def)
      moreover have "printJson (JObj ps) @ r = CHR ''{'' # body @ CHR ''}'' # r" by (simp add: body_def)
      ultimately show ?thesis using c by (simp add: m' skipWs_def isSpace_def hasPrefix_def del: printJson.simps)
    qed
  qed
qed


lemma parseJson_printJson:
  assumes "intJson j"
  shows "parseJson (printJson j) = Some j"
proof -
  have "parseVal (2 * length (printJson j) + 2) (printJson j @ []) = Some (j, [])"
    using printJson_reads [OF assms] unfolding reads_def by (simp only: stops_simps)
  then show ?thesis by (simp add: parseJson_def skipWs_def)
qed


section \<open>Typed values\<close>

lemma those_map_Some: "(\<And>x. x \<in> set xs \<Longrightarrow> d (e x) = Some (g x)) \<Longrightarrow> those (map d (map e xs)) = Some (map g xs)"
  by (induction xs) auto

lemma decode_encodeStrings: "decodeList decodeString (encodeStrings xs) = Some xs"
  using those_map_Some [of xs decodeString JStr id]
  by (simp add: decodeList_def encodeStrings_def decodeString_def)

end
