(* ===== verification/Object_Meta.thy ===== *)
theory Object_Meta
  imports Json
begin

text \<open>
  Helpers on object metadata: \<open>pkg/util/annotation\<close>, \<open>finalizers\<close>, \<open>managedlabel\<close>, \<open>orphaning\<close>,
  \<open>cascadingdeletion\<close>, \<open>adoption\<close> and \<open>meta\<close>.  An operation on an object returns the object as it is
  left together with the Go results; a nil object is \<open>None\<close>.  A nil map and an empty map behave alike
  in everything modelled here.  Regular expressions are a parameter.
\<close>


section \<open>Model\<close>

definition DefaultPrefix :: string where
  "DefaultPrefix = ''kubeadmiral.io/''"

definition InternalPrefix :: string where
  "InternalPrefix = ''internal.kubeadmiral.io/''"

definition AnnotationValueTrue :: string where
  "AnnotationValueTrue = ''true''"

record ObjectMeta =
  MName :: string
  MNamespace :: string
  MLabels :: "(string, string) gomap"
  MAnnotations :: "(string, string) gomap"
  MFinalizers :: "string list"

subsection \<open>Annotations\<close>

definition nilPointer :: string where
  "nilPointer = ''object is nil pointer''"

definition HasAnnotationKey :: "'a ObjectMeta_scheme option \<Rightarrow> string \<Rightarrow> string + bool" where
  "HasAnnotationKey obj key =
     (case obj of None \<Rightarrow> Inl nilPointer | Some m \<Rightarrow> Inr (map_of (MAnnotations m) key \<noteq> None))"

definition HasAnnotationKeyValue :: "'a ObjectMeta_scheme option \<Rightarrow> string \<Rightarrow> string \<Rightarrow> string + bool" where
  "HasAnnotationKeyValue obj key val =
     (case obj of None \<Rightarrow> Inl nilPointer | Some m \<Rightarrow> Inr (map_of (MAnnotations m) key = Some val))"

definition AddAnnotation ::
    "'a ObjectMeta_scheme option \<Rightarrow> string \<Rightarrow> string \<Rightarrow> 'a ObjectMeta_scheme option \<times> (string + bool)" where
  "AddAnnotation obj key val =
     (case obj of
        None \<Rightarrow> (obj, Inl nilPointer)
      | Some m \<Rightarrow>
          if key = [] then (obj, Inl ''key is a empty string.'')
          else case HasAnnotationKeyValue obj key val of
            Inl err \<Rightarrow> (obj, Inl err)
          | Inr has \<Rightarrow>
              if has then (obj, Inr False)
              else (Some (m\<lparr>MAnnotations := mput key val (MAnnotations m)\<rparr>), Inr True))"

definition RemoveAnnotation ::
    "'a ObjectMeta_scheme option \<Rightarrow> string \<Rightarrow> 'a ObjectMeta_scheme option \<times> (string + bool)" where
  "RemoveAnnotation obj key =
     (case obj of
        None \<Rightarrow> (obj, Inl nilPointer)
      | Some m \<Rightarrow>
          (case HasAnnotationKey obj key of
             Inl err \<Rightarrow> (obj, Inl err)
           | Inr has \<Rightarrow>
               if \<not> has then (obj, Inr False)
               else (Some (m\<lparr>MAnnotations := mdel key (MAnnotations m)\<rparr>), Inr True)))"

text \<open>
  \<open>CopySubmap\<close>: the closure \<open>iteration\<close>, then its loops over both maps.  Go may or may not visit an
  entry that is added during the second loop; it is then unchanged.
\<close>

definition submapStep ::
    "(string, string) gomap \<Rightarrow> string \<Rightarrow> (string, string) gomap \<times> nat \<Rightarrow> (string, string) gomap \<times> nat" where
  "submapStep src key = (\<lambda>(dest, numChanges).
     case map_of src key of
       Some srcValue \<Rightarrow>
         if map_of dest key \<noteq> Some srcValue then (mput key srcValue dest, numChanges + 1)
         else (dest, numChanges)
     | None \<Rightarrow>
         if map_of dest key \<noteq> None then (mdel key dest, numChanges + 1) else (dest, numChanges))"

definition CopySubmap ::
    "(string, string) gomap \<Rightarrow> (string, string) gomap \<Rightarrow> (string \<Rightarrow> bool) \<Rightarrow> (string, string) gomap \<times> nat" where
  "CopySubmap src dest matcher =
     (let (dest1, n1) = fold (submapStep src) (filter matcher (mkeys src)) (dest, 0)
      in fold (submapStep src) (filter matcher (mkeys dest1)) (dest1, n1))"

subsection \<open>Finalizers\<close>

definition HasFinalizer :: "'a ObjectMeta_scheme \<Rightarrow> string \<Rightarrow> bool" where
  "HasFinalizer obj finalizer \<longleftrightarrow> finalizer \<in> set (MFinalizers obj)"

text \<open>\<open>sets.List\<close> returns the elements of a set in increasing order.\<close>

definition AddFinalizers ::
    "'a ObjectMeta_scheme \<Rightarrow> string list \<Rightarrow> 'a ObjectMeta_scheme \<times> bool" where
  "AddFinalizers obj newFinalizers =
     (if set newFinalizers \<subseteq> set (MFinalizers obj) then (obj, False)
      else (obj\<lparr>MFinalizers := sort (remdups (MFinalizers obj @ newFinalizers))\<rparr>, True))"

definition RemoveFinalizers ::
    "'a ObjectMeta_scheme \<Rightarrow> string list \<Rightarrow> 'a ObjectMeta_scheme \<times> bool" where
  "RemoveFinalizers obj finalizers =
     (if set (MFinalizers obj) \<inter> set finalizers = {} then (obj, False)
      else (obj\<lparr>MFinalizers := sort (remdups (filter (\<lambda>f. f \<notin> set finalizers) (MFinalizers obj)))\<rparr>, True))"

subsection \<open>Managed label, adoption, orphaning, cascading deletion\<close>

definition ManagedByKubeAdmiralLabelKey :: string where
  "ManagedByKubeAdmiralLabelKey = DefaultPrefix @ ''managed''"

definition HasManagedLabel :: "'a ObjectMeta_scheme \<Rightarrow> bool" where
  "HasManagedLabel obj \<longleftrightarrow> mget [] (MLabels obj) ManagedByKubeAdmiralLabelKey = ''true''"

definition IsExplicitlyUnmanaged :: "'a ObjectMeta_scheme \<Rightarrow> bool" where
  "IsExplicitlyUnmanaged obj \<longleftrightarrow> mget [] (MLabels obj) ManagedByKubeAdmiralLabelKey = ''false''"

definition AddManagedLabel :: "'a ObjectMeta_scheme \<Rightarrow> 'a ObjectMeta_scheme" where
  "AddManagedLabel obj = obj\<lparr>MLabels := mput ManagedByKubeAdmiralLabelKey ''true'' (MLabels obj)\<rparr>"

definition RemoveManagedLabel :: "'a ObjectMeta_scheme \<Rightarrow> 'a ObjectMeta_scheme" where
  "RemoveManagedLabel obj =
     (if mget [] (MLabels obj) ManagedByKubeAdmiralLabelKey \<noteq> ''true'' then obj
      else obj\<lparr>MLabels := mdel ManagedByKubeAdmiralLabelKey (MLabels obj)\<rparr>)"

definition AdoptedAnnotation :: string where
  "AdoptedAnnotation = DefaultPrefix @ ''adopted''"

definition HasAdoptedAnnotation :: "'a ObjectMeta_scheme \<Rightarrow> bool" where
  "HasAdoptedAnnotation obj \<longleftrightarrow> mget [] (MAnnotations obj) AdoptedAnnotation = AnnotationValueTrue"

definition AddAdoptedAnnotation :: "'a ObjectMeta_scheme \<Rightarrow> 'a ObjectMeta_scheme \<times> bool" where
  "AddAdoptedAnnotation obj =
     (if mget [] (MAnnotations obj) AdoptedAnnotation = AnnotationValueTrue then (obj, False)
      else (obj\<lparr>MAnnotations := mput AdoptedAnnotation AnnotationValueTrue (MAnnotations obj)\<rparr>, True))"

definition RemoveAdoptedAnnotation :: "'a ObjectMeta_scheme \<Rightarrow> 'a ObjectMeta_scheme" where
  "RemoveAdoptedAnnotation obj =
     (if mget [] (MAnnotations obj) AdoptedAnnotation \<noteq> AnnotationValueTrue then obj
      else obj\<lparr>MAnnotations := mdel AdoptedAnnotation (MAnnotations obj)\<rparr>)"

text \<open>An annotation with an internal variant that takes precedence.\<close>

definition internalOr :: "'a ObjectMeta_scheme \<Rightarrow> string \<Rightarrow> string" where
  "internalOr obj name =
     (case map_of (MAnnotations obj) (InternalPrefix @ name) of
        Some v \<Rightarrow> v
      | None \<Rightarrow> mget [] (MAnnotations obj) (DefaultPrefix @ name))"

definition ShouldAdoptPreexistingResources :: "'a ObjectMeta_scheme \<Rightarrow> bool" where
  "ShouldAdoptPreexistingResources obj \<longleftrightarrow> internalOr obj ''conflict-resolution'' = ''adopt''"

text \<open>
  \<open>FilterToAdoptCluster\<close>; \<open>compile\<close> is \<open>regexp.Compile\<close> followed by \<open>MatchString\<close>.  Keys of a JSON object
  match the fields up to ASCII case, a repeated key overwrites, unknown keys are ignored, and \<open>null\<close>
  empties a slice but leaves a string.
\<close>

definition lowerChar :: "char \<Rightarrow> char" where
  "lowerChar c = (if CHR ''A'' \<le> c \<and> c \<le> CHR ''Z'' then char_of (of_char c + (32 :: nat)) else c)"

definition keyIs :: "string \<Rightarrow> string \<Rightarrow> bool" where
  "keyIs field key \<longleftrightarrow> map lowerChar key = map lowerChar field"

fun decodeClustersToAdopt ::
    "(string \<times> json) list \<Rightarrow> string list \<times> string \<Rightarrow> (string list \<times> string) option" where
  "decodeClustersToAdopt [] acc = Some acc"
| "decodeClustersToAdopt ((k, v) # ps) (clusters, re) =
     (if keyIs ''clusters'' k then
        (case decodeList decodeString v of
           None \<Rightarrow> None
         | Some cs \<Rightarrow> decodeClustersToAdopt ps (cs, re))
      else if keyIs ''regexp'' k then
        (case v of
           JNull \<Rightarrow> decodeClustersToAdopt ps (clusters, re)
         | JStr r \<Rightarrow> decodeClustersToAdopt ps (clusters, r)
         | _ \<Rightarrow> None)
      else decodeClustersToAdopt ps (clusters, re))"

definition unmarshalClustersToAdopt :: "string \<Rightarrow> (string list \<times> string) option" where
  "unmarshalClustersToAdopt raw =
     (case parseJson raw of
        Some JNull \<Rightarrow> Some ([], [])
      | Some (JObj ps) \<Rightarrow> decodeClustersToAdopt ps ([], [])
      | _ \<Rightarrow> None)"

definition FilterToAdoptCluster ::
    "(string \<Rightarrow> string + (string \<Rightarrow> bool)) \<Rightarrow> 'a ObjectMeta_scheme \<Rightarrow> string \<Rightarrow> string + bool" where
  "FilterToAdoptCluster compile obj clusterName =
     (let raw = internalOr obj ''clusters-to-adopt'' in
      if raw = [] then Inr False
      else case unmarshalClustersToAdopt raw of
        None \<Rightarrow> Inl (''failed to unmarshal '' @ DefaultPrefix @ ''clusters-to-adopt annotation'')
      | Some (clusters, re) \<Rightarrow>
          if clusterName \<in> set clusters then Inr True
          else if re \<noteq> [] then
            (case compile re of
               Inl err \<Rightarrow> Inl (''failed to compile regexp for to adopt clusters: '' @ err)
             | Inr match \<Rightarrow> Inr (match clusterName))
          else Inr False)"

datatype OrphanBehavior = OrphanAll | OrphanAdopted | OrphanNone

definition GetOrphaningBehavior :: "'a ObjectMeta_scheme \<Rightarrow> OrphanBehavior" where
  "GetOrphaningBehavior obj =
     (let val = internalOr obj ''orphan'' in
      if val = ''all'' then OrphanAll else if val = ''adopted'' then OrphanAdopted else OrphanNone)"

definition ShouldBeOrphaned :: "'a ObjectMeta_scheme \<Rightarrow> 'b ObjectMeta_scheme \<Rightarrow> bool" where
  "ShouldBeOrphaned fedObj clusterObj \<longleftrightarrow>
     GetOrphaningBehavior fedObj = OrphanAll \<or>
     GetOrphaningBehavior fedObj = OrphanAdopted \<and> HasAdoptedAnnotation clusterObj"

definition IsCascadingDeleteEnabled :: "'a ObjectMeta_scheme \<Rightarrow> bool" where
  "IsCascadingDeleteEnabled cluster \<longleftrightarrow>
     map_of (MAnnotations cluster) (DefaultPrefix @ ''cascading-delete'') \<noteq> None"

text \<open>Two maps are deeply equal when they have the same entries.\<close>

definition sameMap :: "('k, 'v) gomap \<Rightarrow> ('k, 'v) gomap \<Rightarrow> bool" where
  "sameMap a b \<longleftrightarrow> list_all (\<lambda>k. map_of a k = map_of b k) (mkeys a @ mkeys b)"

definition ObjectMetaObjEquivalent :: "'a ObjectMeta_scheme \<Rightarrow> 'b ObjectMeta_scheme \<Rightarrow> bool" where
  "ObjectMetaObjEquivalent a b \<longleftrightarrow>
     MName a = MName b \<and> MNamespace a = MNamespace b \<and>
     sameMap (MLabels a) (MLabels b) \<and> sameMap (MAnnotations a) (MAnnotations b)"

section \<open>Copying a submap\<close>

lemma submapStep_spec:
  "map_of (fst (submapStep src k (dest, n))) k' = (if k' = k then map_of src k else map_of dest k')"
  by (auto simp: submapStep_def gomap_simps split: option.splits)

lemma submapStep_count:
  "snd (submapStep src k (dest, n)) = n + (if map_of src k = map_of dest k then 0 else 1)"
  by (auto simp: submapStep_def split: option.splits)

lemma submap_fold:
  "map_of (fst (fold (submapStep src) ks (dest, n))) k = (if k \<in> set ks then map_of src k else map_of dest k)"
proof (induction ks arbitrary: dest n)
  case (Cons k0 ks)
  obtain d' n' where s: "submapStep src k0 (dest, n) = (d', n')" by fastforce
  show ?case using Cons.IH [of d' n'] submapStep_spec [of src k0 dest n] s by auto
qed simp

lemma submap_fold_count:
  assumes "distinct ks"
  shows "snd (fold (submapStep src) ks (dest, n)) = n + card {k \<in> set ks. map_of src k \<noteq> map_of dest k}"
  using assms
proof (induction ks arbitrary: dest n)
  case (Cons k0 ks)
  obtain d' n' where s: "submapStep src k0 (dest, n) = (d', n')" by fastforce
  have d': "map_of d' k = (if k = k0 then map_of src k0 else map_of dest k)" for k
    using submapStep_spec [of src k0 dest n k] s by simp
  have n': "n' = n + (if map_of src k0 = map_of dest k0 then 0 else 1)"
    using submapStep_count [of src k0 dest n] s by simp
  have "{k \<in> set (k0 # ks). map_of src k \<noteq> map_of dest k} =
      (if map_of src k0 = map_of dest k0 then {} else {k0}) \<union> {k \<in> set ks. map_of src k \<noteq> map_of d' k}"
    using Cons.prems by (auto simp: d')
  moreover have "k0 \<notin> {k \<in> set ks. map_of src k \<noteq> map_of d' k}" using Cons.prems by auto
  ultimately show ?case using Cons.IH [of d' n'] Cons.prems s n' by (auto simp: card_insert_if)
qed simp


lemma submap_fold_wf: "wf_map dest \<Longrightarrow> wf_map (fst (fold (submapStep src) ks (dest, n)))"
proof (induction ks arbitrary: dest n)
  case (Cons k0 ks)
  obtain d' n' where s: "submapStep src k0 (dest, n) = (d', n')" by fastforce
  then have "wf_map d'" using Cons.prems by (auto simp: submapStep_def split: option.splits if_splits)
  then show ?case using Cons.IH s by simp
qed simp

lemma in_mkeys_map_of: "k \<in> set (mkeys m) \<longleftrightarrow> map_of m k \<noteq> None"
  by (auto simp: mkeys_def map_of_eq_None_iff)


section \<open>Finalizers\<close>

lemma AddFinalizers_set: "set (MFinalizers (fst (AddFinalizers obj fs))) = set (MFinalizers obj) \<union> set fs"
  by (auto simp: AddFinalizers_def)

lemma RemoveFinalizers_set: "set (MFinalizers (fst (RemoveFinalizers obj fs))) = set (MFinalizers obj) - set fs"
  by (auto simp: RemoveFinalizers_def)


section \<open>Properties\<close>

text \<open>
  C17.  \<open>CopySubmap\<close> makes the destination agree with the source on exactly the keys the matcher
  accepts, leaves all other keys alone, and returns the number of keys it changed.
\<close>

theorem CopySubmap_correct:
  assumes "wf_map src" "wf_map dest" "CopySubmap src dest matcher = (out, n)"
  shows "(\<forall>k. map_of out k = (if matcher k then map_of src k else map_of dest k)) \<and>
     n = card {k \<in> set (mkeys src @ mkeys dest). matcher k \<and> map_of src k \<noteq> map_of dest k}"
proof -
  obtain d1 n1 where s1: "fold (submapStep src) (filter matcher (mkeys src)) (dest, 0) = (d1, n1)" by fastforce
  have s2: "fold (submapStep src) (filter matcher (mkeys d1)) (d1, n1) = (out, n)"
    using assms(3) s1 by (simp add: CopySubmap_def)
  have d1: "map_of d1 k = (if k \<in> set (filter matcher (mkeys src)) then map_of src k else map_of dest k)" for k
    using submap_fold [of src "filter matcher (mkeys src)" dest 0 k] s1 by simp
  have out: "map_of out k = (if k \<in> set (filter matcher (mkeys d1)) then map_of src k else map_of d1 k)" for k
    using submap_fold [of src "filter matcher (mkeys d1)" d1 n1 k] s2 by simp
  have "distinct (mkeys src)" "wf_map d1"
    using assms(1,2) submap_fold_wf [of dest src "filter matcher (mkeys src)" 0] s1
    by (simp_all add: wf_map_def mkeys_def)
  then have n: "n1 = card {k \<in> set (filter matcher (mkeys src)). map_of src k \<noteq> map_of dest k}"
    "n = n1 + card {k \<in> set (filter matcher (mkeys d1)). map_of src k \<noteq> map_of d1 k}"
    using submap_fold_count [of "filter matcher (mkeys src)" src dest 0]
      submap_fold_count [of "filter matcher (mkeys d1)" src d1 n1] s1 s2 by (simp_all add: wf_map_def mkeys_def)
  let ?A = "{k \<in> set (filter matcher (mkeys src)). map_of src k \<noteq> map_of dest k}"
  let ?B = "{k \<in> set (filter matcher (mkeys d1)). map_of src k \<noteq> map_of d1 k}"
  have "{k \<in> set (mkeys src @ mkeys dest). matcher k \<and> map_of src k \<noteq> map_of dest k} = ?A \<union> ?B"
    by (auto simp: in_mkeys_map_of d1)
  moreover have "?A \<inter> ?B = {}" by (auto simp: d1)
  ultimately have "n = card {k \<in> set (mkeys src @ mkeys dest). matcher k \<and> map_of src k \<noteq> map_of dest k}"
    using n by (simp add: card_Un_disjoint)
  moreover have "map_of out k = (if matcher k then map_of src k else map_of dest k)" for k
    by (auto simp: out d1 in_mkeys_map_of)
  ultimately show ?thesis by blast
qed

theorem CopySubmap_correct_witness:
  "CopySubmap [(''a'', ''1''), (''b'', ''2'')] [(''a'', ''0''), (''c'', ''3''), (''d'', ''4'')] (\<lambda>k. k \<noteq> ''d'') =
     ([(''a'', ''1''), (''d'', ''4''), (''b'', ''2'')], 3) \<and>
   (3 :: nat) = card {k \<in> {''a'', ''b'', ''c'', ''d''}. k \<noteq> ''d''}"
proof -
  let ?src = "[(''a'', ''1''), (''b'', ''2'')]" and ?dest = "[(''a'', ''0''), (''c'', ''3''), (''d'', ''4'')]"
  have run: "CopySubmap ?src ?dest (\<lambda>k. k \<noteq> ''d'') = ([(''a'', ''1''), (''d'', ''4''), (''b'', ''2'')], 3)"
    and wf: "wf_map ?src" "wf_map ?dest" by code_simp+
  have "{k \<in> set (mkeys ?src @ mkeys ?dest). k \<noteq> ''d'' \<and> map_of ?src k \<noteq> map_of ?dest k} =
      {k \<in> {''a'', ''b'', ''c'', ''d''}. k \<noteq> ''d''}"
    by (auto simp: mkeys_def)
  with CopySubmap_correct [OF wf run] run show ?thesis by simp
qed

end
