(* ===== verification/Fed_Object.thy ===== *)
theory Fed_Object
  imports Object_Meta
begin

text \<open>
  Federated objects: placements and overrides per controller
  (\<open>pkg/apis/core/v1alpha1/extensions_federatedobject.go\<close>) and the pending-controllers annotation that
  sequences the controllers (\<open>pkg/util/pendingcontrollers\<close>).  The sections are edited in place; an
  operation returns the new section and whether it changed.
\<close>


section \<open>Model: placements and overrides\<close>

record OverridePatch =
  POp :: string
  PPath :: string
  PValue :: json

record ClusterReferenceWithPatches =
  OCluster :: string
  Patches :: "OverridePatch list"

record PlacementWithController =
  PlController :: string
  Placement :: "string list"

record OverrideWithController =
  OvController :: string
  Override :: "ClusterReferenceWithPatches list"

record FedObject = ObjectMeta +
  FTemplate :: json
  Placements :: "PlacementWithController list"
  Overrides :: "OverrideWithController list"

text \<open>
  The two loops that both sections use: the entry of the first match is replaced if it differs and
  appended if there is none; or the first match is removed.
\<close>

fun setFirst :: "('e \<Rightarrow> string) \<Rightarrow> string \<Rightarrow> 'e \<Rightarrow> 'e list \<Rightarrow> 'e list \<times> bool" where
  "setFirst ctl controller e [] = ([e], True)"
| "setFirst ctl controller e (x # xs) =
     (if ctl x = controller then (if e \<noteq> x then (e # xs, True) else (x # xs, False))
      else case setFirst ctl controller e xs of (ys, changed) \<Rightarrow> (x # ys, changed))"

fun deleteFirst :: "('e \<Rightarrow> string) \<Rightarrow> string \<Rightarrow> 'e list \<Rightarrow> 'e list \<times> bool" where
  "deleteFirst ctl controller [] = ([], False)"
| "deleteFirst ctl controller (x # xs) =
     (if ctl x = controller then (xs, True)
      else case deleteFirst ctl controller xs of (ys, changed) \<Rightarrow> (x # ys, changed))"

definition GetPlacementUnion :: "PlacementWithController list \<Rightarrow> string set" where
  "GetPlacementUnion placements = \<Union> (set (map (set \<circ> Placement) placements))"

definition GetControllerPlacement :: "PlacementWithController list \<Rightarrow> string \<Rightarrow> string list" where
  "GetControllerPlacement placements controller =
     (case find (\<lambda>p. PlController p = controller) placements of None \<Rightarrow> [] | Some p \<Rightarrow> Placement p)"

definition DeleteControllerPlacement ::
    "string \<Rightarrow> PlacementWithController list \<Rightarrow> PlacementWithController list \<times> bool" where
  "DeleteControllerPlacement controller placements = deleteFirst PlController controller placements"

definition SetControllerPlacement ::
    "string \<Rightarrow> string list \<Rightarrow> PlacementWithController list \<Rightarrow> PlacementWithController list \<times> bool" where
  "SetControllerPlacement controller clusterNames placements =
     (if clusterNames = [] then DeleteControllerPlacement controller placements
      else setFirst PlController controller
             \<lparr>PlController = controller, Placement = sort clusterNames\<rparr> placements)"

definition GetControllerOverrides ::
    "OverrideWithController list \<Rightarrow> string \<Rightarrow> ClusterReferenceWithPatches list" where
  "GetControllerOverrides overrides controller =
     (case find (\<lambda>p. OvController p = controller) overrides of None \<Rightarrow> [] | Some p \<Rightarrow> Override p)"

definition DeleteControllerOverrides ::
    "string \<Rightarrow> OverrideWithController list \<Rightarrow> OverrideWithController list \<times> bool" where
  "DeleteControllerOverrides controller overrides = deleteFirst OvController controller overrides"

definition SetControllerOverrides ::
    "string \<Rightarrow> ClusterReferenceWithPatches list \<Rightarrow> OverrideWithController list \<Rightarrow> OverrideWithController list \<times> bool" where
  "SetControllerOverrides controller clusterOverrides overrides =
     (if clusterOverrides = [] then DeleteControllerOverrides controller overrides
      else setFirst OvController controller
             \<lparr>OvController = controller, Override = sort_key OCluster clusterOverrides\<rparr> overrides)"


section \<open>Model: pending controllers\<close>

type_synonym PendingControllers = "string list list"

definition PendingControllersAnnotation :: string where
  "PendingControllersAnnotation = DefaultPrefix @ ''pending-controllers''"

definition NormalizeControllers :: "PendingControllers \<Rightarrow> PendingControllers" where
  "NormalizeControllers controllers = filter (\<lambda>inner. inner \<noteq> []) controllers"

definition encodeControllers :: "PendingControllers \<Rightarrow> string" where
  "encodeControllers controllers = printJson (JArr (map encodeStrings controllers))"

definition decodeControllers :: "string \<Rightarrow> PendingControllers option" where
  "decodeControllers s =
     (case parseJson s of None \<Rightarrow> None | Some j \<Rightarrow> decodeList (decodeList decodeString) j)"

definition GetPendingControllers :: "'a ObjectMeta_scheme \<Rightarrow> string + PendingControllers" where
  "GetPendingControllers fedObject =
     (case map_of (MAnnotations fedObject) PendingControllersAnnotation of
        None \<Rightarrow> Inl (''annotation '' @ PendingControllersAnnotation @ '' does not exist'')
      | Some val \<Rightarrow>
          (case decodeControllers val of
             None \<Rightarrow> Inl ''failed to unmarshal json''
           | Some controllers \<Rightarrow> Inr (NormalizeControllers controllers)))"

definition SetPendingControllers ::
    "'a ObjectMeta_scheme \<Rightarrow> PendingControllers \<Rightarrow> 'a ObjectMeta_scheme \<times> (string + bool)" where
  "SetPendingControllers fedObject controllers =
     (case AddAnnotation (Some fedObject) PendingControllersAnnotation
             (encodeControllers (NormalizeControllers controllers)) of
        (obj', r) \<Rightarrow> (case obj' of None \<Rightarrow> fedObject | Some o' \<Rightarrow> o',
                     case r of Inl err \<Rightarrow> Inl (''failed to add annotation: '' @ err) | Inr b \<Rightarrow> Inr b))"

fun GetDownstreamControllers :: "PendingControllers \<Rightarrow> string \<Rightarrow> PendingControllers" where
  "GetDownstreamControllers [] current = []"
| "GetDownstreamControllers (controllerGroup # rest) current =
     (if current \<in> set controllerGroup then rest else GetDownstreamControllers rest current)"

definition UpdatePendingControllers ::
    "'a ObjectMeta_scheme \<Rightarrow> string \<Rightarrow> bool \<Rightarrow> PendingControllers \<Rightarrow> 'a ObjectMeta_scheme \<times> (string + bool)" where
  "UpdatePendingControllers fedObject toRemove shouldSetDownstream allControllers =
     (case GetPendingControllers fedObject of
        Inl err \<Rightarrow> (fedObject, Inl (''failed to get remaining pending controllers: '' @ err))
      | Inr pendingControllers \<Rightarrow>
          let (current, rest) = (case pendingControllers of [] \<Rightarrow> ([], []) | g # gs \<Rightarrow> (g, gs));
              current' = remove1 toRemove current;
              rest' = (if shouldSetDownstream then GetDownstreamControllers allControllers toRemove else rest)
          in SetPendingControllers fedObject (current' # rest'))"

definition ControllerDependenciesFulfilled :: "'a ObjectMeta_scheme \<Rightarrow> string \<Rightarrow> string + bool" where
  "ControllerDependenciesFulfilled fedObject controllerName =
     (case GetPendingControllers fedObject of
        Inl err \<Rightarrow> Inl err
      | Inr [] \<Rightarrow> Inr True
      | Inr (currentControllerGroup # _) \<Rightarrow> Inr (controllerName \<in> set currentControllerGroup))"

text \<open>
  The protocol every controller follows: when its dependencies are fulfilled it does its work and
  updates the annotation, setting its downstream controllers again when it changed the object.
\<close>

inductive pendingStep ::
    "PendingControllers \<Rightarrow> 'a ObjectMeta_scheme \<Rightarrow> string \<times> bool \<Rightarrow> 'a ObjectMeta_scheme \<Rightarrow> bool"
  for allControllers where
  act: "ControllerDependenciesFulfilled obj c = Inr True \<Longrightarrow> c \<in> set (concat allControllers) \<Longrightarrow>
    UpdatePendingControllers obj c changed allControllers = (obj', Inr updated) \<Longrightarrow>
    pendingStep allControllers obj (c, changed) obj'"

inductive pendingReach :: "PendingControllers \<Rightarrow> 'a ObjectMeta_scheme \<Rightarrow> bool" for allControllers where
  start: "SetPendingControllers obj allControllers = (obj', Inr updated) \<Longrightarrow> pendingReach allControllers obj'"
| step: "pendingReach allControllers obj \<Longrightarrow> pendingStep allControllers obj a obj' \<Longrightarrow> pendingReach allControllers obj'"

text \<open>Statement vocabulary: the annotation after a step, and the states of the pipeline.\<close>

definition nextPending :: "PendingControllers \<Rightarrow> string \<Rightarrow> bool \<Rightarrow> PendingControllers \<Rightarrow> PendingControllers" where
  "nextPending p c changed allControllers =
     NormalizeControllers ((case p of [] \<Rightarrow> [] | g # _ \<Rightarrow> remove1 c g) #
       (if changed then GetDownstreamControllers allControllers c else tl p))"

definition pipelineState :: "PendingControllers \<Rightarrow> PendingControllers \<Rightarrow> bool" where
  "pipelineState allControllers p \<longleftrightarrow> p = [] \<or>
     (\<exists>i < length allControllers. \<exists>g. g \<noteq> [] \<and> mset g \<subseteq># mset (allControllers ! i) \<and>
        p = g # drop (Suc i) allControllers)"


definition sampleMeta :: ObjectMeta where
  "sampleMeta = \<lparr>MName = ''web'', MNamespace = ''ns'', MLabels = [], MAnnotations = [], MFinalizers = []\<rparr>"


section \<open>Sections of a federated object\<close>

text \<open>What a section keyed by controller names promises.\<close>

locale controller_section =
  fixes get :: "'e list \<Rightarrow> string \<Rightarrow> 'v list"
    and put :: "string \<Rightarrow> 'v list \<Rightarrow> 'e list \<Rightarrow> 'e list \<times> bool"
    and ctl :: "'e \<Rightarrow> string"
    and canon :: "'v list \<Rightarrow> 'v list"
  assumes get_put: "distinct (map ctl xs) \<Longrightarrow> get (fst (put c v xs)) c = canon v"
    and get_put_other: "c' \<noteq> c \<Longrightarrow> get (fst (put c v xs)) c' = get xs c'"
    and put_distinct: "distinct (map ctl xs) \<Longrightarrow> distinct (map ctl (fst (put c v xs)))"
    and put_changed: "snd (put c v xs) \<longleftrightarrow> fst (put c v xs) \<noteq> xs"
begin

lemma puts_get:
  assumes "distinct (map ctl xs)" "c \<notin> set (map fst ups)"
  shows "get (fold (\<lambda>(k, v) s. fst (put k v s)) ups xs) c = get xs c"
  using assms by (induction ups arbitrary: xs) (auto simp: get_put_other put_distinct)

lemma puts_distinct:
  "distinct (map ctl xs) \<Longrightarrow> distinct (map ctl (fold (\<lambda>(k, v) s. fst (put k v s)) ups xs))"
  by (induction ups arbitrary: xs) (auto simp: put_distinct)

lemma put_then_puts:
  assumes "distinct (map ctl xs)" "c \<notin> set (map fst ups)"
  shows "get (fold (\<lambda>(k, v) s. fst (put k v s)) ups (fst (put c v xs))) c = canon v"
  using puts_get [OF put_distinct [OF assms(1)] assms(2)] get_put [OF assms(1)] by simp

end

lemma setFirst_find:
  "ctl e = c \<Longrightarrow> find (\<lambda>p. ctl p = c') (fst (setFirst ctl c e xs)) =
     (if c' = c then Some e else find (\<lambda>p. ctl p = c') xs)"
  by (induction xs) (auto split: prod.splits)

lemma setFirst_keys:
  "ctl e = c \<Longrightarrow> map ctl (fst (setFirst ctl c e xs)) =
     (if c \<in> ctl ` set xs then map ctl xs else map ctl xs @ [c])"
  by (induction xs) (auto split: prod.splits)

lemma setFirst_changed: "snd (setFirst ctl c e xs) \<longleftrightarrow> fst (setFirst ctl c e xs) \<noteq> xs"
  by (induction xs) (auto split: prod.splits)

lemma deleteFirst_find:
  "(c' = c \<longrightarrow> distinct (map ctl xs)) \<Longrightarrow> find (\<lambda>p. ctl p = c') (fst (deleteFirst ctl c xs)) =
     (if c' = c then None else find (\<lambda>p. ctl p = c') xs)"
proof (induction xs)
  case (Cons x xs)
  then show ?case
    by (cases "ctl x = c"; cases "c' = c") (auto simp: find_None_iff image_iff split: prod.splits)
qed simp

lemma deleteFirst_keys: "map ctl (fst (deleteFirst ctl c xs)) = remove1 c (map ctl xs)"
  by (induction xs) (auto split: prod.splits)

lemma deleteFirst_changed: "snd (deleteFirst ctl c xs) \<longleftrightarrow> fst (deleteFirst ctl c xs) \<noteq> xs"
  by (induction xs) (auto split: prod.splits)

lemmas section_simps = setFirst_find setFirst_keys setFirst_changed deleteFirst_find deleteFirst_keys
  deleteFirst_changed

interpretation PlacementSection: controller_section GetControllerPlacement SetControllerPlacement PlController sort
proof
  fix xs :: "PlacementWithController list" and c c' v
  show "distinct (map PlController xs) \<Longrightarrow> GetControllerPlacement (fst (SetControllerPlacement c v xs)) c = sort v"
    by (simp add: GetControllerPlacement_def SetControllerPlacement_def DeleteControllerPlacement_def section_simps)
  show "c' \<noteq> c \<Longrightarrow> GetControllerPlacement (fst (SetControllerPlacement c v xs)) c' = GetControllerPlacement xs c'"
    by (simp add: GetControllerPlacement_def SetControllerPlacement_def DeleteControllerPlacement_def section_simps)
  show "distinct (map PlController xs) \<Longrightarrow> distinct (map PlController (fst (SetControllerPlacement c v xs)))"
    by (auto simp: SetControllerPlacement_def DeleteControllerPlacement_def section_simps)
  show "snd (SetControllerPlacement c v xs) \<longleftrightarrow> fst (SetControllerPlacement c v xs) \<noteq> xs"
    by (simp add: SetControllerPlacement_def DeleteControllerPlacement_def section_simps)
qed

interpretation OverrideSection: controller_section GetControllerOverrides SetControllerOverrides OvController
  "sort_key OCluster"
proof
  fix xs :: "OverrideWithController list" and c c' v
  show "distinct (map OvController xs) \<Longrightarrow>
      GetControllerOverrides (fst (SetControllerOverrides c v xs)) c = sort_key OCluster v"
    by (simp add: GetControllerOverrides_def SetControllerOverrides_def DeleteControllerOverrides_def section_simps)
  show "c' \<noteq> c \<Longrightarrow> GetControllerOverrides (fst (SetControllerOverrides c v xs)) c' = GetControllerOverrides xs c'"
    by (simp add: GetControllerOverrides_def SetControllerOverrides_def DeleteControllerOverrides_def section_simps)
  show "distinct (map OvController xs) \<Longrightarrow> distinct (map OvController (fst (SetControllerOverrides c v xs)))"
    by (auto simp: SetControllerOverrides_def DeleteControllerOverrides_def section_simps)
  show "snd (SetControllerOverrides c v xs) \<longleftrightarrow> fst (SetControllerOverrides c v xs) \<noteq> xs"
    by (simp add: SetControllerOverrides_def DeleteControllerOverrides_def section_simps)
qed


section \<open>The pending-controllers annotation\<close>

lemma decode_encodeControllers: "decodeControllers (encodeControllers cs) = Some cs"
proof -
  have "intJson (JArr (map encodeStrings cs))" by (auto simp: encodeStrings_def)
  moreover have "decodeList (decodeList decodeString) (JArr (map encodeStrings cs)) = Some cs"
    using those_map_Some [of cs "decodeList decodeString" encodeStrings id]
    by (simp add: decodeList_def [of "decodeList decodeString"] decode_encodeStrings)
  ultimately show ?thesis
    unfolding decodeControllers_def encodeControllers_def by (simp only: parseJson_printJson option.case)
qed

lemma Normalize_idem [simp]: "NormalizeControllers (NormalizeControllers cs) = NormalizeControllers cs"
  by (simp add: NormalizeControllers_def)

lemma Get_Set:
  "SetPendingControllers obj cs = (obj', r) \<Longrightarrow>
     (\<exists>b. r = Inr b) \<and> GetPendingControllers obj' = Inr (NormalizeControllers cs)"
  by (auto simp: SetPendingControllers_def AddAnnotation_def HasAnnotationKeyValue_def GetPendingControllers_def
    gomap_simps decode_encodeControllers PendingControllersAnnotation_def DefaultPrefix_def split: if_splits)

lemma Get_normal: "GetPendingControllers obj = Inr p \<Longrightarrow> NormalizeControllers p = p"
  by (auto simp: GetPendingControllers_def split: option.splits)

lemma Update_next:
  assumes "GetPendingControllers obj = Inr p"
  shows "\<exists>b. snd (UpdatePendingControllers obj c changed all) = Inr b"
    and "GetPendingControllers (fst (UpdatePendingControllers obj c changed all)) = Inr (nextPending p c changed all)"
proof -
  let ?cs = "remove1 c (case p of [] \<Rightarrow> [] | g # _ \<Rightarrow> g) # (if changed then GetDownstreamControllers all c else tl p)"
  have u: "UpdatePendingControllers obj c changed all = SetPendingControllers obj ?cs"
    using assms by (cases p) (simp_all add: UpdatePendingControllers_def)
  have n: "nextPending p c changed all = NormalizeControllers ?cs"
    by (cases p) (simp_all add: nextPending_def)
  obtain obj' r where s: "SetPendingControllers obj ?cs = (obj', r)" by fastforce
  show "\<exists>b. snd (UpdatePendingControllers obj c changed all) = Inr b"
    "GetPendingControllers (fst (UpdatePendingControllers obj c changed all)) = Inr (nextPending p c changed all)"
    using Get_Set [OF s] unfolding u n s by auto
qed

lemma Normalize_id: "list_all (\<lambda>g. g \<noteq> []) gs \<Longrightarrow> NormalizeControllers gs = gs"
  by (simp add: NormalizeControllers_def list_all_iff)

lemma GetDownstream_drop:
  assumes "distinct (concat all)" "i < length all" "c \<in> set (all ! i)"
  shows "GetDownstreamControllers all c = drop (Suc i) all"
  using assms
proof (induction all arbitrary: i)
  case (Cons g gs)
  show ?case
  proof (cases i)
    case 0
    then show ?thesis using Cons.prems by simp
  next
    case (Suc j)
    then have "c \<notin> set g" using Cons.prems by (auto dest: nth_mem)
    then show ?thesis using Cons.IH [of j] Cons.prems Suc by (simp add: distinct_concat_iff)
  qed
qed simp

text \<open>Dropping an exhausted first group moves the pipeline to its next stage.\<close>

lemma pipelineState_stage:
  assumes "list_all (\<lambda>g. g \<noteq> []) all" "i < length all" "mset g \<subseteq># mset (all ! i)"
  shows "pipelineState all (NormalizeControllers (g # drop (Suc i) all))"
proof -
  have rest: "NormalizeControllers (drop (Suc i) all) = drop (Suc i) all"
    using assms(1) by (intro Normalize_id) (auto simp: list_all_iff dest: in_set_dropD)
  show ?thesis
  proof (cases "g = []")
    case False
    then have "NormalizeControllers (g # drop (Suc i) all) = g # drop (Suc i) all"
      using rest by (simp add: NormalizeControllers_def)
    then show ?thesis using False assms(2,3) by (auto simp: pipelineState_def)
  next
    case True
    then have n: "NormalizeControllers (g # drop (Suc i) all) = drop (Suc i) all"
      using rest by (simp add: NormalizeControllers_def)
    show ?thesis
    proof (cases "Suc i < length all")
      case True
      then have "drop (Suc i) all = all ! Suc i # drop (Suc (Suc i)) all" by (simp add: Cons_nth_drop_Suc)
      moreover have "all ! Suc i \<noteq> []" using assms(1) True by (auto simp: list_all_length)
      ultimately show ?thesis using True n unfolding pipelineState_def
        by (metis subset_mset.order_refl)
    next
      case False
      then show ?thesis using n by (simp add: pipelineState_def)
    qed
  qed
qed

lemma nextPending_state:
  assumes "list_all (\<lambda>g. g \<noteq> []) all" "distinct (concat all)" "pipelineState all p"
    and "c \<in> set (concat all)" "p = [] \<or> c \<in> set (hd p)"
  shows "pipelineState all (nextPending p c changed all)"
proof (cases "p = []")
  case True
  obtain j where j: "j < length all" "c \<in> set (all ! j)"
    using assms(4) unfolding set_concat by (metis UN_E in_set_conv_nth)
  show ?thesis
  proof (cases changed)
    case True
    then show ?thesis using \<open>p = []\<close> pipelineState_stage [OF assms(1) j(1), of "[]"] GetDownstream_drop [OF assms(2) j]
      by (simp add: nextPending_def)
  next
    case False
    then show ?thesis using True by (simp add: nextPending_def NormalizeControllers_def pipelineState_def)
  qed
next
  case False
  then obtain i g where i: "i < length all" and g: "mset g \<subseteq># mset (all ! i)" and p: "p = g # drop (Suc i) all"
    using assms(3) by (auto simp: pipelineState_def)
  have "c \<in> set g" using assms(5) p by simp
  then have "c \<in> set (all ! i)" using set_mset_mono [OF g] by auto
  then have "GetDownstreamControllers all c = drop (Suc i) all" using GetDownstream_drop [OF assms(2) i] by simp
  moreover have "mset (remove1 c g) \<subseteq># mset (all ! i)"
    using g by (metis diff_subset_eq_self mset_remove1 subset_mset.order_trans)
  ultimately show ?thesis using pipelineState_stage [OF assms(1) i] by (simp add: nextPending_def p)
qed

lemma fulfilled_iff:
  "ControllerDependenciesFulfilled obj c = Inr True \<longleftrightarrow>
     (\<exists>p. GetPendingControllers obj = Inr p \<and> (p = [] \<or> c \<in> set (hd p)))"
  by (auto simp: ControllerDependenciesFulfilled_def split: sum.splits list.splits)


lemma distinct_groups:
  assumes "distinct (concat all)" "i < length all" "j < length all" "i \<noteq> j"
  shows "set (all ! i) \<inter> set (all ! j) = {}"
  using assms
proof (induction all arbitrary: i j)
  case (Cons g gs)
  have "set g \<inter> set (gs ! k) = {}" if "k < length gs" for k
    using Cons.prems(1) nth_mem [OF that] by auto
  then show ?case using Cons by (cases i; cases j) (auto simp: distinct_concat_iff)
qed simp

lemma pendingReach_state:
  assumes "pendingReach all obj" "list_all (\<lambda>g. g \<noteq> []) all" "distinct (concat all)"
  shows "\<exists>p. GetPendingControllers obj = Inr p \<and> pipelineState all p"
  using assms(1)
proof (induction rule: pendingReach.induct)
  case (start obj obj' updated)
  have "pipelineState all (NormalizeControllers all)"
  proof (cases all)
    case Nil
    then show ?thesis by (simp add: pipelineState_def NormalizeControllers_def)
  next
    case (Cons g gs)
    then show ?thesis using pipelineState_stage [OF assms(2), of 0 g] by simp
  qed
  then show ?case using Get_Set [OF start] by auto
next
  case (step obj a obj')
  from step.hyps(2) obtain c changed updated where f: "ControllerDependenciesFulfilled obj c = Inr True"
    and c: "c \<in> set (concat all)" and u: "UpdatePendingControllers obj c changed all = (obj', Inr updated)"
    by (auto elim: pendingStep.cases)
  obtain p where p: "GetPendingControllers obj = Inr p" and inv: "pipelineState all p" using step.IH by blast
  have "p = [] \<or> c \<in> set (hd p)" using f p by (auto simp: fulfilled_iff)
  from nextPending_state [OF assms(2,3) inv c this] Update_next(2) [OF p, of c changed all] u
  show ?case by auto
qed

lemma nextPending_concat:
  assumes "NormalizeControllers p = p" "concat p = c # xs"
  shows "concat (nextPending p c False all) = xs" "c \<in> set (hd p)"
proof -
  have ne: "\<forall>g \<in> set p. g \<noteq> []" using assms(1) unfolding NormalizeControllers_def by (simp add: filter_id_conv)
  then obtain g gs where p: "p = (c # g) # gs" using assms(2) by (cases p; cases "hd p") auto
  have "NormalizeControllers gs = gs" using ne p by (intro Normalize_id) (auto simp: list_all_iff)
  then show "concat (nextPending p c False all) = xs" "c \<in> set (hd p)"
    using assms(2) p by (auto simp: nextPending_def NormalizeControllers_def)
qed

lemma drain_all:
  assumes "GetPendingControllers obj = Inr p" "xs = concat p"
  shows "(\<forall>k < length xs. ControllerDependenciesFulfilled
        (fold (\<lambda>c s. fst (UpdatePendingControllers s c False all)) (take k xs) obj) (xs ! k) = Inr True) \<and>
     GetPendingControllers (fold (\<lambda>c s. fst (UpdatePendingControllers s c False all)) xs obj) = Inr []"
  using assms
proof (induction xs arbitrary: obj p)
  case Nil
  then have "p = []" using Get_normal [OF Nil(1)]
    by (cases p) (auto simp: NormalizeControllers_def split: if_splits dest: arg_cong [where f = length])
  then show ?case using Nil by simp
next
  case (Cons c xs)
  let ?obj = "fst (UpdatePendingControllers obj c False all)"
  note np = nextPending_concat [OF Get_normal [OF Cons.prems(1)] Cons.prems(2) [symmetric]]
  have get: "GetPendingControllers ?obj = Inr (nextPending p c False all)" by (rule Update_next(2) [OF Cons.prems(1)])
  from Cons.IH [OF get np(1) [symmetric]] have IH:
    "\<forall>k < length xs. ControllerDependenciesFulfilled
        (fold (\<lambda>c s. fst (UpdatePendingControllers s c False all)) (take k xs) ?obj) (xs ! k) = Inr True"
    "GetPendingControllers (fold (\<lambda>c s. fst (UpdatePendingControllers s c False all)) xs ?obj) = Inr []" by auto
  have "ControllerDependenciesFulfilled obj c = Inr True" using Cons.prems(1) np(2) by (auto simp: fulfilled_iff)
  then show ?case using IH by (auto simp: less_Suc_eq_0_disj)
qed


section \<open>Properties\<close>





text \<open>
  C20.  Every pipeline completes: if the pending controllers act in the order of the annotation
  without further changes, each finds its dependencies fulfilled, and the annotation ends empty.
\<close>

theorem pending_controllers_drain:
  assumes "GetPendingControllers obj = Inr p"
  shows "(\<forall>k < length (concat p). ControllerDependenciesFulfilled
        (fold (\<lambda>c s. fst (UpdatePendingControllers s c False all)) (take k (concat p)) obj) (concat p ! k) = Inr True) \<and>
     GetPendingControllers (fold (\<lambda>c s. fst (UpdatePendingControllers s c False all)) (concat p) obj) = Inr []"
  using drain_all [OF assms refl] .

theorem pending_controllers_drain_witness:
  "GetPendingControllers (fold (\<lambda>c s. fst (UpdatePendingControllers s c False []))
     [''sched'', ''quota'', ''override''] (fst (SetPendingControllers sampleMeta [[''sched'', ''quota''], [], [''override'']]))) = Inr []"
proof -
  let ?cs = "[[''sched'', ''quota''], [], [''override'']]"
  have "GetPendingControllers (fst (SetPendingControllers sampleMeta ?cs)) = Inr [[''sched'', ''quota''], [''override'']]"
    using Get_Set [of sampleMeta ?cs] by (cases "SetPendingControllers sampleMeta ?cs") (auto simp: NormalizeControllers_def)
  from pending_controllers_drain [OF this, of "[]"] show ?thesis by simp
qed

text \<open>
  The annotation round-trips: setting the pending controllers never fails, is reported as a
  change exactly when the annotation changes, and they are read back without the empty groups,
  whatever characters the controller names contain.
\<close>

lemma pending_controllers_roundtrip:
  "case SetPendingControllers obj controllers of
     (obj', Inr updated) \<Rightarrow> GetPendingControllers obj' = Inr (NormalizeControllers controllers) \<and>
       (updated \<longleftrightarrow> map_of (MAnnotations obj') PendingControllersAnnotation \<noteq>
          map_of (MAnnotations obj) PendingControllersAnnotation)
   | (obj', Inl _) \<Rightarrow> False"
proof -
  obtain obj' r where s: "SetPendingControllers obj controllers = (obj', r)" by fastforce
  then obtain b where b: "r = Inr b" using Get_Set by blast
  have "b \<longleftrightarrow> map_of (MAnnotations obj') PendingControllersAnnotation \<noteq>
          map_of (MAnnotations obj) PendingControllersAnnotation"
    using s b by (auto simp: SetPendingControllers_def AddAnnotation_def HasAnnotationKeyValue_def gomap_simps
      PendingControllersAnnotation_def DefaultPrefix_def split: if_splits)
  then show ?thesis using Get_Set [OF s] s b by simp
qed

end
