(* ===== verification/Framework.thy ===== *)
theory Framework
  imports Go_Prelude
begin

text \<open>
  The scheduling framework's types and helpers,
  \<open>pkg/controllers/scheduler/framework/{types,util}.go\<close>: scheduling units, clusters as the plugins
  see them, results, resource arithmetic, taints and score normalisation.

  Code outside the repository is a parameter, the record \<open>externs\<close>: Kubernetes' name validation,
  \<open>Toleration.ToleratesTaint\<close> and label and field selectors.  A \<open>resource.Quantity\<close> is the pair of
  numbers the code reads from it, \<open>MilliValue\<close> and \<open>Value\<close>.
\<close>


section \<open>Model: results\<close>

datatype Code = Success | Unschedulable | Error

record Result =
  rcode :: Code
  rreasons :: "string list"
  rerr :: "string option"
  rfailedPlugin :: string

definition NewResult :: "Code \<Rightarrow> string list \<Rightarrow> Result" where
  "NewResult c reasons = \<lparr>rcode = c, rreasons = reasons,
     rerr = (if c = Error then Some (joinStr '','' reasons) else None), rfailedPlugin = []\<rparr>"

text \<open>A \<open>*Result\<close> may be nil, which counts as success.\<close>

definition ResultCode :: "Result option \<Rightarrow> Code" where
  "ResultCode r = (case r of None \<Rightarrow> Success | Some x \<Rightarrow> rcode x)"

definition IsSuccess :: "Result option \<Rightarrow> bool" where
  "IsSuccess r = (case r of None \<Rightarrow> True | Some x \<Rightarrow> rcode x = Success)"

definition SetFailedPlugin :: "string \<Rightarrow> Result \<Rightarrow> Result" where
  "SetFailedPlugin plugin r = r\<lparr>rfailedPlugin := plugin\<rparr>"

definition ResultMessage :: "Result option \<Rightarrow> string" where
  "ResultMessage r = (case r of None \<Rightarrow> [] | Some x \<Rightarrow> joinStr '', '' (rreasons x))"

definition AsError :: "Result option \<Rightarrow> string option" where
  "AsError r = (if IsSuccess r then None
     else case r of None \<Rightarrow> None
     | Some x \<Rightarrow> (case rerr x of Some e \<Rightarrow> Some e | None \<Rightarrow> Some (joinStr '', '' (rreasons x))))"

definition Reasons :: "Result \<Rightarrow> string list" where
  "Reasons r = (case rerr r of Some e \<Rightarrow> e # rreasons r | None \<Rightarrow> rreasons r)"


section \<open>Model: clusters and scheduling units\<close>

record Quantity =
  MilliValue :: int64
  Value :: int64

type_synonym ResourceList = "(string, Quantity) gomap"

record Taint =
  TaintKey :: string
  TaintValue :: string
  TaintEffect :: string

record Toleration =
  TolerationKey :: string
  TolerationOperator :: string
  TolerationValue :: string
  TolerationEffect :: string
  TolerationSeconds :: "int64 option"

record APIResource =
  ARGroup :: string
  ARVersion :: string
  ARKind :: string
  ARPluralName :: string
  ARScope :: string

record ClusterCondition =
  CondType :: string
  CondStatus :: string

record FederatedCluster =
  CName :: string
  CLabels :: "(string, string) gomap"
  CTaints :: "Taint list"
  CAPIResourceTypes :: "APIResource list"
  CConditions :: "ClusterCondition list"
  CDeletionTimestamp :: "int option"
  CAllocatable :: ResourceList
  CAvailable :: ResourceList

text \<open>\<open>Resource\<close>; a nil scalar map is \<open>None\<close>.\<close>

record Resource =
  MilliCPU :: int64
  Memory :: int64
  EphemeralStorage :: int64
  ScalarResources :: "(string, int64) gomap option"

record InsufficientResource =
  IRName :: string
  IRReason :: string
  IRRequested :: int64
  IRUsed :: int64
  IRCapacity :: int64

datatype SchedulingMode = Duplicate | Divide
datatype ReplicasStrategy = Spread | Binpack

record ClusterSelectorRequirement =
  CSKey :: string
  CSOperator :: string
  CSValues :: "string list"

record ClusterSelectorTerm =
  MatchExpressions :: "ClusterSelectorRequirement list"
  MatchFields :: "ClusterSelectorRequirement list"

record PreferredSchedulingTerm =
  PWeight :: int
  PPreference :: ClusterSelectorTerm

record ClusterAffinity =
  RequiredTerms :: "ClusterSelectorTerm list option"
  PreferredTerms :: "PreferredSchedulingTerm list"

record AutoMigrationInfo =
  EstimatedCapacity :: replicas
  ScheduledReplicas :: replicas

record AutoMigrationSpec =
  AMInfo :: "AutoMigrationInfo option"
  KeepUnschedulableReplicas :: bool

record UnavailableCluster =
  UCCluster :: string
  ValidUntil :: int

record CustomMigrationInfo =
  LimitedCapacity :: "replicas option"
  UnavailableClusters :: "UnavailableCluster list"

record SchedulingUnit =
  SUGroup :: string
  SUVersion :: string
  SUKind :: string
  SUResource :: string
  SUNamespace :: string
  SUName :: string
  SULabels :: "(string, string) gomap"
  SUAnnotations :: "(string, string) gomap"
  DesiredReplicas :: "int64 option"
  ResourceRequest :: Resource
  CurrentClusters :: "(string, int64 option) gomap"
  AutoMigration :: "AutoMigrationSpec option"
  CustomMigration :: "CustomMigrationInfo option"
  SUSchedulingMode :: SchedulingMode
  SUReplicasStrategy :: ReplicasStrategy
  StickyCluster :: bool
  AvoidDisruption :: bool
  ClusterSelector :: "(string, string) gomap"
  ClusterNames :: "string list"
  SUAffinity :: "ClusterAffinity option"
  Tolerations :: "Toleration list"
  MaxClusters :: "int64 option"
  SUMinReplicas :: replicas
  SUMaxReplicas :: replicas
  Weights :: replicas
  Priorities :: replicas
  EnableKatalystSupport :: bool

definition SchedulingUnit_Key :: "SchedulingUnit \<Rightarrow> string" where
  "SchedulingUnit_Key s =
     (if length (SUNamespace s) > 0 then SUNamespace s @ ''/'' @ SUName s else SUName s)"

record ClusterScore =
  SCluster :: FederatedCluster
  Score :: int64

record ClusterReplicas =
  RCluster :: FederatedCluster
  Replicas :: int64

text \<open>Functions of the Kubernetes libraries the code calls.\<close>

datatype labelOperator = OpIn | OpNotIn | OpExists | OpDoesNotExist | OpGreaterThan | OpLessThan

record externs =
  IsQualifiedName :: "string \<Rightarrow> bool"
  ToleratesTaint :: "Toleration \<Rightarrow> Taint \<Rightarrow> bool"
  SelectorFromSetMatches :: "(string, string) gomap \<Rightarrow> (string, string) gomap \<Rightarrow> bool"
  NewRequirement :: "string \<Rightarrow> labelOperator \<Rightarrow> string list
    \<Rightarrow> string + ((string, string) gomap \<Rightarrow> bool)"
  OneTermEqual :: "string \<Rightarrow> string \<Rightarrow> (string, string) gomap \<Rightarrow> bool"
  OneTermNotEqual :: "string \<Rightarrow> string \<Rightarrow> (string, string) gomap \<Rightarrow> bool"
  KatalystResourceNames :: "string list"


section \<open>Model: cluster conditions\<close>

text \<open>\<open>pkg/util/cluster/util.go\<close>.\<close>

definition hasTrueCondition :: "string \<Rightarrow> ClusterCondition list \<Rightarrow> bool" where
  "hasTrueCondition t conditions =
     list_ex (\<lambda>c. CondType c = t \<and> CondStatus c = ''True'') conditions"

definition IsClusterReady :: "ClusterCondition list \<Rightarrow> bool" where
  "IsClusterReady conditions = hasTrueCondition ''Ready'' conditions"

definition IsClusterJoined :: "ClusterCondition list \<Rightarrow> bool" where
  "IsClusterJoined conditions = hasTrueCondition ''Joined'' conditions"

definition IsClusterOffline :: "ClusterCondition list \<Rightarrow> bool" where
  "IsClusterOffline conditions = hasTrueCondition ''Offline'' conditions"


section \<open>Model: resources\<close>

definition IsPrefixedNativeResource :: "string \<Rightarrow> bool" where
  "IsPrefixedNativeResource name = strContains name ''kubernetes.io/''"

definition IsNativeResource :: "string \<Rightarrow> bool" where
  "IsNativeResource name = (\<not> strContains name ''/'' \<or> IsPrefixedNativeResource name)"

definition IsExtendedResourceName :: "externs \<Rightarrow> string \<Rightarrow> bool" where
  "IsExtendedResourceName ext name =
     (if IsNativeResource name \<or> hasPrefix name ''requests.'' then False
      else IsQualifiedName ext (''requests.'' @ name))"

definition IsAttachableVolumeResourceName :: "string \<Rightarrow> bool" where
  "IsAttachableVolumeResourceName name = hasPrefix name ''attachable-volumes-''"

definition IsHugePageResourceName :: "string \<Rightarrow> bool" where
  "IsHugePageResourceName name = hasPrefix name ''hugepages-''"

definition IsScalarResourceName :: "externs \<Rightarrow> string \<Rightarrow> bool" where
  "IsScalarResourceName ext name =
     (IsExtendedResourceName ext name \<or> IsHugePageResourceName name \<or>
      IsPrefixedNativeResource name \<or> IsAttachableVolumeResourceName name)"

definition scalarOf :: "Resource \<Rightarrow> string \<Rightarrow> int64" where
  "scalarOf r name = (case ScalarResources r of None \<Rightarrow> 0 | Some m \<Rightarrow> mget 0 m name)"

definition SetScalar :: "string \<Rightarrow> int64 \<Rightarrow> Resource \<Rightarrow> Resource" where
  "SetScalar name quantity r =
     r\<lparr>ScalarResources := Some (mput name quantity
        (case ScalarResources r of None \<Rightarrow> [] | Some m \<Rightarrow> m))\<rparr>"

definition AddScalar :: "string \<Rightarrow> int64 \<Rightarrow> Resource \<Rightarrow> Resource" where
  "AddScalar name quantity r = SetScalar name (add64 (scalarOf r name) quantity) r"

definition AddEntry :: "externs \<Rightarrow> string \<times> Quantity \<Rightarrow> Resource \<Rightarrow> Resource" where
  "AddEntry ext e r =
     (if fst e = ''cpu'' then r\<lparr>MilliCPU := add64 (MilliCPU r) (MilliValue (snd e))\<rparr>
      else if fst e = ''memory'' then r\<lparr>Memory := add64 (Memory r) (Value (snd e))\<rparr>
      else if fst e = ''ephemeral-storage''
        then r\<lparr>EphemeralStorage := add64 (EphemeralStorage r) (Value (snd e))\<rparr>
      else if IsScalarResourceName ext (fst e) then AddScalar (fst e) (Value (snd e)) r
      else r)"

definition ResourceAdd :: "externs \<Rightarrow> ResourceList \<Rightarrow> Resource \<Rightarrow> Resource" where
  "ResourceAdd ext rl r = fold (AddEntry ext) rl r"

definition zeroResource :: Resource where
  "zeroResource = \<lparr>MilliCPU = 0, Memory = 0, EphemeralStorage = 0, ScalarResources = None\<rparr>"

definition NewResource :: "externs \<Rightarrow> ResourceList \<Rightarrow> Resource" where
  "NewResource ext rl = ResourceAdd ext rl zeroResource"

datatype subError =
    CpuBelowZero int64 int64
  | MemoryBelowZero int64 int64
  | StorageBelowZero int64 int64
  | ScalarMissing string int64
  | ScalarBelowZero string int64 int64

text \<open>
  The outcome of \<open>Sub\<close>: the receiver is updated in place, so an error leaves the entries already
  subtracted; writing to a nil scalar map panics.
\<close>

datatype subOutcome = SubOk Resource | SubErr Resource subError | SubPanic

definition SubEntry :: "externs \<Rightarrow> string \<times> Quantity \<Rightarrow> Resource \<Rightarrow> subOutcome" where
  "SubEntry ext e r =
     (let name = fst e; q = snd e in
      if name = ''cpu'' then
        (if MilliCPU r < MilliValue q then SubErr r (CpuBelowZero (MilliCPU r) (MilliValue q))
         else SubOk (r\<lparr>MilliCPU := sub64 (MilliCPU r) (MilliValue q)\<rparr>))
      else if name = ''memory'' then
        (if Memory r < Value q then SubErr r (MemoryBelowZero (Memory r) (Value q))
         else SubOk (r\<lparr>Memory := sub64 (Memory r) (Value q)\<rparr>))
      else if name = ''ephemeral-storage'' then
        (if EphemeralStorage r < Value q then SubErr r (StorageBelowZero (EphemeralStorage r) (Value q))
         else SubOk (r\<lparr>EphemeralStorage := sub64 (EphemeralStorage r) (Value q)\<rparr>))
      else if IsScalarResourceName ext name then
        (let ok = (case ScalarResources r of None \<Rightarrow> False | Some m \<Rightarrow> map_of m name \<noteq> None) in
         if \<not> ok \<and> Value q > 0 then SubErr r (ScalarMissing name (Value q))
         else if scalarOf r name < Value q then SubErr r (ScalarBelowZero name (scalarOf r name) (Value q))
         else if ScalarResources r = None then SubPanic
         else SubOk (SetScalar name (sub64 (scalarOf r name) (Value q)) r))
      else SubOk r)"

fun ResourceSub :: "externs \<Rightarrow> ResourceList \<Rightarrow> Resource \<Rightarrow> subOutcome" where
  "ResourceSub ext [] r = SubOk r"
| "ResourceSub ext (e # rl) r =
     (case SubEntry ext e r of
        SubOk r' \<Rightarrow> ResourceSub ext rl r'
      | SubErr r' err \<Rightarrow> SubErr r' err
      | SubPanic \<Rightarrow> SubPanic)"

definition ResourceClone :: "Resource \<Rightarrow> Resource" where
  "ResourceClone r = \<lparr>MilliCPU = MilliCPU r, Memory = Memory r, EphemeralStorage = EphemeralStorage r,
     ScalarResources = (case ScalarResources r of None \<Rightarrow> None
       | Some m \<Rightarrow> Some (fold (\<lambda>(k, v) acc. mput k v acc) m []))\<rparr>"

definition SetMaxEntry :: "externs \<Rightarrow> string \<times> Quantity \<Rightarrow> Resource \<Rightarrow> Resource" where
  "SetMaxEntry ext e r =
     (let name = fst e; q = snd e in
      if name = ''memory'' then (if Value q > Memory r then r\<lparr>Memory := Value q\<rparr> else r)
      else if name = ''cpu'' then (if MilliValue q > MilliCPU r then r\<lparr>MilliCPU := MilliValue q\<rparr> else r)
      else if name = ''ephemeral-storage''
        then (if Value q > EphemeralStorage r then r\<lparr>EphemeralStorage := Value q\<rparr> else r)
      else if IsScalarResourceName ext name
        then (if Value q > scalarOf r name then SetScalar name (Value q) r else r)
      else r)"

definition SetMaxResource :: "externs \<Rightarrow> ResourceList \<Rightarrow> Resource \<Rightarrow> Resource" where
  "SetMaxResource ext rl r = fold (SetMaxEntry ext) rl r"

definition HasScalarResource :: "Resource \<Rightarrow> string \<Rightarrow> bool" where
  "HasScalarResource r name =
     (case ScalarResources r of None \<Rightarrow> False | Some m \<Rightarrow> map_of m name \<noteq> None)"

definition GetKatalystResources :: "externs \<Rightarrow> Resource \<Rightarrow> (string, int64) gomap" where
  "GetKatalystResources ext r =
     filter (\<lambda>(name, _). name \<in> set (KatalystResourceNames ext))
       (case ScalarResources r of None \<Rightarrow> [] | Some m \<Rightarrow> m)"

record Pod =
  Containers :: "ResourceList list"
  InitContainers :: "ResourceList list"
  Overhead :: "ResourceList option"

definition GetResourceRequest :: "externs \<Rightarrow> Pod \<Rightarrow> Resource" where
  "GetResourceRequest ext pod =
     (let r1 = fold (ResourceAdd ext) (Containers pod) zeroResource;
          r2 = fold (SetMaxResource ext) (InitContainers pod) r1
      in case Overhead pod of None \<Rightarrow> r2 | Some ov \<Rightarrow> ResourceAdd ext ov r2)"

definition GetNonzeroRequestForResource :: "externs \<Rightarrow> string \<Rightarrow> ResourceList \<Rightarrow> int64" where
  "GetNonzeroRequestForResource ext name requests =
     (if name = ''cpu'' then
        (case map_of requests ''cpu'' of None \<Rightarrow> 100 | Some q \<Rightarrow> MilliValue q)
      else if name = ''memory'' then
        (case map_of requests ''memory'' of None \<Rightarrow> 200 * 1024 * 1024 | Some q \<Rightarrow> Value q)
      else if name = ''ephemeral-storage'' then
        (case map_of requests ''ephemeral-storage'' of None \<Rightarrow> 0 | Some q \<Rightarrow> Value q)
      else if IsScalarResourceName ext name then
        (case map_of requests name of None \<Rightarrow> 0 | Some q \<Rightarrow> Value q)
      else 0)"

definition GetNonzeroRequests :: "externs \<Rightarrow> ResourceList \<Rightarrow> int64 \<times> int64" where
  "GetNonzeroRequests ext requests =
     (GetNonzeroRequestForResource ext ''cpu'' requests,
      GetNonzeroRequestForResource ext ''memory'' requests)"

definition calculateResource :: "externs \<Rightarrow> Pod \<Rightarrow> Resource \<times> int64 \<times> int64" where
  "calculateResource ext pod =
     (let (r1, cpu1, mem1) = fold (\<lambda>c (r, cpu, mem).
            (ResourceAdd ext c r, add64 cpu (fst (GetNonzeroRequests ext c)),
             add64 mem (snd (GetNonzeroRequests ext c)))) (Containers pod) (zeroResource, 0, 0);
          (r2, cpu2, mem2) = fold (\<lambda>c (r, cpu, mem).
            (SetMaxResource ext c r,
             (if cpu < fst (GetNonzeroRequests ext c) then fst (GetNonzeroRequests ext c) else cpu),
             (if mem < snd (GetNonzeroRequests ext c) then snd (GetNonzeroRequests ext c) else mem)))
            (InitContainers pod) (r1, cpu1, mem1)
      in case Overhead pod of
           None \<Rightarrow> (r2, cpu2, mem2)
         | Some ov \<Rightarrow>
             (ResourceAdd ext ov r2,
              (case map_of ov ''cpu'' of None \<Rightarrow> cpu2 | Some q \<Rightarrow> add64 cpu2 (MilliValue q)),
              (case map_of ov ''memory'' of None \<Rightarrow> mem2 | Some q \<Rightarrow> add64 mem2 (Value q))))"

definition PreCheck :: "SchedulingUnit option \<Rightarrow> FederatedCluster option \<Rightarrow> string option" where
  "PreCheck su cluster =
     (if su = None then Some ''invalid scheduling unit''
      else if cluster = None then Some ''invalid federated cluster''
      else None)"


section \<open>Model: taints, scores and names\<close>

definition TolerationsTolerateTaint :: "externs \<Rightarrow> Toleration list \<Rightarrow> Taint \<Rightarrow> bool" where
  "TolerationsTolerateTaint ext tolerations taint =
     list_ex (\<lambda>t. ToleratesTaint ext t taint) tolerations"

definition getFilteredTaints :: "Taint list \<Rightarrow> (Taint \<Rightarrow> bool) option \<Rightarrow> Taint list" where
  "getFilteredTaints taints inclusionFilter =
     (case inclusionFilter of None \<Rightarrow> taints | Some f \<Rightarrow> filter f taints)"

definition FindMatchingUntoleratedTaint ::
    "externs \<Rightarrow> Taint list \<Rightarrow> Toleration list \<Rightarrow> (Taint \<Rightarrow> bool) option \<Rightarrow> Taint option" where
  "FindMatchingUntoleratedTaint ext taints tolerations inclusionFilter =
     List.find (\<lambda>taint. \<not> TolerationsTolerateTaint ext tolerations taint)
       (getFilteredTaints taints inclusionFilter)"

definition MaxClusterScore :: int64 where
  "MaxClusterScore = 100"

definition maxCount :: "ClusterScore list \<Rightarrow> int64" where
  "maxCount scores = fold (\<lambda>s m. if Score s > m then Score s else m) scores 0"

definition DefaultNormalizeScore :: "int64 \<Rightarrow> bool \<Rightarrow> ClusterScore list \<Rightarrow> ClusterScore list" where
  "DefaultNormalizeScore maxPriority reverse scores =
     (if maxCount scores = 0 then
        (if reverse then map (\<lambda>s. s\<lparr>Score := maxPriority\<rparr>) scores else scores)
      else map (\<lambda>s.
             let score = div64 (mul64 maxPriority (Score s)) (maxCount scores)
             in s\<lparr>Score := (if reverse then sub64 maxPriority score else score)\<rparr>) scores)"

definition ExtractClusterNames :: "FederatedCluster list \<Rightarrow> string list" where
  "ExtractClusterNames clusters = map CName clusters"


text \<open>
  Statement vocabulary: the amount a resource name has in a \<open>Resource\<close>, and the amount a resource
  list contributes to it.
\<close>

definition amount :: "Resource \<Rightarrow> string \<Rightarrow> int" where
  "amount r n = (if n = ''cpu'' then MilliCPU r else if n = ''memory'' then Memory r
     else if n = ''ephemeral-storage'' then EphemeralStorage r else scalarOf r n)"

definition counted :: "externs \<Rightarrow> string \<Rightarrow> bool" where
  "counted ext n \<longleftrightarrow> n \<in> {''cpu'', ''memory'', ''ephemeral-storage''} \<or> IsScalarResourceName ext n"

definition qamount :: "string \<Rightarrow> Quantity \<Rightarrow> int" where
  "qamount n q = (if n = ''cpu'' then MilliValue q else Value q)"

definition lamount :: "externs \<Rightarrow> ResourceList \<Rightarrow> string \<Rightarrow> int" where
  "lamount ext rl n = (if counted ext n
     then (case map_of rl n of None \<Rightarrow> 0 | Some q \<Rightarrow> qamount n q) else 0)"

definition scalarEntries :: "externs \<Rightarrow> ResourceList \<Rightarrow> bool" where
  "scalarEntries ext rl = list_ex (\<lambda>(n, q). n \<notin> {''cpu'', ''memory'', ''ephemeral-storage''} \<and>
     IsScalarResourceName ext n) rl"

text \<open>Example values for the witnesses.\<close>

definition sampleExterns :: externs where
  "sampleExterns = \<lparr>IsQualifiedName = (\<lambda>_. True),
     ToleratesTaint = (\<lambda>t x. TolerationKey t = TaintKey x),
     SelectorFromSetMatches = (\<lambda>sel ls. list_all (\<lambda>(k, v). map_of ls k = Some v) sel),
     NewRequirement = (\<lambda>k op vs. Inr (\<lambda>ls. case map_of ls k of None \<Rightarrow> False | Some v \<Rightarrow> v \<in> set vs)),
     OneTermEqual = (\<lambda>k v fs. mget [] fs k = v), OneTermNotEqual = (\<lambda>k v fs. mget [] fs k \<noteq> v),
     KatalystResourceNames = []\<rparr>"

definition sampleCluster :: "string \<Rightarrow> FederatedCluster" where
  "sampleCluster n = \<lparr>CName = n, CLabels = [(''region'', ''eu'')], CTaints = [], CAPIResourceTypes = [],
     CConditions = [\<lparr>CondType = ''Ready'', CondStatus = ''True''\<rparr>], CDeletionTimestamp = None,
     CAllocatable = [(''cpu'', \<lparr>MilliValue = 8000, Value = 8\<rparr>), (''memory'', \<lparr>MilliValue = 64000, Value = 64\<rparr>),
       (''nvidia.com/gpu'', \<lparr>MilliValue = 4000, Value = 4\<rparr>)],
     CAvailable = [(''cpu'', \<lparr>MilliValue = 2000, Value = 2\<rparr>), (''memory'', \<lparr>MilliValue = 32000, Value = 32\<rparr>),
       (''nvidia.com/gpu'', \<lparr>MilliValue = 1000, Value = 1\<rparr>)]\<rparr>"

definition sampleSU :: SchedulingUnit where
  "sampleSU = \<lparr>SUGroup = ''apps'', SUVersion = ''v1'', SUKind = ''Deployment'', SUResource = ''deployments'',
     SUNamespace = ''ns'', SUName = ''web'', SULabels = [], SUAnnotations = [],
     DesiredReplicas = Some 5,
     ResourceRequest = \<lparr>MilliCPU = 1000, Memory = 8, EphemeralStorage = 0,
       ScalarResources = Some [(''nvidia.com/gpu'', 2)]\<rparr>,
     CurrentClusters = [], AutoMigration = None, CustomMigration = None, SUSchedulingMode = Divide,
     SUReplicasStrategy = Spread, StickyCluster = False, AvoidDisruption = False, ClusterSelector = [],
     ClusterNames = [], SUAffinity = None, Tolerations = [], MaxClusters = Some 1, SUMinReplicas = [],
     SUMaxReplicas = [], Weights = [(''A'', 1), (''B'', 2)], Priorities = [], EnableKatalystSupport = False\<rparr>"

definition sampleScores :: "ClusterScore list" where
  "sampleScores = map (\<lambda>(n, v). \<lparr>SCluster = sampleCluster n, Score = v\<rparr>) [(''A'', 4), (''B'', 2)]"


section \<open>Resource arithmetic\<close>

lemma scalarOf_SetScalar [simp]: "scalarOf (SetScalar n v r) k = (if k = n then v else scalarOf r k)"
  by (auto simp: scalarOf_def SetScalar_def mget_mput split: option.splits)

lemma SetScalar_simps [simp]:
  "MilliCPU (SetScalar n v r) = MilliCPU r" "Memory (SetScalar n v r) = Memory r"
  "EphemeralStorage (SetScalar n v r) = EphemeralStorage r"
  by (simp_all add: SetScalar_def)

lemma scalarOf_update [simp]:
  "scalarOf (r\<lparr>MilliCPU := v\<rparr>) k = scalarOf r k" "scalarOf (r\<lparr>Memory := v\<rparr>) k = scalarOf r k"
  "scalarOf (r\<lparr>EphemeralStorage := v\<rparr>) k = scalarOf r k"
  by (simp_all add: scalarOf_def)

lemma amount_AddEntry:
  "amount (AddEntry ext (n, q) r) k =
     (if k = n \<and> counted ext n then add64 (amount r k) (qamount n q) else amount r k)"
  by (auto simp: amount_def AddEntry_def counted_def qamount_def AddScalar_def)

lemma amount_ResourceAdd:
  assumes "wf_map rl" "\<forall>k. 0 \<le> amount r k" "\<forall>k. 0 \<le> lamount ext rl k"
    and "\<forall>k. in64 (amount r k + lamount ext rl k)"
  shows "amount (ResourceAdd ext rl r) k = amount r k + lamount ext rl k"
  using assms unfolding ResourceAdd_def
proof (induction rl arbitrary: r)
  case Nil
  then show ?case by (simp add: lamount_def)
next
  case (Cons e rl)
  obtain n q where e: "e = (n, q)" by (cases e)
  let ?r = "AddEntry ext e r"
  have n: "map_of rl n = None" "wf_map rl"
    using Cons.prems(1) by (auto simp: e wf_map_def map_of_eq_None_iff)
  have step: "amount ?r k = amount r k + (if k = n \<and> counted ext n then qamount n q else 0)" for k
    using Cons.prems(4) [rule_format, of n]
    by (auto simp: e amount_AddEntry lamount_def add64_exact)
  have split: "lamount ext (e # rl) k = (if k = n \<and> counted ext n then qamount n q else 0) + lamount ext rl k" for k
    using n(1) by (auto simp: lamount_def e)
  have l0: "0 \<le> lamount ext rl k" for k
    using Cons.prems(3) [rule_format, of k] split [of k] n(1) by (auto simp: lamount_def split: if_splits)
  have "0 \<le> amount ?r k" for k
    using Cons.prems(2,3) [rule_format, of k] split [of k] step [of k] n(1)
    by (auto simp: lamount_def split: if_splits)
  moreover have "in64 (amount ?r k + lamount ext rl k)" for k
    using Cons.prems(4) [rule_format, of k] split [of k] step [of k] by (simp add: add.assoc)
  ultimately show ?case
    using Cons.IH [of ?r] n(2) l0 step split by simp
qed


lemma SubEntry_ok:
  assumes "0 \<le> amount r n" "in64 (amount r n)" "counted ext n \<Longrightarrow> 0 \<le> qamount n q \<and> qamount n q \<le> amount r n"
    and "scalarEntries ext [(n, q)] \<Longrightarrow> ScalarResources r \<noteq> None"
  shows "\<exists>r'. SubEntry ext (n, q) r = SubOk r' \<and> (ScalarResources r \<noteq> None \<longrightarrow> ScalarResources r' \<noteq> None) \<and>
      (\<forall>k. amount r' k = (if k = n \<and> counted ext n then amount r k - qamount n q else amount r k))"
proof -
  have sub: "sub64 (amount r n) (qamount n q) = amount r n - qamount n q" if "counted ext n"
    using assms(1,2) assms(3) [OF that] by (intro sub64_exact) (auto simp: in64_def)
  consider "n = ''cpu''" | "n = ''memory''" | "n = ''ephemeral-storage''"
    | (scalar) "n \<notin> {''cpu'', ''memory'', ''ephemeral-storage''}" "IsScalarResourceName ext n"
    | "n \<notin> {''cpu'', ''memory'', ''ephemeral-storage''}" "\<not> IsScalarResourceName ext n"
    by blast
  then show ?thesis
  proof cases
    case scalar
    then have c: "counted ext n" and nn: "amount r n = scalarOf r n" "qamount n q = Value q"
      by (auto simp: counted_def amount_def qamount_def)
    obtain m where m: "ScalarResources r = Some m" using assms(4) scalar by (auto simp: scalarEntries_def)
    have "map_of m n = None \<Longrightarrow> scalarOf r n = 0" by (simp add: scalarOf_def m mget_def)
    then have "SubEntry ext (n, q) r = SubOk (SetScalar n (sub64 (scalarOf r n) (Value q)) r)"
      using scalar assms(3) [OF c] nn m by (auto simp: SubEntry_def Let_def)
    then show ?thesis using sub [OF c] nn c scalar by (auto simp: amount_def SetScalar_def [of n _ r] scalarOf_def mget_mput m)
  qed (use sub assms(3) in \<open>auto simp: SubEntry_def amount_def qamount_def counted_def Let_def\<close>)
qed

lemma amount_ResourceSub:
  assumes "wf_map rl" "\<forall>k. in64 (amount r k)"
    and "\<forall>k. 0 \<le> lamount ext rl k \<and> lamount ext rl k \<le> amount r k"
    and "scalarEntries ext rl \<Longrightarrow> ScalarResources r \<noteq> None"
  shows "\<exists>r'. ResourceSub ext rl r = SubOk r' \<and> (\<forall>k. amount r' k = amount r k - lamount ext rl k)"
  using assms
proof (induction rl arbitrary: r)
  case Nil
  then show ?case by (simp add: lamount_def)
next
  case (Cons e rl)
  obtain n q where e: "e = (n, q)" by (cases e)
  have n: "map_of rl n = None" "wf_map rl"
    using Cons.prems(1) by (auto simp: e wf_map_def map_of_eq_None_iff)
  have split: "lamount ext (e # rl) k = (if k = n \<and> counted ext n then qamount n q else lamount ext rl k)" for k
    using n(1) by (auto simp: lamount_def e)
  have zero: "lamount ext rl n = 0" using n(1) by (simp add: lamount_def)
  have a0: "0 \<le> amount r k" for k using Cons.prems(3) [rule_format, of k] by linarith
  have qn: "0 \<le> qamount n q \<and> qamount n q \<le> amount r n" if "counted ext n"
    using Cons.prems(3) [rule_format, of n] split [of n] that by simp
  have "scalarEntries ext [(n, q)] \<Longrightarrow> ScalarResources r \<noteq> None"
    using Cons.prems(4) by (auto simp: scalarEntries_def e)
  then obtain r1 where r1: "SubEntry ext e r = SubOk r1" "ScalarResources r \<noteq> None \<longrightarrow> ScalarResources r1 \<noteq> None"
      "\<And>k. amount r1 k = (if k = n \<and> counted ext n then amount r k - qamount n q else amount r k)"
    using SubEntry_ok [of r n ext q] a0 Cons.prems(2) qn by (auto simp: e)
  have "0 \<le> lamount ext rl k \<and> lamount ext rl k \<le> amount r1 k" for k
    using Cons.prems(3) [rule_format, of k] split [of k] r1(3) [of k] zero qn
    by (auto split: if_splits)
  moreover have "in64 (amount r1 k)" for k
    using Cons.prems(2) [rule_format, of k] r1(3) [of k] qn by (auto simp: in64_def split: if_splits)
  moreover have "scalarEntries ext rl \<Longrightarrow> ScalarResources r1 \<noteq> None"
    using Cons.prems(4) r1(2) by (auto simp: scalarEntries_def e)
  ultimately obtain r' where "ResourceSub ext rl r1 = SubOk r'" "\<forall>k. amount r' k = amount r1 k - lamount ext rl k"
    using Cons.IH [of r1] n(2) by blast
  then show ?case using r1 split zero by (intro exI [of _ r']) auto
qed


lemma amount_zeroResource [simp]: "amount zeroResource k = 0"
  by (simp add: amount_def zeroResource_def scalarOf_def)

lemma amount_NewResource:
  assumes "wf_map rl" "\<forall>k. 0 \<le> lamount ext rl k \<and> in64 (lamount ext rl k)"
  shows "amount (NewResource ext rl) k = lamount ext rl k"
  unfolding NewResource_def using assms amount_ResourceAdd [of rl zeroResource ext k] by simp

lemma AddEntry_scalars: "ScalarResources r \<noteq> None \<Longrightarrow> ScalarResources (AddEntry ext e r) \<noteq> None"
  by (simp add: AddEntry_def AddScalar_def SetScalar_def)

lemma ResourceAdd_scalars: "ScalarResources r \<noteq> None \<Longrightarrow> ScalarResources (ResourceAdd ext rl r) \<noteq> None"
  unfolding ResourceAdd_def by (induction rl arbitrary: r) (simp_all del: not_None_eq add: AddEntry_scalars)

lemma NewResource_scalars: "scalarEntries ext rl \<Longrightarrow> ScalarResources (NewResource ext rl) \<noteq> None"
proof -
  have "scalarEntries ext rl \<Longrightarrow> ScalarResources (ResourceAdd ext rl r) \<noteq> None" for r
  proof (induction rl arbitrary: r)
    case (Cons e rl)
    show ?case
    proof (cases "scalarEntries ext [e]")
      case True
      then have "ScalarResources (AddEntry ext e r) \<noteq> None"
        by (cases e) (auto simp: scalarEntries_def AddEntry_def AddScalar_def SetScalar_def)
      then show ?thesis using ResourceAdd_scalars by (simp add: ResourceAdd_def)
    next
      case False
      then show ?thesis using Cons by (auto simp: scalarEntries_def ResourceAdd_def)
    qed
  qed (simp add: scalarEntries_def)
  then show "scalarEntries ext rl \<Longrightarrow> ScalarResources (NewResource ext rl) \<noteq> None"
    by (simp add: NewResource_def)
qed


section \<open>Score normalisation\<close>

lemma maxCount_eq: "maxCount scores = foldl max 0 (map Score scores)"
proof -
  have "fold (\<lambda>s m. if Score s > m then Score s else m) scores a = foldl max a (map Score scores)" for a
    by (induction scores arbitrary: a) (auto simp: max_def intro: arg_cong2 [where f = "fold _"])
  then show ?thesis by (simp add: maxCount_def)
qed

lemma foldl_max_init: "(a :: int) \<le> foldl max a xs"
  by (induction xs arbitrary: a) (auto intro: order_trans [OF max.cobounded1])

lemma foldl_max_ge: "x \<in> set xs \<Longrightarrow> x \<le> foldl max (a :: int) xs"
  by (induction xs arbitrary: a) (auto intro: order_trans [OF max.cobounded2 foldl_max_init])

lemma maxCount_ge: "s \<in> set scores \<Longrightarrow> Score s \<le> maxCount scores" "0 \<le> maxCount scores"
  unfolding maxCount_eq by (auto intro: foldl_max_ge foldl_max_init)

lemma normalize_score:
  assumes "0 < M" "0 \<le> x" "x \<le> M" "0 \<le> P" "in64 (P * M)"
  shows "div64 (mul64 P x) M = P * x div M" "0 \<le> P * x div M" "P * x div M \<le> P"
proof -
  have px: "0 \<le> P * x" "P * x \<le> P * M" using assms by (auto intro: mult_left_mono)
  then have i: "in64 (P * x)" using assms(5) by (auto intro: in64_nonneg)
  then show "div64 (mul64 P x) M = P * x div M"
    using px assms(1) by (simp add: mul64_exact div64_exact)
  show "0 \<le> P * x div M" using px assms(1) by (simp add: pos_imp_zdiv_nonneg_iff)
  have "P * x div M \<le> P * M div M" using px assms(1) by (intro zdiv_mono1) auto
  then show "P * x div M \<le> P" using assms(1) by simp
qed


section \<open>Properties\<close>

text \<open>
  \<open>DefaultNormalizeScore\<close> maps non-negative scores into \<open>[0, maxPriority]\<close>, keeps the
  clusters and their order in the list, and is monotone: it preserves the ranking, and reverses it
  when asked to.
\<close>

lemma DefaultNormalizeScore_correct:
  assumes "\<forall>s \<in> set scores. 0 \<le> Score s" "0 \<le> maxPriority" "in64 maxPriority"
    and "in64 (maxPriority * maxCount scores)"
    and "out = DefaultNormalizeScore maxPriority reverse scores"
  shows "map SCluster out = map SCluster scores \<and>
      (\<forall>s \<in> set out. 0 \<le> Score s \<and> Score s \<le> maxPriority) \<and>
      (\<forall>i < length scores. \<forall>j < length scores. Score (scores ! i) \<le> Score (scores ! j) \<longrightarrow>
         (if reverse then Score (out ! j) \<le> Score (out ! i) else Score (out ! i) \<le> Score (out ! j)))"
proof (cases "maxCount scores = 0")
  case True
  then have "\<forall>s \<in> set scores. Score s = 0" using maxCount_ge(1) assms(1) by force
  then show ?thesis using True assms(2,5) by (auto simp: DefaultNormalizeScore_def)
next
  case False
  let ?M = "maxCount scores"
  have M: "0 < ?M" using False maxCount_ge(2) [of scores] by linarith
  note N = normalize_score [OF M _ _ assms(2,4)]
  have "sub64 maxPriority y = maxPriority - y" if "0 \<le> y" "y \<le> maxPriority" for y
    using that assms(3) by (intro sub64_exact) (auto simp: in64_def)
  then have out: "out = map (\<lambda>s. s\<lparr>Score := (if reverse then maxPriority - maxPriority * Score s div ?M
      else maxPriority * Score s div ?M)\<rparr>) scores"
    using assms(1,5) False N maxCount_ge(1) by (auto simp: DefaultNormalizeScore_def Let_def)
  have "maxPriority * a div ?M \<le> maxPriority * b div ?M" if "a \<le> b" for a b
    using that assms(2) M by (intro zdiv_mono1) (auto intro: mult_left_mono)
  then show ?thesis
    using assms(1) N(2,3) maxCount_ge(1) by (auto simp: out comp_def)
qed

end
