(* ===== verification/Sched_Inputs.thy ===== *)
theory Sched_Inputs
  imports Fed_Object Framework
begin

text \<open>
  What the scheduler reads besides the federated object: the propagation policy
  (\<open>types_propagationpolicy.go\<close>), the type configuration (\<open>extensions_federatedtypeconfig.go\<close>), the
  template through \<open>pkg/util/unstructured\<close>, and pod specs through \<open>pkg/util/pod\<close> and
  \<open>pkg/util/resource\<close>.  The record \<open>apimachinery\<close> holds the functions of the Kubernetes libraries that
  the code calls on a template, a quantity or a time stamp.  Decoding into Go structs, with
  case-insensitive field names, is \<open>decodeObj\<close>.
\<close>


section \<open>Model: decoding structs\<close>

type_synonym 'a fieldDecoder = "json \<Rightarrow> 'a \<Rightarrow> 'a option"

definition fieldOf :: "(string \<times> 'a fieldDecoder) list \<Rightarrow> string \<Rightarrow> 'a fieldDecoder" where
  "fieldOf flds k = (case find (\<lambda>f. keyIs (fst f) k) flds of None \<Rightarrow> (\<lambda>v a. Some a) | Some f \<Rightarrow> snd f)"

definition decodeObj :: "(string \<times> 'a fieldDecoder) list \<Rightarrow> 'a fieldDecoder" where
  "decodeObj flds j init =
     (case j of
        JNull \<Rightarrow> Some init
      | JObj ms \<Rightarrow>
          foldl (\<lambda>acc (k, v). Option.bind acc (fieldOf flds k v)) (Some init) ms
      | _ \<Rightarrow> None)"

definition strField :: "(string \<Rightarrow> 'a \<Rightarrow> 'a) \<Rightarrow> 'a fieldDecoder" where
  "strField upd j a = (case j of JNull \<Rightarrow> Some a | JStr s \<Rightarrow> Some (upd s a) | _ \<Rightarrow> None)"

definition intField :: "(int64 \<Rightarrow> 'a \<Rightarrow> 'a) \<Rightarrow> 'a fieldDecoder" where
  "intField upd j a =
     (case j of JNull \<Rightarrow> Some a | JNum n \<Rightarrow> map_option (\<lambda>v. upd v a) (parseInt n) | _ \<Rightarrow> None)"

text \<open>\<open>null\<close> makes a pointer, a map and a slice nil.\<close>

definition ptrField :: "(json \<Rightarrow> 'b option) \<Rightarrow> ('b option \<Rightarrow> 'a \<Rightarrow> 'a) \<Rightarrow> 'a fieldDecoder" where
  "ptrField dec upd j a =
     (case j of JNull \<Rightarrow> Some (upd None a) | _ \<Rightarrow> map_option (\<lambda>v. upd (Some v) a) (dec j))"

definition decodeMap :: "(json \<Rightarrow> 'b option) \<Rightarrow> json \<Rightarrow> (string, 'b) gomap option" where
  "decodeMap dec j =
     (case j of
        JNull \<Rightarrow> Some []
      | JObj ms \<Rightarrow>
          map_option (\<lambda>vs. fold (\<lambda>(k, v) m. mput k v m) (zip (map fst ms) vs) []) (those (map (dec \<circ> snd) ms))
      | _ \<Rightarrow> None)"

definition valField :: "(json \<Rightarrow> 'b option) \<Rightarrow> ('b \<Rightarrow> 'a \<Rightarrow> 'a) \<Rightarrow> 'a fieldDecoder" where
  "valField dec upd j a = map_option (\<lambda>v. upd v a) (dec j)"

text \<open>Encoding: \<open>json.Marshal\<close> sorts the keys of a map.\<close>

definition encodeInt :: "int64 \<Rightarrow> json" where
  "encodeInt n = JNum (formatInt n)"

definition encodeMap :: "('b \<Rightarrow> json) \<Rightarrow> (string, 'b) gomap \<Rightarrow> json" where
  "encodeMap enc m = JObj (map (\<lambda>(k, v). (k, enc v)) (sort_key fst m))"

text \<open>A field with \<open>omitempty\<close>.\<close>

definition omitEmpty :: "bool \<Rightarrow> string \<Rightarrow> json \<Rightarrow> (string \<times> json) list" where
  "omitEmpty isEmpty field j = (if isEmpty then [] else [(field, j)])"


section \<open>Model: policies and type configurations\<close>

record Preferences =
  PrefMinReplicas :: int64
  PrefMaxReplicas :: "int64 option"
  PrefWeight :: "int64 option"
  PrefPriority :: "int64 option"

record DesiredPlacement =
  DPCluster :: string
  DPPreferences :: Preferences

record RescheduleTrigger =
  PolicyContentChanged :: bool
  ClusterJoined :: bool
  ClusterLabelsChanged :: bool
  ClusterAPIResourcesChanged :: bool

text \<open>\<open>ReplicaRescheduling\<close> has the single field \<open>AvoidDisruption\<close>.\<close>

record ReschedulePolicy =
  DisableRescheduling :: bool
  RPTrigger :: "RescheduleTrigger option"
  ReplicaRescheduling :: "bool option"

text \<open>A \<open>metav1.Duration\<close> is a number of nanoseconds.\<close>

record PolicyAutoMigration =
  PodUnschedulableDuration :: "int64 option"
  PAMKeepUnschedulableReplicas :: bool

record PropagationPolicy =
  PolName :: string
  PolNamespace :: string
  PolSchedulingProfile :: string
  PolSchedulingMode :: string
  PolReplicasStrategy :: "string option"
  PolClusterSelector :: "(string, string) gomap"
  PolClusterAffinity :: "ClusterSelectorTerm list"
  PolTolerations :: "Toleration list"
  PolMaxClusters :: "int64 option"
  PolPlacements :: "DesiredPlacement list"
  PolDisableFollowerScheduling :: bool
  PolAutoMigration :: "PolicyAutoMigration option"
  PolReschedulePolicy :: "ReschedulePolicy option"

record FederatedTypeConfig =
  FTCName :: string
  FTCSourceType :: APIResource
  FTCReplicasSpec :: string
  FTCControllers :: PendingControllers

record metaAPIResource =
  MetaGroup :: string
  MetaVersion :: string
  MetaKind :: string
  MetaResource :: string
  MetaNamespaced :: bool

definition APIResource_Namespaced :: "APIResource \<Rightarrow> bool" where
  "APIResource_Namespaced a \<longleftrightarrow> ARScope a = ''Namespaced''"

definition apiResourceToMeta :: "APIResource \<Rightarrow> metaAPIResource" where
  "apiResourceToMeta a = \<lparr>MetaGroup = ARGroup a, MetaVersion = ARVersion a, MetaKind = ARKind a,
     MetaResource = ARPluralName a, MetaNamespaced = APIResource_Namespaced a\<rparr>"

definition GetSourceType :: "FederatedTypeConfig \<Rightarrow> metaAPIResource" where
  "GetSourceType f = apiResourceToMeta (FTCSourceType f)"

definition GetSourceTypeGVK :: "FederatedTypeConfig \<Rightarrow> string \<times> string \<times> string" where
  "GetSourceTypeGVK f = (let r = GetSourceType f in (MetaGroup r, MetaVersion r, MetaKind r))"

definition GetControllers :: "FederatedTypeConfig \<Rightarrow> PendingControllers" where
  "GetControllers f = FTCControllers f"


section \<open>Model: templates and paths\<close>

record Container =
  Limits :: ResourceList
  Requests :: ResourceList

record PodSpec =
  SpecContainers :: "Container list"
  SpecInitContainers :: "Container list"
  SpecOverhead :: ResourceList

text \<open>
  Functions of the Kubernetes libraries: unmarshalling into an \<open>Unstructured\<close>, its accessors, the
  conversion of a map into a \<open>PodSpec\<close>, \<open>Quantity.Add\<close> and \<open>Cmp\<close>, and the text form of \<open>metav1.Time\<close>.
\<close>

record TemplateMetadata = ObjectMeta +
  TMGeneration :: int64
  TMGroupVersionKind :: "string \<times> string \<times> string"

record apimachinery =
  UnmarshalUnstructured :: "json \<Rightarrow> string + json"
  UnmarshalMetadata :: "json \<Rightarrow> string + TemplateMetadata"
  NestedInt64 :: "json \<Rightarrow> string list \<Rightarrow> string + int64 option"
  SetNestedInt64 :: "json \<Rightarrow> int64 \<Rightarrow> string list \<Rightarrow> string + json"
  RemoveNestedField :: "json \<Rightarrow> string list \<Rightarrow> json"
  NestedMap :: "json \<Rightarrow> string list \<Rightarrow> string + json option"
  PodSpecFromUnstructured :: "json \<Rightarrow> string + PodSpec"
  UnsMeta :: "json \<Rightarrow> ObjectMeta"
  QuantityAdd :: "Quantity \<Rightarrow> Quantity \<Rightarrow> Quantity"
  QuantityCmp :: "Quantity \<Rightarrow> Quantity \<Rightarrow> int"
  FormatTime :: "int \<Rightarrow> string"
  ParseTime :: "string \<Rightarrow> int option"

definition GetTemplateAsUnstructured :: "apimachinery \<Rightarrow> 'a FedObject_scheme \<Rightarrow> string + json" where
  "GetTemplateAsUnstructured k8s fedObject =
     UnmarshalUnstructured k8s (FTemplate fedObject)"

definition GetTemplateMetadata :: "apimachinery \<Rightarrow> 'a FedObject_scheme \<Rightarrow> string + TemplateMetadata" where
  "GetTemplateMetadata k8s fedObject = UnmarshalMetadata k8s (FTemplate fedObject)"

fun splitOn :: "char \<Rightarrow> string \<Rightarrow> string \<Rightarrow> string list" where
  "splitOn sep [] acc = [acc]"
| "splitOn sep (c # s) acc = (if c = sep then acc # splitOn sep s [] else splitOn sep s (acc @ [c]))"

definition strSplit :: "char \<Rightarrow> string \<Rightarrow> string list" where
  "strSplit sep s = splitOn sep s []"

definition SplitDotPath :: "string \<Rightarrow> string list \<Rightarrow> string list" where
  "SplitDotPath dotPath prefixFields = prefixFields @ filter (\<lambda>c. c \<noteq> []) (strSplit CHR ''.'' dotPath)"

definition ToSlashPath :: "string \<Rightarrow> string" where
  "ToSlashPath dotPath = ''/'' @ joinStr ''/'' (SplitDotPath dotPath [])"

definition GetInt64FromPath :: "apimachinery \<Rightarrow> json \<Rightarrow> string \<Rightarrow> string list \<Rightarrow> string + int64 option" where
  "GetInt64FromPath k8s val path prefixFields =
     (case NestedInt64 k8s val (SplitDotPath path prefixFields) of
        Inl err \<Rightarrow> Inl (''cannot access ['' @ joinStr '' '' prefixFields @ '']: '' @ err)
      | Inr v \<Rightarrow> Inr v)"

definition SetInt64FromPath ::
    "apimachinery \<Rightarrow> json \<Rightarrow> string \<Rightarrow> int64 option \<Rightarrow> string list \<Rightarrow> string + json" where
  "SetInt64FromPath k8s val path replicas prefixFields =
     (let pathSegments = SplitDotPath path prefixFields in
      case replicas of
        Some n \<Rightarrow>
          (case SetNestedInt64 k8s val n pathSegments of
             Inl err \<Rightarrow> Inl (''cannot set ['' @ joinStr '' '' prefixFields @ '']: '' @ err)
           | Inr v \<Rightarrow> Inr v)
      | None \<Rightarrow> Inr (RemoveNestedField k8s val pathSegments))"


section \<open>Model: pod resource requests\<close>

definition AddResources :: "apimachinery \<Rightarrow> ResourceList \<Rightarrow> ResourceList \<Rightarrow> ResourceList" where
  "AddResources k8s src dest =
     fold (\<lambda>(k, v) d.
             (case map_of d k of
                Some prevVal \<Rightarrow> mput k (QuantityAdd k8s prevVal v) d
              | None \<Rightarrow> mput k v d)) src dest"

definition MaxResources :: "apimachinery \<Rightarrow> ResourceList \<Rightarrow> ResourceList \<Rightarrow> ResourceList" where
  "MaxResources k8s src dst =
     fold (\<lambda>(name, srcQuantity) d.
             (case map_of d name of
                Some dstQuantity \<Rightarrow> if QuantityCmp k8s srcQuantity dstQuantity > 0 then mput name srcQuantity d else d
              | None \<Rightarrow> mput name srcQuantity d)) src dst"

definition MergeResources :: "ResourceList \<Rightarrow> ResourceList \<Rightarrow> ResourceList" where
  "MergeResources src dst = fold (\<lambda>(k, v) d. mput k v d) src dst"

definition containerRequests :: "apimachinery \<Rightarrow> Container \<Rightarrow> ResourceList \<Rightarrow> ResourceList" where
  "containerRequests k8s c reqs =
     AddResources k8s (Requests c)
       (fold (\<lambda>(resourceName, resourceLimits) d.
                if map_of (Requests c) resourceName = None
                then AddResources k8s [(resourceName, resourceLimits)] d else d) (Limits c) reqs)"

definition GetPodResourceRequests :: "apimachinery \<Rightarrow> PodSpec \<Rightarrow> ResourceList" where
  "GetPodResourceRequests k8s podSpec =
     (let reqs = fold (containerRequests k8s) (SpecContainers podSpec) [];
          reqs1 = fold (\<lambda>c. MaxResources k8s (Requests c)) (SpecInitContainers podSpec) reqs
      in AddResources k8s (SpecOverhead podSpec) reqs1)"

definition PodSpecPaths :: "(string \<times> string, string) gomap" where
  "PodSpecPaths =
     [((''apps'', ''Deployment''), ''spec.template.spec''),
      ((''apps'', ''StatefulSet''), ''spec.template.spec''),
      ((''apps'', ''DaemonSet''), ''spec.template.spec''),
      ((''batch'', ''Job''), ''spec.template.spec''),
      ((''batch'', ''CronJob''), ''spec.jobTemplate.spec.template.spec''),
      (([], ''Pod''), ''spec'')]"

definition getPodSpecFromUnstructuredObj :: "apimachinery \<Rightarrow> json \<Rightarrow> string \<Rightarrow> string + PodSpec" where
  "getPodSpecFromUnstructuredObj k8s uns podSpecPath =
     (case NestedMap k8s uns (strSplit CHR ''.'' podSpecPath) of
        Inl err \<Rightarrow> Inl err
      | Inr None \<Rightarrow> Inl (''pod spec does not exist at path '' @ quoteStr podSpecPath)
      | Inr (Some m) \<Rightarrow> PodSpecFromUnstructured k8s m)"

definition GetPodSpec :: "apimachinery \<Rightarrow> 'a FedObject_scheme option \<Rightarrow> string \<Rightarrow> string + PodSpec" where
  "GetPodSpec k8s fedObject podSpecPath =
     (case fedObject of
        None \<Rightarrow> Inl ''fedObject is nil''
      | Some obj \<Rightarrow>
          (case GetTemplateAsUnstructured k8s obj of
             Inl err \<Rightarrow> Inl err
           | Inr uns \<Rightarrow> getPodSpecFromUnstructuredObj k8s uns podSpecPath))"

datatype podSpecError = ErrUnknownTypeToGetPodSpec | PodSpecError string

definition GetResourcePodSpec ::
    "apimachinery \<Rightarrow> 'a FedObject_scheme \<Rightarrow> string \<times> string \<times> string \<Rightarrow> podSpecError + PodSpec" where
  "GetResourcePodSpec k8s fedObject = (\<lambda>(group, version, kind).
     case map_of PodSpecPaths (group, kind) of
       None \<Rightarrow> Inl ErrUnknownTypeToGetPodSpec
     | Some path \<Rightarrow>
         (case GetPodSpec k8s (Some fedObject) path of Inl err \<Rightarrow> Inl (PodSpecError err) | Inr p \<Rightarrow> Inr p))"

definition getResourceRequest ::
    "apimachinery \<Rightarrow> externs \<Rightarrow> FederatedTypeConfig \<Rightarrow> 'a FedObject_scheme \<Rightarrow> string + Resource" where
  "getResourceRequest k8s ext ftc fedObject =
     (case GetResourcePodSpec k8s fedObject (GetSourceTypeGVK ftc) of
        Inl ErrUnknownTypeToGetPodSpec \<Rightarrow> Inr zeroResource
      | Inl (PodSpecError err) \<Rightarrow> Inl err
      | Inr podSpec \<Rightarrow> Inr (NewResource ext (GetPodResourceRequests k8s podSpec)))"


section \<open>Model: annotation names and policy keys\<close>

definition PropagationPolicyNameLabel :: string where
  "PropagationPolicyNameLabel = DefaultPrefix @ ''propagation-policy-name''"

definition ClusterPropagationPolicyNameLabel :: string where
  "ClusterPropagationPolicyNameLabel = DefaultPrefix @ ''cluster-propagation-policy-name''"

definition PrefixedGlobalSchedulerName :: string where
  "PrefixedGlobalSchedulerName = DefaultPrefix @ ''global-scheduler''"

definition AutoMigrationInfoAnnotation :: string where
  "AutoMigrationInfoAnnotation = DefaultPrefix @ ''auto-migration-info''"

definition AppliedMigrationConfigurationAnnotation :: string where
  "AppliedMigrationConfigurationAnnotation = DefaultPrefix @ ''applied-migration-configuration''"

definition GetMatchedPolicyKey :: "'a ObjectMeta_scheme \<Rightarrow> (string \<times> string) option" where
  "GetMatchedPolicyKey obj =
     (let isNamespaced = length (MNamespace obj) > 0 in
      case (map_of (MLabels obj) PropagationPolicyNameLabel, isNamespaced) of
        (Some policyName, True) \<Rightarrow> Some (MNamespace obj, policyName)
      | _ \<Rightarrow>
          (case map_of (MLabels obj) ClusterPropagationPolicyNameLabel of
             Some policyName \<Rightarrow> Some ([], policyName)
           | None \<Rightarrow> None))"


section \<open>Example values\<close>

text \<open>Library functions on JSON values and example objects, for the witnesses.\<close>

fun jsonAt :: "json \<Rightarrow> string list \<Rightarrow> json option" where
  "jsonAt j [] = Some j"
| "jsonAt (JObj ms) (k # ks) = Option.bind (map_of ms k) (\<lambda>j. jsonAt j ks)"
| "jsonAt _ (k # ks) = None"

fun jsonPut :: "json option \<Rightarrow> json \<Rightarrow> string list \<Rightarrow> json" where
  "jsonPut j v [] = v"
| "jsonPut (Some (JObj ms)) v (k # ks) = JObj (mput k (jsonPut (map_of ms k) v ks) ms)"
| "jsonPut _ v (k # ks) = JObj [(k, jsonPut None v ks)]"

fun jsonDel :: "json \<Rightarrow> string list \<Rightarrow> json" where
  "jsonDel (JObj ms) [k] = JObj (mdel k ms)"
| "jsonDel (JObj ms) (k # k' # ks) =
     (case map_of ms k of None \<Rightarrow> JObj ms | Some j \<Rightarrow> JObj (mput k (jsonDel j (k' # ks)) ms))"
| "jsonDel j _ = j"

definition jsonString :: "json \<Rightarrow> string list \<Rightarrow> string" where
  "jsonString j path = (case jsonAt j path of Some (JStr s) \<Rightarrow> s | _ \<Rightarrow> [])"

definition sampleUnsMeta :: "json \<Rightarrow> ObjectMeta" where
  "sampleUnsMeta j = \<lparr>MName = jsonString j [''metadata'', ''name''], MNamespace = jsonString j [''metadata'', ''namespace''],
     MLabels = [], MAnnotations = [], MFinalizers = []\<rparr>"

definition sampleK8s :: apimachinery where
  "sampleK8s = \<lparr>UnmarshalUnstructured = Inr,
     UnmarshalMetadata = (\<lambda>j. Inr (ObjectMeta.extend (sampleUnsMeta j)
       \<lparr>TMGeneration = 1, TMGroupVersionKind = (''apps'', ''v1'', ''Deployment'')\<rparr>)),
     NestedInt64 = (\<lambda>j path. case jsonAt j path of
         None \<Rightarrow> Inr None
       | Some (JNum n) \<Rightarrow> (case parseInt n of Some v \<Rightarrow> Inr (Some v) | None \<Rightarrow> Inl ''not an int64'')
       | Some _ \<Rightarrow> Inl ''not an int64''),
     SetNestedInt64 = (\<lambda>j n path. Inr (jsonPut (Some j) (encodeInt n) path)),
     RemoveNestedField = jsonDel,
     NestedMap = (\<lambda>j path. case jsonAt j path of
         None \<Rightarrow> Inr None | Some (JObj ms) \<Rightarrow> Inr (Some (JObj ms)) | Some _ \<Rightarrow> Inl ''not a map''),
     PodSpecFromUnstructured = (\<lambda>_. Inr \<lparr>SpecContainers = [\<lparr>Limits = [],
       Requests = [(''cpu'', \<lparr>MilliValue = 500, Value = 1\<rparr>)]\<rparr>], SpecInitContainers = [], SpecOverhead = []\<rparr>),
     UnsMeta = sampleUnsMeta,
     QuantityAdd = (\<lambda>a b. \<lparr>MilliValue = add64 (MilliValue a) (MilliValue b), Value = add64 (Value a) (Value b)\<rparr>),
     QuantityCmp = (\<lambda>a b. MilliValue a - MilliValue b),
     FormatTime = formatInt, ParseTime = parseInt\<rparr>"

definition ftcSample :: FederatedTypeConfig where
  "ftcSample = \<lparr>FTCName = ''deployments.apps'',
     FTCSourceType = \<lparr>ARGroup = ''apps'', ARVersion = ''v1'', ARKind = ''Deployment'', ARPluralName = ''deployments'',
       ARScope = ''Namespaced''\<rparr>,
     FTCReplicasSpec = ''spec.replicas'',
     FTCControllers = [[PrefixedGlobalSchedulerName], [DefaultPrefix @ ''follower-controller'']]\<rparr>"

definition fedSample :: FedObject where
  "fedSample = \<lparr>MName = ''web-deployments.apps'', MNamespace = ''ns'',
     MLabels = [(PropagationPolicyNameLabel, ''p'')],
     MAnnotations = [(PendingControllersAnnotation, encodeControllers (FTCControllers ftcSample))], MFinalizers = [],
     FTemplate = JObj [(''metadata'', JObj [(''name'', JStr ''web''), (''namespace'', JStr ''ns'')]),
       (''spec'', JObj [(''replicas'', encodeInt 3), (''template'', JObj [(''spec'', JObj [])])])],
     Placements = [], Overrides = []\<rparr>"


section \<open>Shared facts\<close>

lemma wf_map_sort_key: "wf_map m \<Longrightarrow> wf_map (sort_key fst m)"
proof -
  assume "wf_map m"
  then have "distinct (map fst m)" by (simp add: wf_map_def mkeys_def)
  moreover have "mset (map fst (sort_key fst m)) = mset (map fst m)" by simp
  ultimately show ?thesis by (metis mset_eq_imp_distinct_iff wf_map_def)
qed

lemma map_of_sort_key: "wf_map m \<Longrightarrow> map_of (sort_key fst m) = map_of m"
proof
  fix k
  assume wf: "wf_map m"
  have "map_of (sort_key fst m) k = Some v \<longleftrightarrow> map_of m k = Some v" for v
    using wf wf_map_sort_key [OF wf] by (simp add: map_of_eq_Some_iff wf_map_def mkeys_def)
  then show "map_of (sort_key fst m) k = map_of m k" by (metis option.exhaust)
qed

lemma fold_mput_append:
  "distinct (map fst ms) \<Longrightarrow> set (map fst ms) \<inter> set (mkeys m) = {} \<Longrightarrow> fold (\<lambda>(k, v) m. mput k v m) ms m = m @ ms"
proof (induction ms arbitrary: m)
  case (Cons kv ms)
  obtain k v where kv: "kv = (k, v)" by fastforce
  have "mput k v m = m @ [(k, v)]" using Cons.prems by (intro mput_fresh) (auto simp: kv)
  then show ?case using Cons by (auto simp: kv)
qed simp

lemma decode_encodeMap:
  assumes "wf_map m" "\<And>v. v \<in> set (mvals m) \<Longrightarrow> dec (enc v) = Some v"
  shows "decodeMap dec (encodeMap enc m) = Some (sort_key fst m)"
proof -
  let ?s = "sort_key fst m"
  have "dec (enc v) = Some v" if "(k, v) \<in> set m" for k v
    using assms(2) that by (force simp: mvals_def)
  then have 1: "map (dec \<circ> snd) (map (\<lambda>(k, v). (k, enc v)) ?s) = map Some (map snd ?s)"
    by auto
  have 2: "those (map Some xs) = Some xs" for xs :: "'a list" by (induction xs) auto
  have 3: "zip (map fst (map (\<lambda>(k, v). (k, enc v)) ?s)) (map snd ?s) = ?s"
    by (simp add: zip_map_fst_snd comp_def case_prod_beta)
  have 4: "fold (\<lambda>(k, v) m. mput k v m) ?s [] = ?s"
    using fold_mput_append [of ?s "[]"] wf_map_sort_key [OF assms(1)] by (simp add: wf_map_def)
  show ?thesis unfolding decodeMap_def encodeMap_def json.case 1 2 option.map 3 4 ..
qed

lemma decodeObj_JObj:
  "decodeObj flds (JObj ms) init =
     foldl (\<lambda>acc (k, v). Option.bind acc (fieldOf flds k v)) (Some init) ms"
  by (simp add: decodeObj_def)

lemma ptrField_encodeMap:
  "ptrField d u (encodeMap enc m) a = map_option (\<lambda>v. u (Some v) a) (d (encodeMap enc m))"
  by (simp add: ptrField_def encodeMap_def)

lemma intJson_encode [simp]:
  "intJson (encodeInt n)" "intJson (encodeStrings xs)"
  "(\<And>v. intJson (enc v)) \<Longrightarrow> intJson (encodeMap enc m)"
  by (auto simp: encodeInt_def encodeStrings_def encodeMap_def)

end
