(* ===== verification/Version_Manager.thy ===== *)
theory Version_Manager
  imports Sched_Inputs
begin

text \<open>
  The versions that the sync controller remembers, \<open>pkg/controllers/sync/propagatedversion\<close> and
  \<open>pkg/controllers/sync/version\<close>.  A member object is what the metadata accessors of its unstructured object
  return, and the rest of the document.  A call on the API server is answered from a list of rounds, one
  per iteration of the polling loop; when the list is used up the loop has timed out.
\<close>


section \<open>Model: object versions\<close>

record MemberObject = ObjectMeta +
  UGeneration :: int64
  UResourceVersion :: string
  UDeletionTimestamp :: "int option"
  UBody :: json

definition generationPrefix :: string where
  "generationPrefix = ''gen:''"

definition resourceVersionPrefix :: string where
  "resourceVersionPrefix = ''rv:''"

definition ObjectVersion :: "MemberObject \<Rightarrow> string" where
  "ObjectVersion clusterObj =
     (if UGeneration clusterObj \<noteq> 0 then generationPrefix @ formatInt (UGeneration clusterObj)
      else resourceVersionPrefix @ UResourceVersion clusterObj)"

definition ObjectNeedsUpdate :: "MemberObject \<Rightarrow> MemberObject \<Rightarrow> string \<Rightarrow> bool" where
  "ObjectNeedsUpdate desiredObj clusterObj recordedVersion =
     (let targetVersion = ObjectVersion clusterObj in
      if recordedVersion \<noteq> targetVersion then True
      else hasPrefix targetVersion generationPrefix \<and> \<not> ObjectMetaObjEquivalent desiredObj clusterObj)"

definition trimPrefix :: "string \<Rightarrow> string \<Rightarrow> string" where
  "trimPrefix s p = (if hasPrefix s p then drop (length p) s else s)"

definition ConvertVersionMapToGenerationMap :: "(string, string) gomap \<Rightarrow> (string, int64) gomap" where
  "ConvertVersionMapToGenerationMap versionMap =
     fold (\<lambda>(key, version) generationMap.
       if hasPrefix version resourceVersionPrefix then mput key 0 generationMap
       else if \<not> hasPrefix version generationPrefix then generationMap
       else case parseInt (trimPrefix version generationPrefix) of
         None \<Rightarrow> generationMap
       | Some generation \<Rightarrow> mput key generation generationMap) versionMap []"


section \<open>Model: propagated versions\<close>

record ClusterObjectVersion =
  CVCluster :: string
  CVVersion :: string

text \<open>A \<open>nil\<close> slice of cluster versions is \<open>None\<close>: \<open>reflect.DeepEqual\<close> tells it from an empty one.\<close>

record PropagatedVersionStatus =
  PVTemplateVersion :: string
  PVOverrideVersion :: string
  PVClusterVersions :: "ClusterObjectVersion list option"

record OwnerReference =
  OwnerAPIVersion :: string
  OwnerKind :: string
  OwnerName :: string
  OwnerUID :: string

record PropagatedVersion =
  PVName :: string
  PVNamespace :: string
  PVResourceVersion :: string
  PVOwnerReferences :: "OwnerReference list"
  PVStatus :: PropagatedVersionStatus

definition SortClusterVersions :: "ClusterObjectVersion list \<Rightarrow> ClusterObjectVersion list" where
  "SortClusterVersions versions = sort_key CVCluster versions"

definition PropagatedVersionStatusEquivalent :: "PropagatedVersionStatus \<Rightarrow> PropagatedVersionStatus \<Rightarrow> bool" where
  "PropagatedVersionStatusEquivalent pvs1 pvs2 \<longleftrightarrow>
     PVTemplateVersion pvs1 = PVTemplateVersion pvs2 \<and> PVOverrideVersion pvs1 = PVOverrideVersion pvs2 \<and>
     PVClusterVersions pvs1 = PVClusterVersions pvs2"

definition VersionMapToClusterVersions :: "(string, string) gomap \<Rightarrow> ClusterObjectVersion list" where
  "VersionMapToClusterVersions versionMap =
     SortClusterVersions (map (\<lambda>(clusterName, version). \<lparr>CVCluster = clusterName, CVVersion = version\<rparr>)
       (filter (\<lambda>(clusterName, version). version \<noteq> []) versionMap))"

definition updateClusterVersions ::
    "ClusterObjectVersion list \<Rightarrow> (string, string) gomap \<Rightarrow> string list \<Rightarrow> ClusterObjectVersion list" where
  "updateClusterVersions oldVersions newVersions selectedClusters =
     VersionMapToClusterVersions (fold (\<lambda>oldVersion vs.
       if CVCluster oldVersion \<notin> set selectedClusters then vs
       else if map_of vs (CVCluster oldVersion) = None then mput (CVCluster oldVersion) (CVVersion oldVersion) vs
       else vs) oldVersions newVersions)"


section \<open>Model: the version manager\<close>

definition QualifiedName_String :: "string \<times> string \<Rightarrow> string" where
  "QualifiedName_String n = (if length (fst n) = 0 then snd n else fst n @ ''/'' @ snd n)"

text \<open>\<open>VersionedResource\<close>: the results of its methods.\<close>

record VersionedResource =
  FederatedName :: "string \<times> string"
  TemplateVersion :: "string + string"
  OverrideVersion :: "string + string"
  FederatedGVK :: "string \<times> string"
  ResourceUID :: string

record VersionManager =
  vmVersions :: "(string, PropagatedVersion) gomap"
  vmHasSynced :: bool

definition NewVersionManager :: VersionManager where
  "NewVersionManager = \<lparr>vmVersions = [], vmHasSynced = False\<rparr>"

definition NewVersion :: "string \<times> string \<Rightarrow> OwnerReference \<Rightarrow> PropagatedVersionStatus \<Rightarrow> PropagatedVersion" where
  "NewVersion qualifiedName ownerReference status =
     \<lparr>PVName = snd qualifiedName, PVNamespace = fst qualifiedName, PVResourceVersion = [],
      PVOwnerReferences = [ownerReference], PVStatus = status\<rparr>"

definition ownerReferenceForFederatedObject :: "VersionedResource \<Rightarrow> OwnerReference" where
  "ownerReferenceForFederatedObject resource =
     \<lparr>OwnerAPIVersion = fst (FederatedGVK resource), OwnerKind = snd (FederatedGVK resource),
      OwnerName = snd (FederatedName resource), OwnerUID = ResourceUID resource\<rparr>"

definition versionKey :: "VersionedResource \<Rightarrow> string" where
  "versionKey resource = QualifiedName_String (FederatedName resource)"

definition clusterVersionsOf :: "PropagatedVersionStatus \<Rightarrow> ClusterObjectVersion list" where
  "clusterVersionsOf status = (case PVClusterVersions status of None \<Rightarrow> [] | Some vs \<Rightarrow> vs)"

definition Get_versions :: "VersionManager \<Rightarrow> VersionedResource \<Rightarrow> string + (string, string) gomap" where
  "Get_versions m resource =
     (case map_of (vmVersions m) (versionKey resource) of
        None \<Rightarrow> Inr []
      | Some obj \<Rightarrow>
          let status = PVStatus obj in
          (case TemplateVersion resource of
             Inl err \<Rightarrow> Inl (''Failed to determine template version: '' @ err)
           | Inr templateVersion \<Rightarrow>
               (case OverrideVersion resource of
                  Inl err \<Rightarrow> Inl (''Failed to determine override version: '' @ err)
                | Inr overrideVersion \<Rightarrow>
                    Inr (if templateVersion = PVTemplateVersion status \<and> overrideVersion = PVOverrideVersion status
                         then fold (\<lambda>versions versionMap. mput (CVCluster versions) (CVVersion versions) versionMap)
                                (clusterVersionsOf status) []
                         else []))))"

datatype apiError = IsAlreadyExists | IsConflict | IsNotFound | IsForbidden | IsNoMatch | IsInvalid | IsServerTimeout | OtherError

text \<open>The answers that one round of \<open>writeVersion\<close> gets: the resource version of the object, or an error.\<close>

record writeRound =
  GetAnswer :: "apiError + string"
  CreateAnswer :: "apiError + string"
  UpdateStatusAnswer :: "apiError + string"

datatype versionCall = CreateVersion PropagatedVersion | UpdateVersionStatus PropagatedVersion

text \<open>The end of a round: the status is sent with the resource version at hand.\<close>

datatype roundEnd = Retry string bool | Failed apiError | Written string

definition updateStatusRound :: "writeRound \<Rightarrow> PropagatedVersion \<Rightarrow> string \<Rightarrow> versionCall list \<times> roundEnd" where
  "updateStatusRound round obj resourceVersion =
     ([UpdateVersionStatus (obj\<lparr>PVResourceVersion := resourceVersion\<rparr>)],
      (case UpdateStatusAnswer round of
         Inl IsConflict \<Rightarrow> Retry resourceVersion True
       | Inl IsNotFound \<Rightarrow> Retry [] False
       | Inl IsForbidden \<Rightarrow> Failed IsForbidden
       | Inl err \<Rightarrow> Retry resourceVersion False
       | Inr rv \<Rightarrow> Written rv))"

definition writeRoundStep :: "writeRound \<Rightarrow> PropagatedVersion \<Rightarrow> string \<Rightarrow> bool \<Rightarrow> versionCall list \<times> roundEnd" where
  "writeRoundStep round obj resourceVersion refreshVersion =
     (case (if refreshVersion then GetAnswer round else Inr resourceVersion) of
        Inl err \<Rightarrow> ([], Retry [] refreshVersion)
      | Inr rv \<Rightarrow>
          if rv = [] then
            (case CreateAnswer round of
               Inl IsAlreadyExists \<Rightarrow> ([CreateVersion (obj\<lparr>PVResourceVersion := []\<rparr>)], Retry rv True)
             | Inl IsForbidden \<Rightarrow> ([CreateVersion (obj\<lparr>PVResourceVersion := []\<rparr>)], Failed IsForbidden)
             | Inl err \<Rightarrow> ([CreateVersion (obj\<lparr>PVResourceVersion := []\<rparr>)], Retry rv False)
             | Inr created \<Rightarrow>
                 (let (calls, r) = updateStatusRound round obj created
                  in (CreateVersion (obj\<lparr>PVResourceVersion := []\<rparr>) # calls, r)))
          else updateStatusRound round obj rv)"

fun writeVersionLoop ::
    "PropagatedVersion \<Rightarrow> writeRound list \<Rightarrow> string \<Rightarrow> bool \<Rightarrow> versionCall list \<times> (string + string)" where
  "writeVersionLoop obj [] resourceVersion refreshVersion = ([], Inl ''timed out waiting for the condition'')"
| "writeVersionLoop obj (round # rounds) resourceVersion refreshVersion =
     (case writeRoundStep round obj resourceVersion refreshVersion of
        (calls, Retry rv refresh) \<Rightarrow>
          (let (calls', r) = writeVersionLoop obj rounds rv refresh in (calls @ calls', r))
      | (calls, Failed err) \<Rightarrow> (calls, Inl ''forbidden'')
      | (calls, Written rv) \<Rightarrow> (calls, Inr rv))"

text \<open>
  \<open>writeVersion\<close> returns the object, whose resource version it sets after a successful update, the
  calls and the error.
\<close>

definition writeVersion ::
    "writeRound list \<Rightarrow> PropagatedVersion \<Rightarrow> PropagatedVersion \<times> versionCall list \<times> string option" where
  "writeVersion rounds obj =
     (case writeVersionLoop obj rounds (PVResourceVersion obj) False of
        (calls, Inl err) \<Rightarrow> (obj, calls, Some (''Failed to write the version map to the API: '' @ err))
      | (calls, Inr rv) \<Rightarrow> (obj\<lparr>PVResourceVersion := rv\<rparr>, calls, None))"

definition newVersionStatus ::
    "PropagatedVersion option \<Rightarrow> string \<Rightarrow> string \<Rightarrow> string list \<Rightarrow> (string, string) gomap \<Rightarrow> PropagatedVersionStatus" where
  "newVersionStatus old templateVersion overrideVersion selectedClusters versionMap =
     \<lparr>PVTemplateVersion = templateVersion, PVOverrideVersion = overrideVersion, PVClusterVersions = Some (
        case old of
          None \<Rightarrow> VersionMapToClusterVersions versionMap
        | Some obj \<Rightarrow>
            let oldStatus = PVStatus obj in
            updateClusterVersions
              (if PVTemplateVersion oldStatus = templateVersion \<and> PVOverrideVersion oldStatus = overrideVersion
               then clusterVersionsOf oldStatus else [])
              versionMap selectedClusters)\<rparr>"

definition Update_versions ::
    "writeRound list \<Rightarrow> VersionManager \<Rightarrow> VersionedResource \<Rightarrow> string list \<Rightarrow> (string, string) gomap
     \<Rightarrow> VersionManager \<times> versionCall list \<times> string option" where
  "Update_versions rounds m resource selectedClusters versionMap =
     (case TemplateVersion resource of
        Inl err \<Rightarrow> (m, [], Some (''Failed to determine template version: '' @ err))
      | Inr templateVersion \<Rightarrow>
     (case OverrideVersion resource of
        Inl err \<Rightarrow> (m, [], Some (''Failed to determine override version: '' @ err))
      | Inr overrideVersion \<Rightarrow>
          let key = versionKey resource;
              old = map_of (vmVersions m) key;
              status = newVersionStatus old templateVersion overrideVersion selectedClusters versionMap
          in if (case old of None \<Rightarrow> False | Some obj \<Rightarrow> PropagatedVersionStatusEquivalent (PVStatus obj) status)
             then (m, [], None)
             else
               let obj = (case old of
                     None \<Rightarrow> NewVersion (FederatedName resource) (ownerReferenceForFederatedObject resource) status
                   | Some obj \<Rightarrow> obj\<lparr>PVStatus := status\<rparr>);
                   (obj', calls, err) = writeVersion rounds obj
               in (m\<lparr>vmVersions := mput key obj' (vmVersions m)\<rparr>, calls, err)))"

definition Delete_versions :: "VersionManager \<Rightarrow> string \<times> string \<Rightarrow> VersionManager" where
  "Delete_versions m qualifiedName = m\<lparr>vmVersions := mdel (QualifiedName_String qualifiedName) (vmVersions m)\<rparr>"

text \<open>\<open>load\<close>; a \<open>False\<close> in \<open>running\<close> is a stop channel that is closed when the loop gets there.\<close>

fun loadVersions :: "(PropagatedVersion \<times> bool) list \<Rightarrow> VersionManager \<Rightarrow> VersionManager \<times> bool" where
  "loadVersions [] m = (m\<lparr>vmHasSynced := True\<rparr>, True)"
| "loadVersions ((obj, running) # objs) m =
     (if \<not> running then (m, False)
      else loadVersions objs
        (m\<lparr>vmVersions := mput (QualifiedName_String (PVNamespace obj, PVName obj)) obj (vmVersions m)\<rparr>))"


section \<open>Statement vocabulary\<close>

text \<open>No stored object names a cluster twice.\<close>

definition versions_ok :: "VersionManager \<Rightarrow> bool" where
  "versions_ok m \<longleftrightarrow> list_all (\<lambda>(k, obj). distinct (map CVCluster (clusterVersionsOf (PVStatus obj)))) (vmVersions m) \<and> wf_map (vmVersions m)"

definition nonEmpty :: "string option \<Rightarrow> string option" where
  "nonEmpty v = (case v of Some [] \<Rightarrow> None | _ \<Rightarrow> v)"

text \<open>The generation in a recorded version.\<close>

definition versionGeneration :: "string \<Rightarrow> int64 option" where
  "versionGeneration version =
     (if hasPrefix version resourceVersionPrefix then Some 0
      else if \<not> hasPrefix version generationPrefix then None
      else parseInt (trimPrefix version generationPrefix))"

text \<open>What is remembered of a cluster after an update: a new version, unless it is empty, or else the old one of a selected cluster.\<close>

definition rememberedVersion :: "(string, string) gomap \<Rightarrow> string list \<Rightarrow> (string, string) gomap \<Rightarrow> string \<Rightarrow> string option" where
  "rememberedVersion old selectedClusters new c =
     nonEmpty (case map_of new c of Some v \<Rightarrow> Some v | None \<Rightarrow> if c \<in> set selectedClusters then map_of old c else None)"

definition callStatus :: "versionCall \<Rightarrow> PropagatedVersionStatus" where
  "callStatus call = (case call of CreateVersion obj \<Rightarrow> PVStatus obj | UpdateVersionStatus obj \<Rightarrow> PVStatus obj)"

text \<open>Example values for the witnesses.\<close>

definition versionedSample :: VersionedResource where
  "versionedSample = \<lparr>FederatedName = (''ns'', ''web''), TemplateVersion = Inr ''t1'', OverrideVersion = Inr ''o1'',
     FederatedGVK = (''core.kubeadmiral.io/v1alpha1'', ''FederatedObject''), ResourceUID = ''u''\<rparr>"

definition managerSample :: VersionManager where
  "managerSample = fst (Update_versions [] NewVersionManager versionedSample [''A'', ''B''] [(''A'', ''gen:1''), (''B'', ''gen:4'')])"


section \<open>Object versions\<close>

lemma hasPrefix_append [simp]: "hasPrefix (p @ s) p"
  by (simp add: hasPrefix_def)

lemma trimPrefix_append [simp]: "trimPrefix (p @ s) p = s"
  by (simp add: trimPrefix_def)

lemma prefixes_differ: "\<not> hasPrefix (generationPrefix @ s) resourceVersionPrefix" "\<not> hasPrefix (resourceVersionPrefix @ s) generationPrefix"
  by (simp_all add: hasPrefix_def generationPrefix_def resourceVersionPrefix_def)

lemma ObjectVersion_nonempty: "ObjectVersion obj \<noteq> []"
  by (simp add: ObjectVersion_def generationPrefix_def resourceVersionPrefix_def)

lemma versionGeneration_ObjectVersion: "in64 (UGeneration obj) \<Longrightarrow> versionGeneration (ObjectVersion obj) = Some (UGeneration obj)"
  by (simp add: versionGeneration_def ObjectVersion_def prefixes_differ parseInt_formatInt)

lemma ConvertVersionMap_fold:
  "ConvertVersionMapToGenerationMap versionMap =
     fold (\<lambda>(key, version) g. case versionGeneration version of None \<Rightarrow> g | Some n \<Rightarrow> mput key n g) versionMap []"
  unfolding ConvertVersionMapToGenerationMap_def versionGeneration_def
  by (rule arg_cong [where f = "\<lambda>f. fold f versionMap []"]) (auto simp: fun_eq_iff split: option.splits)

lemma map_of_convertFold:
  "wf_map vs \<Longrightarrow> set (mkeys vs) \<inter> set (mkeys g) = {} \<Longrightarrow>
   map_of (fold (\<lambda>(key, version) g. case versionGeneration version of None \<Rightarrow> g | Some n \<Rightarrow> mput key n g) vs g) k =
     (case map_of vs k of None \<Rightarrow> map_of g k | Some v \<Rightarrow> versionGeneration v)"
proof (induction vs arbitrary: g)
  case (Cons p vs)
  obtain key v where p: "p = (key, v)" by fastforce
  have n: "map_of vs key = None" "wf_map vs" using Cons.prems(1) by (auto simp: p wf_map_def map_of_eq_None_iff)
  have g: "map_of g key = None" using Cons.prems(2) by (auto simp: p mkeys_def map_of_eq_None_iff)
  let ?g = "case versionGeneration v of None \<Rightarrow> g | Some n \<Rightarrow> mput key n g"
  have "set (mkeys vs) \<inter> set (mkeys ?g) = {}"
  proof (cases "versionGeneration v")
    case (Some x)
    have "key \<notin> set (mkeys vs)" using n(1) by (simp add: mkeys_def map_of_eq_None_iff)
    with Some Cons.prems(2) show ?thesis by (auto simp: p set_mkeys_mput)
  qed (use Cons.prems(2) in \<open>simp add: p\<close>)
  from Cons.IH [OF n(2) this] show ?case using n g by (auto simp: p map_of_mput split: option.splits)
qed (simp add: mkeys_def)

lemma map_of_ConvertVersionMap:
  "wf_map vs \<Longrightarrow> map_of (ConvertVersionMapToGenerationMap vs) k = (case map_of vs k of None \<Rightarrow> None | Some v \<Rightarrow> versionGeneration v)"
  by (simp add: ConvertVersionMap_fold map_of_convertFold split: option.split)

lemma wf_ConvertVersionMap: "wf_map (ConvertVersionMapToGenerationMap vs)"
proof -
  have "wf_map g \<Longrightarrow> wf_map (fold (\<lambda>(key, version) g. case versionGeneration version of None \<Rightarrow> g | Some n \<Rightarrow> mput key n g) vs g)" for g
    by (induction vs arbitrary: g) (auto split: option.splits)
  then show ?thesis by (simp add: ConvertVersionMap_fold)
qed


section \<open>Cluster versions as maps\<close>

abbreviation versionPairs :: "ClusterObjectVersion list \<Rightarrow> (string, string) gomap" where
  "versionPairs vs \<equiv> map (\<lambda>v. (CVCluster v, CVVersion v)) vs"

lemma map_of_sort_versions:
  assumes "distinct (map CVCluster vs)"
  shows "map_of (versionPairs (sort_key CVCluster vs)) = map_of (versionPairs vs)"
proof (rule map_of_eqI)
  show "set (map fst (versionPairs (sort_key CVCluster vs))) = set (map fst (versionPairs vs))" by simp
  have "distinct (map CVCluster (sort_key CVCluster vs))" using assms by (simp add: distinct_map)
  then have d: "distinct (map fst (versionPairs (sort_key CVCluster vs)))" "distinct (map fst (versionPairs vs))"
    using assms by (simp_all add: comp_def)
  show "\<forall>k \<in> set (map fst (versionPairs (sort_key CVCluster vs))).
      map_of (versionPairs (sort_key CVCluster vs)) k = map_of (versionPairs vs) k"
  proof
    fix k assume "k \<in> set (map fst (versionPairs (sort_key CVCluster vs)))"
    then obtain v where "v \<in> set vs" "k = CVCluster v" by auto
    then have "map_of (versionPairs (sort_key CVCluster vs)) k = Some (CVVersion v)" "map_of (versionPairs vs) k = Some (CVVersion v)"
      using d by (auto intro!: map_of_is_SomeI)
    then show "map_of (versionPairs (sort_key CVCluster vs)) k = map_of (versionPairs vs) k" by simp
  qed
qed

lemma VersionMap_distinct: "wf_map vs \<Longrightarrow> distinct (map CVCluster (VersionMapToClusterVersions vs))"
proof -
  assume "wf_map vs"
  then have "distinct (map fst (filter (\<lambda>(k, v). v \<noteq> []) vs))" by (simp add: wf_map_def distinct_map_filter)
  then show ?thesis
    unfolding VersionMapToClusterVersions_def SortClusterVersions_def by (simp add: distinct_map comp_def case_prod_unfold inj_on_def) blast
qed

lemma map_of_filter_nonEmpty: "wf_map vs \<Longrightarrow> map_of (filter (\<lambda>(k, v). v \<noteq> []) vs) c = nonEmpty (map_of vs c)"
  by (induction vs) (auto simp: nonEmpty_def wf_map_def map_of_eq_None_iff split: option.splits list.splits)

lemma map_of_VersionMap:
  assumes "wf_map vs"
  shows "map_of (versionPairs (VersionMapToClusterVersions vs)) c = nonEmpty (map_of vs c)"
proof -
  let ?l = "map (\<lambda>(clusterName, version). \<lparr>CVCluster = clusterName, CVVersion = version\<rparr>) (filter (\<lambda>(k, v). v \<noteq> []) vs)"
  have d: "distinct (map CVCluster ?l)"
    using assms by (simp add: wf_map_def distinct_map_filter comp_def case_prod_unfold)
  have p: "versionPairs ?l = filter (\<lambda>(k, v). v \<noteq> []) vs" by (simp add: comp_def case_prod_unfold)
  show ?thesis
    unfolding VersionMapToClusterVersions_def SortClusterVersions_def map_of_sort_versions [OF d] p
    by (rule map_of_filter_nonEmpty [OF assms])
qed

lemma retained_fold:
  assumes "distinct (map CVCluster old)"
  shows "map_of (fold (\<lambda>v0 vs. if CVCluster v0 \<notin> set sel then vs
       else if map_of vs (CVCluster v0) = None then mput (CVCluster v0) (CVVersion v0) vs else vs) old new) c =
     (case map_of new c of Some v \<Rightarrow> Some v | None \<Rightarrow> if c \<in> set sel then map_of (versionPairs old) c else None)"
  using assms
proof (induction old arbitrary: new)
  case (Cons v0 old)
  have "CVCluster v0 = c \<Longrightarrow> map_of (versionPairs old) c = None" using Cons.prems by (auto simp: map_of_eq_None_iff)
  with Cons show ?case by (auto simp: map_of_mput split: option.splits)
qed (simp split: option.split)

lemma retained_wf:
  "wf_map new \<Longrightarrow> wf_map (fold (\<lambda>v0 vs. if CVCluster v0 \<notin> set sel then vs
       else if map_of vs (CVCluster v0) = None then mput (CVCluster v0) (CVVersion v0) vs else vs) old new)"
  by (induction old arbitrary: new) auto

lemma updateClusterVersions_get:
  assumes "distinct (map CVCluster old)" "wf_map new"
  shows "map_of (versionPairs (updateClusterVersions old new sel)) c = rememberedVersion (versionPairs old) sel new c"
    and "distinct (map CVCluster (updateClusterVersions old new sel))"
  unfolding updateClusterVersions_def rememberedVersion_def
  using map_of_VersionMap [OF retained_wf [OF assms(2)], of sel old c] VersionMap_distinct [OF retained_wf [OF assms(2)], of sel old]
    retained_fold [OF assms(1), of sel new c] by simp_all

lemma fold_mput_versions:
  "distinct (map CVCluster vs) \<Longrightarrow>
   map_of (fold (\<lambda>v m. mput (CVCluster v) (CVVersion v) m) vs m) c =
     (case map_of (versionPairs vs) c of Some x \<Rightarrow> Some x | None \<Rightarrow> map_of m c)"
proof (induction vs arbitrary: m)
  case (Cons v vs)
  have "CVCluster v = c \<Longrightarrow> map_of (versionPairs vs) c = None" using Cons.prems by (auto simp: map_of_eq_None_iff)
  with Cons show ?case by (auto simp: map_of_mput split: option.splits)
qed simp


lemma newVersionStatus_get:
  assumes "wf_map new" "\<And>obj. old = Some obj \<Longrightarrow> distinct (map CVCluster (clusterVersionsOf (PVStatus obj)))"
  shows "map_of (versionPairs (clusterVersionsOf (newVersionStatus old tv ov sel new))) c = rememberedVersion (case old of None \<Rightarrow> []
       | Some obj \<Rightarrow> if PVTemplateVersion (PVStatus obj) = tv \<and> PVOverrideVersion (PVStatus obj) = ov
           then versionPairs (clusterVersionsOf (PVStatus obj)) else []) sel new c"
    and "distinct (map CVCluster (clusterVersionsOf (newVersionStatus old tv ov sel new)))"
proof -
  have [simp]: "clusterVersionsOf \<lparr>PVTemplateVersion = tv, PVOverrideVersion = ov, PVClusterVersions = Some vs\<rparr> = vs" for vs
    by (simp add: clusterVersionsOf_def)
  show "map_of (versionPairs (clusterVersionsOf (newVersionStatus old tv ov sel new))) c = rememberedVersion (case old of None \<Rightarrow> []
       | Some obj \<Rightarrow> if PVTemplateVersion (PVStatus obj) = tv \<and> PVOverrideVersion (PVStatus obj) = ov
           then versionPairs (clusterVersionsOf (PVStatus obj)) else []) sel new c"
  proof (cases old)
    case None
    have "(case map_of new c of Some v \<Rightarrow> Some v | None \<Rightarrow> if c \<in> set sel then map_of [] c else None) = map_of new c"
      by (simp split: option.split)
    with None show ?thesis by (simp add: newVersionStatus_def map_of_VersionMap [OF assms(1)] rememberedVersion_def)
  next
    case (Some obj)
    with assms updateClusterVersions_get(1) [OF _ assms(1), of "clusterVersionsOf (PVStatus obj)" sel c]
      updateClusterVersions_get(1) [OF _ assms(1), of "[]" sel c]
    show ?thesis by (simp add: newVersionStatus_def Let_def)
  qed
  show "distinct (map CVCluster (clusterVersionsOf (newVersionStatus old tv ov sel new)))"
    using assms updateClusterVersions_get(2) [of _ new sel] by (cases old) (simp_all add: newVersionStatus_def VersionMap_distinct Let_def)
qed

lemma stored_distinct:
  "versions_ok m \<Longrightarrow> map_of (vmVersions m) k = Some obj \<Longrightarrow> distinct (map CVCluster (clusterVersionsOf (PVStatus obj)))"
  by (auto simp: versions_ok_def list_all_iff dest!: map_of_SomeD)

lemma Get_versions_stored:
  assumes "versions_ok m" "TemplateVersion r = Inr tv" "OverrideVersion r = Inr ov"
  shows "\<exists>got. Get_versions m r = Inr got \<and> (\<forall>c. map_of got c = map_of (case map_of (vmVersions m) (versionKey r) of None \<Rightarrow> []
       | Some obj \<Rightarrow> if PVTemplateVersion (PVStatus obj) = tv \<and> PVOverrideVersion (PVStatus obj) = ov
           then versionPairs (clusterVersionsOf (PVStatus obj)) else []) c)"
  using assms stored_distinct [OF assms(1)] fold_mput_versions [of _ "[]"]
  by (auto simp: Get_versions_def Let_def split: option.splits)

lemma rememberedVersion_cong: "map_of a c = map_of b c \<Longrightarrow> rememberedVersion a sel new c = rememberedVersion b sel new c"
  unfolding rememberedVersion_def by (rule arg_cong [where f = nonEmpty]) (simp split: option.split)

lemma versions_ok_mput:
  assumes "versions_ok m" "distinct (map CVCluster (clusterVersionsOf (PVStatus obj)))"
  shows "versions_ok (m\<lparr>vmVersions := mput k obj (vmVersions m)\<rparr>)"
proof -
  have "set (mput k obj xs) \<subseteq> insert (k, obj) (set xs)" for xs :: "(string, PropagatedVersion) gomap"
    unfolding mput_def by (induction xs) auto
  then show ?thesis using assms by (fastforce simp: versions_ok_def list_all_iff)
qed


section \<open>Writing a version\<close>

lemma updateStatusRound_calls: "updateStatusRound round obj rv = (calls, r) \<Longrightarrow> call \<in> set calls \<Longrightarrow> callStatus call = PVStatus obj"
  by (auto simp: updateStatusRound_def callStatus_def)

lemma callStatus_Create [simp]: "callStatus (CreateVersion obj) = PVStatus obj"
  by (simp add: callStatus_def)

lemma writeRoundStep_calls: "writeRoundStep round obj rv b = (calls, r) \<Longrightarrow> call \<in> set calls \<Longrightarrow> callStatus call = PVStatus obj"
  unfolding writeRoundStep_def
  by (auto dest: updateStatusRound_calls split: sum.splits if_split_asm apiError.splits prod.splits)

lemma writeRoundStep_Written:
  "writeRoundStep round obj rv b = (calls, Written rv') \<Longrightarrow>
     UpdateStatusAnswer round = Inr rv' \<and> (\<exists>v. UpdateVersionStatus (obj\<lparr>PVResourceVersion := v\<rparr>) \<in> set calls)"
  unfolding writeRoundStep_def
  by (auto simp: updateStatusRound_def split: sum.splits if_split_asm apiError.splits prod.splits)

lemma writeVersionLoop_calls: "writeVersionLoop obj rounds rv b = (calls, r) \<Longrightarrow> \<forall>call \<in> set calls. callStatus call = PVStatus obj"
proof (induction rounds arbitrary: rv b calls r)
  case (Cons round rounds)
  obtain calls0 r0 where s: "writeRoundStep round obj rv b = (calls0, r0)" by fastforce
  note h = writeRoundStep_calls [OF s]
  show ?case
  proof (cases r0)
    case (Retry v refresh)
    obtain calls' r' where l: "writeVersionLoop obj rounds v refresh = (calls', r')" by fastforce
    from Cons.prems s l Retry have "calls = calls0 @ calls'" by simp
    with h Cons.IH [OF l] show ?thesis by auto
  qed (use Cons.prems s h in auto)
qed simp

lemma writeVersionLoop_Inr:
  "writeVersionLoop obj rounds rv b = (calls, Inr rv') \<Longrightarrow>
     (\<exists>v. UpdateVersionStatus (obj\<lparr>PVResourceVersion := v\<rparr>) \<in> set calls) \<and> (\<exists>round \<in> set rounds. UpdateStatusAnswer round = Inr rv')"
proof (induction rounds arbitrary: rv b calls)
  case (Cons round rounds)
  obtain calls0 r0 where s: "writeRoundStep round obj rv b = (calls0, r0)" by fastforce
  show ?case
  proof (cases r0)
    case (Retry v refresh)
    obtain calls' r' where l: "writeVersionLoop obj rounds v refresh = (calls', r')" by fastforce
    from Cons.prems s l Retry have "calls = calls0 @ calls'" "r' = Inr rv'" by simp_all
    with Cons.IH [of v refresh calls'] l show ?thesis by auto
  next
    case (Written v)
    with Cons.prems s writeRoundStep_Written [of round obj rv b calls0 v] show ?thesis by auto
  qed (use Cons.prems s in auto)
qed simp


lemma writeVersion_calls:
  assumes "writeVersion rounds obj = (obj', calls, err)"
  shows "PVStatus obj' = PVStatus obj" "\<forall>call \<in> set calls. callStatus call = PVStatus obj'"
    and "err \<noteq> None \<or> (\<exists>v. UpdateVersionStatus (obj'\<lparr>PVResourceVersion := v\<rparr>) \<in> set calls)"
proof -
  obtain calls0 r where l: "writeVersionLoop obj rounds (PVResourceVersion obj) False = (calls0, r)" by fastforce
  have fin: "(\<exists>e. r = Inl e \<and> obj' = obj \<and> err \<noteq> None) \<or> (\<exists>rv. r = Inr rv \<and> obj' = obj\<lparr>PVResourceVersion := rv\<rparr>)" "calls = calls0"
  proof -
    show "calls = calls0" using assms l by (cases r) (simp_all add: writeVersion_def)
    show "(\<exists>e. r = Inl e \<and> obj' = obj \<and> err \<noteq> None) \<or> (\<exists>rv. r = Inr rv \<and> obj' = obj\<lparr>PVResourceVersion := rv\<rparr>)"
    proof (cases r)
      case (Inl e)
      then have "obj' = obj" "err \<noteq> None" using assms l by (auto simp: writeVersion_def)
      with Inl show ?thesis by blast
    next
      case (Inr rv)
      then have "obj' = obj\<lparr>PVResourceVersion := rv\<rparr>" using assms l by (simp add: writeVersion_def)
      with Inr show ?thesis by blast
    qed
  qed
  then show s: "PVStatus obj' = PVStatus obj" by auto
  show "\<forall>call \<in> set calls. callStatus call = PVStatus obj'" using writeVersionLoop_calls [OF l] s fin(2) by simp
  show "err \<noteq> None \<or> (\<exists>v. UpdateVersionStatus (obj'\<lparr>PVResourceVersion := v\<rparr>) \<in> set calls)"
    using fin(1)
  proof
    assume "\<exists>rv. r = Inr rv \<and> obj' = obj\<lparr>PVResourceVersion := rv\<rparr>"
    then obtain rv where "r = Inr rv" "obj' = obj\<lparr>PVResourceVersion := rv\<rparr>" by blast
    with writeVersionLoop_Inr [of obj rounds "PVResourceVersion obj" False calls0 rv] l fin(2) show ?thesis by simp
  qed simp
qed

lemma Update_versions_stores:
  assumes "versions_ok m" "wf_map new" "TemplateVersion r = Inr tv" "OverrideVersion r = Inr ov"
    and "Update_versions rounds m r sel new = (m', calls, err)"
  shows "\<exists>obj. map_of (vmVersions m') (versionKey r) = Some obj \<and>
     PropagatedVersionStatusEquivalent (PVStatus obj) (newVersionStatus (map_of (vmVersions m) (versionKey r)) tv ov sel new) \<and>
     versions_ok m' \<and> (\<forall>k. k \<noteq> versionKey r \<longrightarrow> map_of (vmVersions m') k = map_of (vmVersions m) k) \<and>
     (calls = [] \<or> (\<forall>call \<in> set calls. callStatus call = PVStatus obj) \<and>
        (err \<noteq> None \<or> (\<exists>v. UpdateVersionStatus (obj\<lparr>PVResourceVersion := v\<rparr>) \<in> set calls)))"
proof -
  let ?k = "versionKey r"
  let ?old = "map_of (vmVersions m) ?k"
  let ?st = "newVersionStatus ?old tv ov sel new"
  have d: "distinct (map CVCluster (clusterVersionsOf ?st))"
    by (rule newVersionStatus_get(2) [OF assms(2) stored_distinct [OF assms(1)]])
  show ?thesis
  proof (cases "case ?old of None \<Rightarrow> False | Some obj \<Rightarrow> PropagatedVersionStatusEquivalent (PVStatus obj) ?st")
    case True
    then have "m' = m" "calls = []" using assms(3-5) by (simp_all add: Update_versions_def Let_def)
    with True assms(1) show ?thesis by (auto split: option.splits)
  next
    case False
    define obj0 where "obj0 = (case ?old of
        None \<Rightarrow> NewVersion (FederatedName r) (ownerReferenceForFederatedObject r) ?st
      | Some obj \<Rightarrow> obj\<lparr>PVStatus := ?st\<rparr>)"
    have st: "PVStatus obj0 = ?st" by (simp add: obj0_def NewVersion_def split: option.split)
    obtain obj' where w: "writeVersion rounds obj0 = (obj', calls, err)" and m': "m' = m\<lparr>vmVersions := mput ?k obj' (vmVersions m)\<rparr>"
      using assms(3-5) False by (auto simp: Update_versions_def Let_def obj0_def split: prod.splits)
    note c = writeVersion_calls [OF w]
    have e: "PropagatedVersionStatusEquivalent (PVStatus obj') ?st" using c(1) st by (simp add: PropagatedVersionStatusEquivalent_def)
    have "versions_ok m'" using versions_ok_mput [OF assms(1)] c(1) st d by (simp add: m')
    with c(2,3) e show ?thesis by (auto simp: m' map_of_mput)
  qed
qed


section \<open>Properties\<close>

text \<open>
  C34.  The version manager remembers what was propagated.  After an update, whatever the API server
  answers, asking for the same resource gives, for every cluster, the new version, or the old one when
  the cluster is selected, got no new version and template and overrides are the same; an empty version
  is forgotten, other resources are not affected, and no cluster is ever recorded twice.  Everything sent
  to the API server carries the status now in memory, and success means that a status update went through.
\<close>

theorem version_manager_remembers:
  assumes "versions_ok m" "wf_map new" "TemplateVersion r = Inr tv" "OverrideVersion r = Inr ov"
    and "Update_versions rounds m r sel new = (m', calls, err)"
  shows "versions_ok m' \<and>
     (\<exists>old got. Get_versions m r = Inr old \<and> Get_versions m' r = Inr got \<and> (\<forall>c. map_of got c = rememberedVersion old sel new c)) \<and>
     (\<forall>r'. versionKey r' = versionKey r \<or> Get_versions m' r' = Get_versions m r') \<and>
     (calls = [] \<or> (\<exists>obj. map_of (vmVersions m') (versionKey r) = Some obj \<and> (\<forall>call \<in> set calls. callStatus call = PVStatus obj) \<and>
        (err \<noteq> None \<or> (\<exists>v. UpdateVersionStatus (obj\<lparr>PVResourceVersion := v\<rparr>) \<in> set calls))))"
proof -
  let ?k = "versionKey r"
  let ?old = "map_of (vmVersions m) ?k"
  let ?st = "newVersionStatus ?old tv ov sel new"
  let ?pairs = "\<lambda>obj. if PVTemplateVersion (PVStatus obj) = tv \<and> PVOverrideVersion (PVStatus obj) = ov
           then versionPairs (clusterVersionsOf (PVStatus obj)) else []"
  note ok = newVersionStatus_get [OF assms(2), of ?old tv ov sel]
  obtain old where old: "Get_versions m r = Inr old" "\<And>c. map_of old c = map_of (case ?old of None \<Rightarrow> [] | Some obj \<Rightarrow> ?pairs obj) c"
    using Get_versions_stored [OF assms(1,3,4)] by blast
  have new: "map_of (versionPairs (clusterVersionsOf ?st)) c = rememberedVersion old sel new c" for c
    using ok(1) [of c] stored_distinct [OF assms(1)] rememberedVersion_cong [OF old(2), of sel new c] by simp
  obtain obj where obj: "map_of (vmVersions m') ?k = Some obj" "PropagatedVersionStatusEquivalent (PVStatus obj) ?st"
      and m': "versions_ok m'" "\<And>k. k \<noteq> ?k \<Longrightarrow> map_of (vmVersions m') k = map_of (vmVersions m) k"
      and calls: "calls = [] \<or> (\<forall>call \<in> set calls. callStatus call = PVStatus obj) \<and>
        (err \<noteq> None \<or> (\<exists>v. UpdateVersionStatus (obj\<lparr>PVResourceVersion := v\<rparr>) \<in> set calls))"
    using Update_versions_stores [OF assms] by blast
  obtain got where got: "Get_versions m' r = Inr got" "\<And>c. map_of got c = map_of (?pairs obj) c"
    using Get_versions_stored [OF m'(1) assms(3,4)] obj(1) by auto
  have "map_of got c = rememberedVersion old sel new c" for c
    using got(2) [of c] obj(2) new [of c] by (simp add: PropagatedVersionStatusEquivalent_def clusterVersionsOf_def newVersionStatus_def)
  moreover have "Get_versions m' r' = Get_versions m r'" if "versionKey r' \<noteq> ?k" for r'
    using m'(2) [OF that] by (simp add: Get_versions_def)
  ultimately show ?thesis using m'(1) old(1) got(1) obj(1) calls by blast
qed

theorem version_manager_remembers_witness:
  "\<exists>m' calls err. Update_versions [] managerSample versionedSample [''A'', ''B''] [(''A'', ''gen:2'')] = (m', calls, err) \<and>
     (\<exists>got. Get_versions m' versionedSample = Inr got \<and> map_of got ''A'' = Some ''gen:2'' \<and> map_of got ''B'' = Some ''gen:4'')"
proof -
  obtain m' calls err where u: "Update_versions [] managerSample versionedSample [''A'', ''B''] [(''A'', ''gen:2'')] = (m', calls, err)"
    by (metis prod_cases3)
  have 1: "versions_ok managerSample" by code_simp
  have 2: "wf_map [(''A'', ''gen:2'')]" by (simp add: wf_map_def)
  have 3: "TemplateVersion versionedSample = Inr ''t1''" "OverrideVersion versionedSample = Inr ''o1''" by (simp_all add: versionedSample_def)
  have "case Get_versions managerSample versionedSample of Inl err \<Rightarrow> False
     | Inr old \<Rightarrow> rememberedVersion old [''A'', ''B''] [(''A'', ''gen:2'')] ''A'' = Some ''gen:2'' \<and>
         rememberedVersion old [''A'', ''B''] [(''A'', ''gen:2'')] ''B'' = Some ''gen:4''"
    by code_simp
  with version_manager_remembers [OF 1 2 3 u] u show ?thesis by fastforce
qed

end
