(* ===== verification/Sync_Status.thy ===== *)
theory Sync_Status
  imports Version_Manager
begin

text \<open>
  The status that the sync controller keeps in a federated object, \<open>pkg/controllers/sync/status\<close>.  The
  current time is an argument.  A \<open>nil\<close> slice of conditions behaves like an empty one.
\<close>


section \<open>Model\<close>

type_synonym PropagationStatusType = string

abbreviation (input) AggregateSuccess :: string where "AggregateSuccess \<equiv> []"
abbreviation CheckClusters :: string where "CheckClusters \<equiv> ''CheckClusters''"
abbreviation ClusterPropagationOK :: PropagationStatusType where "ClusterPropagationOK \<equiv> ''OK''"
abbreviation PropagationConditionType :: string where "PropagationConditionType \<equiv> ''Propagated''"

record PropagationStatus =
  PSCluster :: string
  PSStatus :: PropagationStatusType
  LastObservedGeneration :: int64

record GenericFederatedObjectCondition =
  FCType :: string
  FCStatus :: string
  LastUpdateTime :: int
  LastTransitionTime :: int
  FCReason :: string

record GenericFederatedObjectStatus =
  SyncedGeneration :: int64
  Conditions :: "GenericFederatedObjectCondition list"
  StatusClusters :: "PropagationStatus list"

type_synonym PropagationStatusMap = "(string, PropagationStatusType) gomap"

record CollectedPropagationStatus =
  StatusMap :: PropagationStatusMap
  GenerationMap :: "(string, int64) gomap"
  ResourcesUpdated :: bool

definition clustersDiffers :: "GenericFederatedObjectStatus \<Rightarrow> PropagationStatusMap \<Rightarrow> (string, int64) gomap \<Rightarrow> bool" where
  "clustersDiffers s statusMap generationMap =
     (if length (StatusClusters s) \<noteq> length statusMap then True
      else if length (StatusClusters s) \<noteq> length generationMap then True
      else list_ex (\<lambda>status. mget [] statusMap (PSCluster status) \<noteq> PSStatus status \<or>
             mget 0 generationMap (PSCluster status) \<noteq> LastObservedGeneration status) (StatusClusters s))"

definition setClusters ::
    "GenericFederatedObjectStatus \<Rightarrow> PropagationStatusMap \<Rightarrow> (string, int64) gomap \<Rightarrow> GenericFederatedObjectStatus \<times> bool" where
  "setClusters s statusMap generationMap =
     (if \<not> clustersDiffers s statusMap generationMap then (s, False)
      else (s\<lparr>StatusClusters := map (\<lambda>clusterName. \<lparr>PSCluster = clusterName, PSStatus = mget [] statusMap clusterName,
              LastObservedGeneration = mget 0 generationMap clusterName\<rparr>) (sort (mkeys statusMap))\<rparr>, True))"

text \<open>The first condition of the type is changed in place.\<close>

fun updateCondition ::
    "(GenericFederatedObjectCondition \<Rightarrow> GenericFederatedObjectCondition) \<Rightarrow> GenericFederatedObjectCondition list
     \<Rightarrow> GenericFederatedObjectCondition list" where
  "updateCondition f [] = []"
| "updateCondition f (c # cs) = (if FCType c = PropagationConditionType then f c # cs else c # updateCondition f cs)"

definition setPropagationCondition ::
    "int \<Rightarrow> GenericFederatedObjectStatus \<Rightarrow> string \<Rightarrow> bool \<Rightarrow> GenericFederatedObjectStatus \<times> bool" where
  "setPropagationCondition now s reason changesPropagated =
     (let newStatus = (if reason = AggregateSuccess then ''True'' else ''False'');
          found = find (\<lambda>condition. FCType condition = PropagationConditionType) (Conditions s);
          newCondition = (found = None);
          conditions = (if newCondition then Conditions s @ [\<lparr>FCType = PropagationConditionType, FCStatus = [],
              LastUpdateTime = 0, LastTransitionTime = 0, FCReason = []\<rparr>] else Conditions s);
          transition = (newCondition \<or> \<not> (FCStatus (the found) = newStatus \<and> FCReason (the found) = reason));
          updateRequired = (changesPropagated \<or> transition);
          change = (\<lambda>c. let c1 = (if transition then c\<lparr>LastTransitionTime := now, FCStatus := newStatus, FCReason := reason\<rparr> else c)
             in if updateRequired then c1\<lparr>LastUpdateTime := now\<rparr> else c1)
      in (s\<lparr>Conditions := updateCondition change conditions\<rparr>, updateRequired))"

definition update_status ::
    "int \<Rightarrow> GenericFederatedObjectStatus \<Rightarrow> int64 \<Rightarrow> string \<Rightarrow> CollectedPropagationStatus \<Rightarrow> GenericFederatedObjectStatus \<times> bool" where
  "update_status now s generation reason collectedStatus =
     (let generationUpdated = (SyncedGeneration s \<noteq> generation);
          s1 = (if generationUpdated then s\<lparr>SyncedGeneration := generation\<rparr> else s);
          (s2, clustersChanged) = setClusters s1 (StatusMap collectedStatus) (GenerationMap collectedStatus);
          changesPropagated = (clustersChanged \<or> length (StatusMap collectedStatus) > 0 \<and> ResourcesUpdated collectedStatus);
          reason' = (if reason = AggregateSuccess \<and> list_ex (\<lambda>value. value \<noteq> ClusterPropagationOK) (mvals (StatusMap collectedStatus))
             then CheckClusters else reason);
          (s3, propStatusUpdated) = setPropagationCondition now s2 reason' changesPropagated
      in (s3, generationUpdated \<or> propStatusUpdated))"


section \<open>Statement vocabulary\<close>

text \<open>The clusters of a status as a map, and the well-formedness that its users rely on.\<close>

definition status_ok :: "GenericFederatedObjectStatus \<Rightarrow> bool" where
  "status_ok s \<longleftrightarrow> distinct (map PSCluster (StatusClusters s)) \<and> list_all (\<lambda>p. PSStatus p \<noteq> []) (StatusClusters s)"

definition collected_ok :: "CollectedPropagationStatus \<Rightarrow> bool" where
  "collected_ok cs \<longleftrightarrow> wf_map (StatusMap cs) \<and> wf_map (GenerationMap cs) \<and> list_all (\<lambda>v. v \<noteq> []) (mvals (StatusMap cs)) \<and>
     set (mkeys (GenerationMap cs)) \<subseteq> set (mkeys (StatusMap cs))"

definition clusterStatus :: "GenericFederatedObjectStatus \<Rightarrow> string \<Rightarrow> (PropagationStatusType \<times> int64) option" where
  "clusterStatus s c = map_option (\<lambda>p. (PSStatus p, LastObservedGeneration p)) (find (\<lambda>p. PSCluster p = c) (StatusClusters s))"

definition wantedStatus :: "CollectedPropagationStatus \<Rightarrow> string \<Rightarrow> (PropagationStatusType \<times> int64) option" where
  "wantedStatus cs c = map_option (\<lambda>st. (st, mget 0 (GenerationMap cs) c)) (map_of (StatusMap cs) c)"

definition propagationCondition :: "GenericFederatedObjectStatus \<Rightarrow> GenericFederatedObjectCondition option" where
  "propagationCondition s = find (\<lambda>condition. FCType condition = PropagationConditionType) (Conditions s)"

definition effectiveReason :: "string \<Rightarrow> CollectedPropagationStatus \<Rightarrow> string" where
  "effectiveReason reason cs =
     (if reason = AggregateSuccess \<and> list_ex (\<lambda>v. v \<noteq> ClusterPropagationOK) (mvals (StatusMap cs)) then CheckClusters else reason)"

text \<open>Example values for the witnesses: a cluster that is not ready has a status but no version.\<close>

definition collectedSample :: CollectedPropagationStatus where
  "collectedSample = \<lparr>StatusMap = [(''A'', ''OK''), (''B'', ''ClusterNotReady'')], GenerationMap = [(''A'', 3)], ResourcesUpdated = False\<rparr>"

definition statusSample :: GenericFederatedObjectStatus where
  "statusSample = \<lparr>SyncedGeneration = 0, Conditions = [], StatusClusters = []\<rparr>"


section \<open>Clusters\<close>

lemma find_sorted:
  assumes "wf_map m"
  shows "map_option (\<lambda>p. (PSStatus p, LastObservedGeneration p)) (find (\<lambda>p. PSCluster p = c) (map (\<lambda>clusterName. \<lparr>PSCluster = clusterName,
      PSStatus = mget [] m clusterName, LastObservedGeneration = g clusterName\<rparr>) ks)) =
     (if c \<in> set ks then Some (mget [] m c, g c) else None)"
  by (induction ks) auto

lemma mkeys_iff: "c \<in> set (mkeys m) \<longleftrightarrow> map_of m c \<noteq> None"
  by (simp add: mkeys_def map_of_eq_None_iff)

text \<open>Lists of the same length whose entries agree have the same keys.\<close>

lemma same_clusters:
  assumes "distinct xs" "wf_map m" "length xs = length m" "set xs \<subseteq> set (mkeys m)"
  shows "set xs = set (mkeys m)"
proof -
  have "distinct (mkeys m)" "length (mkeys m) = length m" using assms(2) by (simp_all add: wf_map_def mkeys_def)
  then have "card (set xs) = length m" "card (set (mkeys m)) = length m"
    using assms(1,3) distinct_card [of "mkeys m"] by (simp_all add: distinct_card)
  then show ?thesis using assms(4) card_subset_eq [of "set (mkeys m)" "set xs"] by simp
qed

lemma clusterStatus_member:
  assumes "distinct (map PSCluster (StatusClusters s))" "p \<in> set (StatusClusters s)"
  shows "clusterStatus s (PSCluster p) = Some (PSStatus p, LastObservedGeneration p)"
proof -
  have "find (\<lambda>q. PSCluster q = PSCluster p) xs = Some p" if "distinct (map PSCluster xs)" "p \<in> set xs" for xs
    using that by (induction xs) auto
  then show ?thesis using assms by (simp add: clusterStatus_def)
qed

lemma clusterStatus_None: "clusterStatus s c = None \<longleftrightarrow> c \<notin> PSCluster ` set (StatusClusters s)"
  by (auto simp: clusterStatus_def find_None_iff)

lemma setClusters_spec:
  assumes "status_ok s" "collected_ok cs" "setClusters s (StatusMap cs) (GenerationMap cs) = (s', changed)"
  shows "clusterStatus s' c = wantedStatus cs c" "status_ok s'" "SyncedGeneration s' = SyncedGeneration s" "Conditions s' = Conditions s"
proof -
  show "SyncedGeneration s' = SyncedGeneration s" "Conditions s' = Conditions s"
    using assms(3) by (auto simp: setClusters_def split: if_splits)
  have wf: "wf_map (StatusMap cs)" using assms(2) by (simp add: collected_ok_def)
  show "clusterStatus s' c = wantedStatus cs c"
  proof (cases "clustersDiffers s (StatusMap cs) (GenerationMap cs)")
    case True
    then have "s' = s\<lparr>StatusClusters := map (\<lambda>clusterName. \<lparr>PSCluster = clusterName, PSStatus = mget [] (StatusMap cs) clusterName,
              LastObservedGeneration = mget 0 (GenerationMap cs) clusterName\<rparr>) (sort (mkeys (StatusMap cs)))\<rparr>"
      using assms(3) by (simp add: setClusters_def)
    then show ?thesis using find_sorted [OF wf, of c "mget 0 (GenerationMap cs)" "sort (mkeys (StatusMap cs))"]
      by (auto simp: clusterStatus_def wantedStatus_def mkeys_iff mget_def split: option.splits)
  next
    case False
    then have s: "s' = s" using assms(3) by (simp add: setClusters_def)
    have len: "length (StatusClusters s) = length (StatusMap cs)"
      and e: "\<And>p. p \<in> set (StatusClusters s) \<Longrightarrow> mget [] (StatusMap cs) (PSCluster p) = PSStatus p \<and> mget 0 (GenerationMap cs) (PSCluster p) = LastObservedGeneration p"
      using False by (auto simp: clustersDiffers_def list_ex_iff split: if_splits)
    have m: "map_of (StatusMap cs) (PSCluster p) = Some (PSStatus p)" if "p \<in> set (StatusClusters s)" for p
      using e [OF that] assms(1) that by (auto simp: mget_def status_ok_def list_all_iff split: option.splits)
    have "PSCluster ` set (StatusClusters s) \<subseteq> set (mkeys (StatusMap cs))" using m by (auto simp: mkeys_iff)
    then have keys: "PSCluster ` set (StatusClusters s) = set (mkeys (StatusMap cs))"
      using same_clusters [of "map PSCluster (StatusClusters s)" "StatusMap cs"] assms(1) wf len by (simp add: status_ok_def)
    show ?thesis
    proof (cases "map_of (StatusMap cs) c")
      case None
      then show ?thesis using clusterStatus_None [of s c] keys by (simp add: s wantedStatus_def mkeys_iff)
    next
      case (Some v)
      then have "c \<in> PSCluster ` set (StatusClusters s)" by (simp add: keys mkeys_iff)
      then obtain p where "p \<in> set (StatusClusters s)" "c = PSCluster p" by blast
      then show ?thesis using m e assms(1) clusterStatus_member [of s p] by (simp add: s wantedStatus_def status_ok_def)
    qed
  qed
  have "mget [] (StatusMap cs) k \<noteq> []" if "k \<in> set (mkeys (StatusMap cs))" for k
    using that assms(2) mget_entry [OF wf] by (fastforce simp: mkeys_def collected_ok_def mvals_def list_all_iff)
  then show "status_ok s'"
    using assms(1,3) wf by (auto simp: setClusters_def status_ok_def wf_map_def list_all_iff comp_def mkeys_def [symmetric] split: if_splits)
qed


section \<open>Conditions\<close>

lemma find_updateCondition:
  assumes "\<And>c. FCType (f c) = FCType c"
  shows "find (\<lambda>c. FCType c = PropagationConditionType) (updateCondition f cs) =
     map_option f (find (\<lambda>c. FCType c = PropagationConditionType) cs)"
  using assms by (induction cs) auto

lemma updateCondition_id: "updateCondition (\<lambda>c. c) cs = cs"
  by (induction cs) auto

lemma find_snoc: "find P xs = None \<Longrightarrow> P x \<Longrightarrow> find P (xs @ [x]) = Some x"
  by (induction xs) auto

lemma setPropagationCondition_spec:
  assumes "setPropagationCondition now s reason changes = (s', updated)"
  shows "StatusClusters s' = StatusClusters s" "SyncedGeneration s' = SyncedGeneration s"
    and "\<exists>cond. propagationCondition s' = Some cond \<and> FCReason cond = reason \<and> FCStatus cond = (if reason = AggregateSuccess then ''True'' else ''False'')"
    and "\<not> updated \<Longrightarrow> s' = s"
    and "updated \<longleftrightarrow> changes \<or> \<not> (\<exists>cond. propagationCondition s = Some cond \<and> FCReason cond = reason \<and> FCStatus cond = (if reason = AggregateSuccess then ''True'' else ''False''))"
proof -
  show "StatusClusters s' = StatusClusters s" "SyncedGeneration s' = SyncedGeneration s"
    using assms by (auto simp: setPropagationCondition_def Let_def)
  show "updated \<longleftrightarrow> changes \<or> \<not> (\<exists>cond. propagationCondition s = Some cond \<and> FCReason cond = reason \<and> FCStatus cond = (if reason = AggregateSuccess then ''True'' else ''False''))"
    using assms by (auto simp: setPropagationCondition_def propagationCondition_def Let_def)
  show "\<exists>cond. propagationCondition s' = Some cond \<and> FCReason cond = reason \<and> FCStatus cond = (if reason = AggregateSuccess then ''True'' else ''False'')"
    using assms unfolding setPropagationCondition_def propagationCondition_def Let_def
    by (cases "find (\<lambda>condition. FCType condition = PropagationConditionType) (Conditions s)") (auto simp: find_updateCondition find_snoc)
  show "\<not> updated \<Longrightarrow> s' = s"
    using assms by (auto simp: setPropagationCondition_def Let_def updateCondition_id)
qed


lemma update_status_run:
  assumes "update_status now s generation reason cs = (s', changed)"
  shows "\<exists>s2 clustersChanged propUpdated. setClusters (s\<lparr>SyncedGeneration := generation\<rparr>) (StatusMap cs) (GenerationMap cs) = (s2, clustersChanged) \<and>
     setPropagationCondition now s2 (effectiveReason reason cs) (clustersChanged \<or> StatusMap cs \<noteq> [] \<and> ResourcesUpdated cs) = (s', propUpdated) \<and>
     changed = (SyncedGeneration s \<noteq> generation \<or> propUpdated)"
proof -
  have "(if SyncedGeneration s \<noteq> generation then s\<lparr>SyncedGeneration := generation\<rparr> else s) = s\<lparr>SyncedGeneration := generation\<rparr>" by simp
  with assms show ?thesis
    by (auto simp: update_status_def effectiveReason_def Let_def split: prod.splits)
qed

lemma setClusters_again:
  assumes "status_ok s" "collected_ok cs" "\<And>c. clusterStatus s c = wantedStatus cs c"
  shows "clustersDiffers s (StatusMap cs) (GenerationMap cs) \<longleftrightarrow> length (StatusMap cs) \<noteq> length (GenerationMap cs)"
proof -
  have wf: "wf_map (StatusMap cs)" using assms(2) by (simp add: collected_ok_def)
  have "PSCluster ` set (StatusClusters s) = set (mkeys (StatusMap cs))"
    using clusterStatus_None [of s] assms(3) by (auto simp: wantedStatus_def mkeys_iff)
  moreover have "card (PSCluster ` set (StatusClusters s)) = length (StatusClusters s)"
    using distinct_card [of "map PSCluster (StatusClusters s)"] assms(1) by (simp add: status_ok_def)
  moreover have "card (set (mkeys (StatusMap cs))) = length (StatusMap cs)"
    using distinct_card [of "mkeys (StatusMap cs)"] wf by (simp add: wf_map_def mkeys_def)
  ultimately have len: "length (StatusClusters s) = length (StatusMap cs)" by simp
  have "mget [] (StatusMap cs) (PSCluster p) = PSStatus p \<and> mget 0 (GenerationMap cs) (PSCluster p) = LastObservedGeneration p"
    if "p \<in> set (StatusClusters s)" for p
    using clusterStatus_member [of s p] that assms(1) assms(3) [of "PSCluster p"]
    by (auto simp: status_ok_def wantedStatus_def mget_def [of "[]"])
  then have "\<not> list_ex (\<lambda>status. mget [] (StatusMap cs) (PSCluster status) \<noteq> PSStatus status \<or>
             mget 0 (GenerationMap cs) (PSCluster status) \<noteq> LastObservedGeneration status) (StatusClusters s)"
    by (auto simp: list_ex_iff)
  with len show ?thesis by (simp add: clustersDiffers_def)
qed


lemma update_status_again:
  assumes "status_ok s" "collected_ok cs" "SyncedGeneration s = generation" "\<And>c. clusterStatus s c = wantedStatus cs c"
    and "\<exists>cond. propagationCondition s = Some cond \<and> FCReason cond = effectiveReason reason cs \<and>
       FCStatus cond = (if effectiveReason reason cs = AggregateSuccess then ''True'' else ''False'')"
  shows "snd (update_status later s generation reason (cs\<lparr>ResourcesUpdated := False\<rparr>)) = (length (StatusMap cs) \<noteq> length (GenerationMap cs))"
proof -
  let ?cs = "cs\<lparr>ResourcesUpdated := False\<rparr>"
  obtain x changed where u: "update_status later s generation reason ?cs = (x, changed)" by fastforce
  have [simp]: "effectiveReason reason ?cs = effectiveReason reason cs" by (simp add: effectiveReason_def)
  have [simp]: "s\<lparr>SyncedGeneration := generation\<rparr> = s" using assms(3) by simp
  obtain s3 cc pu where 3: "setClusters s (StatusMap cs) (GenerationMap cs) = (s3, cc)"
      and 4: "setPropagationCondition later s3 (effectiveReason reason cs) cc = (x, pu)" "changed = pu"
    using update_status_run [OF u] assms(3) by auto
  have "cc = (length (StatusMap cs) \<noteq> length (GenerationMap cs))"
    using setClusters_again [OF assms(1,2,4)] 3 by (auto simp: setClusters_def split: if_splits)
  moreover have "propagationCondition s3 = propagationCondition s"
    using 3 by (auto simp: setClusters_def propagationCondition_def split: if_splits)
  ultimately show ?thesis using setPropagationCondition_spec(5) [OF 4(1)] assms(5) 4(2) u by simp
qed


section \<open>Properties\<close>

text \<open>
  C35.  The status written by the sync controller is exact: it names every cluster with the collected
  status and generation and no other, its condition has the reason and is true only when every cluster
  succeeded, and when no change is reported the old status was already so.  Recomputing it at any later
  time from the same results reports a change exactly when some cluster has a status but no recorded
  generation: then \<open>clustersDiffers\<close> compares the wrong lengths, and every reconciliation writes again.
\<close>

theorem federated_status_exact:
  assumes "status_ok s" "collected_ok cs" "update_status now s generation reason cs = (s', changed)"
  shows "status_ok s' \<and> SyncedGeneration s' = generation \<and> (\<forall>c. clusterStatus s' c = wantedStatus cs c) \<and>
     (\<exists>cond. propagationCondition s' = Some cond \<and> FCReason cond = effectiveReason reason cs \<and>
        (FCStatus cond = ''True'' \<longleftrightarrow> reason = AggregateSuccess \<and> (\<forall>st \<in> set (mvals (StatusMap cs)). st = ClusterPropagationOK))) \<and>
     (changed \<or> s' = s) \<and>
     snd (update_status later s' generation reason (cs\<lparr>ResourcesUpdated := False\<rparr>)) = (length (StatusMap cs) \<noteq> length (GenerationMap cs))"
proof -
  let ?s1 = "s\<lparr>SyncedGeneration := generation\<rparr>" and ?cs = "cs\<lparr>ResourcesUpdated := False\<rparr>"
  obtain s2 cc pu where 1: "setClusters ?s1 (StatusMap cs) (GenerationMap cs) = (s2, cc)"
      and 2: "setPropagationCondition now s2 (effectiveReason reason cs) (cc \<or> StatusMap cs \<noteq> [] \<and> ResourcesUpdated cs) = (s', pu)"
      and ch: "changed = (SyncedGeneration s \<noteq> generation \<or> pu)"
    using update_status_run [OF assms(3)] by blast
  have ok1: "status_ok ?s1" using assms(1) by (simp add: status_ok_def)
  note a = setClusters_spec [OF ok1 assms(2) 1] and b = setPropagationCondition_spec [OF 2]
  have st: "status_ok s'" "SyncedGeneration s' = generation" "\<And>c. clusterStatus s' c = wantedStatus cs c"
    using a b(1,2) by (simp_all add: status_ok_def clusterStatus_def)
  have r: "effectiveReason reason cs = AggregateSuccess \<longleftrightarrow> reason = AggregateSuccess \<and> (\<forall>st \<in> set (mvals (StatusMap cs)). st = ClusterPropagationOK)"
    by (auto simp: effectiveReason_def list_ex_iff)
  have id: "s' = s" if "\<not> changed"
  proof -
    have "\<not> pu" "?s1 = s" using that ch by simp_all
    moreover from this have "\<not> cc" "s' = s2" using b(4,5) by simp_all
    ultimately show ?thesis using 1 by (auto simp: setClusters_def split: if_splits)
  qed
  have "snd (update_status later s' generation reason ?cs) = (length (StatusMap cs) \<noteq> length (GenerationMap cs))"
    by (rule update_status_again [OF st(1) assms(2) st(2,3) b(3)])
  moreover have "\<exists>cond. propagationCondition s' = Some cond \<and> FCReason cond = effectiveReason reason cs \<and>
        (FCStatus cond = ''True'' \<longleftrightarrow> reason = AggregateSuccess \<and> (\<forall>st \<in> set (mvals (StatusMap cs)). st = ClusterPropagationOK))"
  proof -
    obtain cond where "propagationCondition s' = Some cond" "FCReason cond = effectiveReason reason cs"
        "FCStatus cond = (if effectiveReason reason cs = AggregateSuccess then ''True'' else ''False'')" using b(3) by blast
    moreover from this(3) have "FCStatus cond = ''True'' \<longleftrightarrow> effectiveReason reason cs = AggregateSuccess" by simp
    ultimately show ?thesis using r by blast
  qed
  ultimately show ?thesis using st id by blast
qed

theorem federated_status_exact_witness:
  "\<exists>s' changed. update_status 1 statusSample 7 AggregateSuccess collectedSample = (s', changed) \<and>
     clusterStatus s' ''B'' = Some (''ClusterNotReady'', 0) \<and>
     snd (update_status 2 s' 7 AggregateSuccess (collectedSample\<lparr>ResourcesUpdated := False\<rparr>))"
proof -
  obtain s' changed where u: "update_status 1 statusSample 7 AggregateSuccess collectedSample = (s', changed)" by fastforce
  have 1: "status_ok statusSample" "collected_ok collectedSample" by code_simp+
  have 2: "wantedStatus collectedSample ''B'' = Some (''ClusterNotReady'', 0)" "length (StatusMap collectedSample) \<noteq> length (GenerationMap collectedSample)"
    by code_simp+
  from federated_status_exact [OF 1 u, of 2] u 2 show ?thesis by auto
qed

end
