(* ===== verification/Sync_Retain.thy ===== *)
theory Sync_Retain
  imports Version_Manager
begin

text \<open>
  What an update keeps of the object in a member cluster, \<open>pkg/controllers/sync/dispatch/retain.go\<close>.
  The accessors of nested fields are apimachinery's: the record \<open>unstructuredOps\<close> holds them.  The
  outer \<open>None\<close> of a result is a panic of the code, on ports that are no objects or not comparable.
\<close>


section \<open>Model: nested fields\<close>

record unstructuredOps =
  uK8s :: apimachinery
  NestedFieldNoCopy :: "json \<Rightarrow> string list \<Rightarrow> string + json option"
  NestedString :: "json \<Rightarrow> string list \<Rightarrow> string + string option"
  NestedBool :: "json \<Rightarrow> string list \<Rightarrow> string + bool option"
  NestedSlice :: "json \<Rightarrow> string list \<Rightarrow> string + json list option"
  SetNestedField :: "json \<Rightarrow> json \<Rightarrow> string list \<Rightarrow> string + json"

text \<open>A slice that was not found, or whose retrieval failed, is \<open>nil\<close>; it is stored as \<open>null\<close>.\<close>

definition sliceOrNil :: "unstructuredOps \<Rightarrow> json \<Rightarrow> string list \<Rightarrow> json list option" where
  "sliceOrNil ops obj path = (case NestedSlice ops obj path of Inl err \<Rightarrow> None | Inr r \<Rightarrow> r)"

definition SetNestedSlice :: "unstructuredOps \<Rightarrow> json \<Rightarrow> json list option \<Rightarrow> string list \<Rightarrow> string + json" where
  "SetNestedSlice ops obj vals path =
     SetNestedField ops obj (case vals of None \<Rightarrow> JNull | Some xs \<Rightarrow> JArr xs) path"

definition copyUnstructuredField :: "unstructuredOps \<Rightarrow> json \<Rightarrow> json \<Rightarrow> string list \<Rightarrow> string + json" where
  "copyUnstructuredField ops srcObj destObj path =
     (case NestedFieldNoCopy ops srcObj path of
        Inr (Some v) \<Rightarrow> SetNestedField ops destObj v path
      | _ \<Rightarrow> Inr destObj)"


section \<open>Model: labels and annotations\<close>

definition PropagatedAnnotationKeys :: string where
  "PropagatedAnnotationKeys = DefaultPrefix @ ''propagated-annotation-keys''"

definition PropagatedLabelKeys :: string where
  "PropagatedLabelKeys = DefaultPrefix @ ''propagated-label-keys''"

definition RetainReplicasAnnotation :: string where
  "RetainReplicasAnnotation = DefaultPrefix @ ''retain-replicas''"

text \<open>\<open>strings.Join(sets.List(sets.KeySet(m)), ",")\<close>\<close>

definition joinedKeys :: "(string, string) gomap \<Rightarrow> string" where
  "joinedKeys m = joinStr '','' (sort (remdups (mkeys m)))"

definition recordPropagatedLabelsAndAnnotations :: "'a ObjectMeta_scheme \<Rightarrow> 'a ObjectMeta_scheme" where
  "recordPropagatedLabelsAndAnnotations obj =
     obj\<lparr>MAnnotations := mput PropagatedAnnotationKeys (joinedKeys (MAnnotations obj))
       (mput PropagatedLabelKeys (joinedKeys (MLabels obj)) (MAnnotations obj))\<rparr>"

definition mergeStringMaps ::
    "(string, string) gomap \<Rightarrow> (string, string) gomap \<Rightarrow> string list \<Rightarrow> (string, string) gomap" where
  "mergeStringMaps templateMap observedMap lastTemplateKeys =
     (let deletedKeys = filter (\<lambda>k. map_of templateMap k = None) lastTemplateKeys in
      fold (\<lambda>(k, v) m. if k \<in> set deletedKeys then m else if map_of m k = None then mput k v m else m) observedMap templateMap)"

definition lastKeys :: "'a ObjectMeta_scheme \<Rightarrow> string \<Rightarrow> string list" where
  "lastKeys clusterObj key = strSplit CHR '','' (mget [] (MAnnotations clusterObj) key)"

definition mergeAnnotations :: "'a ObjectMeta_scheme \<Rightarrow> 'b ObjectMeta_scheme \<Rightarrow> 'a ObjectMeta_scheme" where
  "mergeAnnotations desiredObj clusterObj =
     desiredObj\<lparr>MAnnotations := mergeStringMaps (MAnnotations desiredObj) (MAnnotations clusterObj)
       (lastKeys clusterObj PropagatedAnnotationKeys)\<rparr>"

definition mergeLabels :: "'a ObjectMeta_scheme \<Rightarrow> 'b ObjectMeta_scheme \<Rightarrow> 'a ObjectMeta_scheme" where
  "mergeLabels desiredObj clusterObj =
     desiredObj\<lparr>MLabels := mergeStringMaps (MLabels desiredObj) (MLabels clusterObj)
       (lastKeys clusterObj PropagatedLabelKeys)\<rparr>"


section \<open>Model: services\<close>

text \<open>Comparing two interface values panics when both are maps or both are slices.\<close>

fun interfaceEq :: "json \<Rightarrow> json \<Rightarrow> bool option" where
  "interfaceEq (JObj a) (JObj b) = None"
| "interfaceEq (JArr a) (JArr b) = None"
| "interfaceEq a b = Some (a = b)"

fun portsMatch :: "string list \<Rightarrow> (string \<times> json) list \<Rightarrow> (string \<times> json) list \<Rightarrow> bool option" where
  "portsMatch [] fPort cPort = Some True"
| "portsMatch (k # ks) fPort cPort =
     (case interfaceEq (mget JNull fPort k) (mget JNull cPort k) of
        None \<Rightarrow> None
      | Some False \<Rightarrow> Some False
      | Some True \<Rightarrow> portsMatch ks fPort cPort)"

fun retainNodePort :: "json \<Rightarrow> json list \<Rightarrow> json option" where
  "retainNodePort f [] = Some f"
| "retainNodePort f (c # cs) =
     (case (f, c) of
        (JObj fPort, JObj cPort) \<Rightarrow>
          (case portsMatch [''name'', ''protocol'', ''port''] fPort cPort of
             None \<Rightarrow> None
           | Some False \<Rightarrow> retainNodePort f cs
           | Some True \<Rightarrow>
               retainNodePort (case map_of cPort ''nodePort'' of None \<Rightarrow> f | Some np \<Rightarrow> JObj (mput ''nodePort'' np fPort)) cs)
      | _ \<Rightarrow> None)"

definition retainClusterIP :: "unstructuredOps \<Rightarrow> json \<Rightarrow> json \<Rightarrow> string + json" where
  "retainClusterIP ops desiredObj clusterObj =
     (case NestedString ops clusterObj [''spec'', ''clusterIP''] of
        Inl err \<Rightarrow> Inl (''Error retrieving clusterIP from cluster service: '' @ err)
      | Inr (Some clusterIP) \<Rightarrow>
          if clusterIP \<noteq> [] then
            map_sum (\<lambda>err. ''Error setting clusterIP for service: '' @ err) id
              (SetNestedField ops desiredObj (JStr clusterIP) [''spec'', ''clusterIP''])
          else Inr desiredObj
      | Inr None \<Rightarrow> Inr desiredObj)"

definition retainServiceFields :: "unstructuredOps \<Rightarrow> json \<Rightarrow> json \<Rightarrow> (string + json) option" where
  "retainServiceFields ops desiredObj clusterObj =
     (case retainClusterIP ops desiredObj clusterObj of
        Inl err \<Rightarrow> Some (Inl err)
      | Inr obj1 \<Rightarrow>
     (case NestedSlice ops clusterObj [''spec'', ''ports''] of
        Inl err \<Rightarrow> Some (Inl (''Error retrieving ports from cluster service: '' @ err))
      | Inr None \<Rightarrow> Some (Inr obj1)
      | Inr (Some clusterPorts) \<Rightarrow>
     (case NestedSlice ops obj1 [''spec'', ''ports''] of
        Inl err \<Rightarrow> Some (Inl (''Error retrieving ports from service: '' @ err))
      | Inr found \<Rightarrow>
          let desiredPorts = (case found of None \<Rightarrow> [] | Some ps \<Rightarrow> ps) in
          (case those (map (\<lambda>p. retainNodePort p clusterPorts) desiredPorts) of
             None \<Rightarrow> None
           | Some ports \<Rightarrow>
               Some (map_sum (\<lambda>err. ''Error setting ports for service: '' @ err) id
                 (SetNestedSlice ops obj1 (Some ports) [''spec'', ''ports'']))))))"


section \<open>Model: other kinds\<close>

definition retainServiceAccountFields :: "unstructuredOps \<Rightarrow> json \<Rightarrow> json \<Rightarrow> string + json" where
  "retainServiceAccountFields ops desiredObj clusterObj =
     (case NestedSlice ops desiredObj [''secrets''] of
        Inl err \<Rightarrow> Inl (''Error retrieving secrets from desired service account: '' @ err)
      | Inr desiredSecrets \<Rightarrow>
          if (case desiredSecrets of None \<Rightarrow> False | Some ss \<Rightarrow> length ss > 0) then Inr desiredObj
          else case NestedSlice ops clusterObj [''secrets''] of
            Inl err \<Rightarrow> Inl (''Error retrieving secrets from service account: '' @ err)
          | Inr None \<Rightarrow> Inr desiredObj
          | Inr (Some secrets) \<Rightarrow>
              if length secrets > 0 then
                map_sum (\<lambda>err. ''Error setting secrets for service account: '' @ err) id
                  (SetNestedField ops desiredObj (JArr secrets) [''secrets''])
              else Inr desiredObj)"

definition retainJobFields :: "unstructuredOps \<Rightarrow> json \<Rightarrow> json \<Rightarrow> string + json" where
  "retainJobFields ops desiredObj clusterObj =
     (if NestedBool ops desiredObj [''spec'', ''manualSelector''] = Inr (Some True) then Inr desiredObj
      else case copyUnstructuredField ops clusterObj desiredObj [''spec'', ''selector''] of
        Inl err \<Rightarrow> Inl err
      | Inr obj1 \<Rightarrow> copyUnstructuredField ops clusterObj obj1 [''spec'', ''template'', ''metadata'', ''labels''])"

definition retainPersistentVolumeFields :: "unstructuredOps \<Rightarrow> json \<Rightarrow> json \<Rightarrow> string + json" where
  "retainPersistentVolumeFields ops desiredObj clusterObj =
     copyUnstructuredField ops clusterObj desiredObj [''spec'', ''claimRef'']"

definition retainPersistentVolumeClaimFields :: "unstructuredOps \<Rightarrow> json \<Rightarrow> json \<Rightarrow> string + json" where
  "retainPersistentVolumeClaimFields ops desiredObj clusterObj =
     (case NestedString ops clusterObj [''spec'', ''volumeName''] of
        Inr (Some volumeName) \<Rightarrow> SetNestedField ops desiredObj (JStr volumeName) [''spec'', ''volumeName'']
      | _ \<Rightarrow> Inr desiredObj)"

definition retainArgoWorkflow :: "unstructuredOps \<Rightarrow> json \<Rightarrow> json \<Rightarrow> string + json" where
  "retainArgoWorkflow ops desiredObj clusterObj =
     (case NestedFieldNoCopy ops clusterObj [''status''] of
        Inl err \<Rightarrow> Inl err
      | Inr None \<Rightarrow> Inr desiredObj
      | Inr (Some status) \<Rightarrow> SetNestedField ops desiredObj status [''status''])"


section \<open>Model: pods\<close>

definition DefaultAPITokenMountPath :: string where
  "DefaultAPITokenMountPath = ''/var/run/secrets/kubernetes.io/serviceaccount''"

definition isObject :: "json \<Rightarrow> bool" where
  "isObject j = (case j of JObj m \<Rightarrow> True | _ \<Rightarrow> False)"

fun findMount :: "unstructuredOps \<Rightarrow> nat \<Rightarrow> json list \<Rightarrow> (json \<times> nat) option" where
  "findMount ops i [] = None"
| "findMount ops i (m # ms) =
     (if isObject m \<and> NestedString ops m [''mountPath''] = Inr (Some DefaultAPITokenMountPath) then Some (m, i)
      else findMount ops (Suc i) ms)"

definition findServiceAccountVolumeMount :: "unstructuredOps \<Rightarrow> json \<Rightarrow> (json \<times> nat) option" where
  "findServiceAccountVolumeMount ops container =
     (case NestedSlice ops container [''volumeMounts''] of
        Inr (Some volumeMounts) \<Rightarrow> findMount ops 0 volumeMounts
      | _ \<Rightarrow> None)"

definition retainContainer :: "unstructuredOps \<Rightarrow> json \<Rightarrow> json \<Rightarrow> string + json" where
  "retainContainer ops desiredContainer clusterContainer =
     (case NestedFieldNoCopy ops clusterContainer [''resources''] of
        Inl err \<Rightarrow> Inl err
      | Inr resources \<Rightarrow>
     (case (case resources of
              Some r \<Rightarrow> SetNestedField ops desiredContainer r [''resources'']
            | None \<Rightarrow> Inr (RemoveNestedField (uK8s ops) desiredContainer [''resources''])) of
        Inl err \<Rightarrow> Inl err
      | Inr container \<Rightarrow>
          if findServiceAccountVolumeMount ops container \<noteq> None then Inr container
          else case findServiceAccountVolumeMount ops clusterContainer of
            None \<Rightarrow> Inr container
          | Some (volumeMnt, idx) \<Rightarrow>
              let desiredVolumeMnts = (case sliceOrNil ops container [''volumeMounts''] of None \<Rightarrow> [] | Some ms \<Rightarrow> ms) in
              if length desiredVolumeMnts < idx then Inl ''failed to copy service account volume mount, slice length mismatch''
              else SetNestedSlice ops container
                (Some (take idx desiredVolumeMnts @ [volumeMnt] @ drop idx desiredVolumeMnts)) [''volumeMounts'']))"

definition containerNamed :: "unstructuredOps \<Rightarrow> string \<Rightarrow> json \<Rightarrow> bool" where
  "containerNamed ops name c \<longleftrightarrow> isObject c \<and> NestedString ops c [''name''] = Inr (Some name)"

fun retainContainers :: "unstructuredOps \<Rightarrow> json list \<Rightarrow> json list \<Rightarrow> string + json list" where
  "retainContainers ops [] clusterContainers = Inr []"
| "retainContainers ops (dc # dcs) clusterContainers =
     (let matched = (if isObject dc then
            (case NestedString ops dc [''name''] of
               Inr (Some desiredName) \<Rightarrow> find (containerNamed ops desiredName) clusterContainers
             | _ \<Rightarrow> None) else None)
      in case (case matched of None \<Rightarrow> Inr dc | Some cc \<Rightarrow> retainContainer ops dc cc) of
        Inl err \<Rightarrow> Inl err
      | Inr dc' \<Rightarrow> map_sum id ((#) dc') (retainContainers ops dcs clusterContainers))"

text \<open>\<open>retainContainers\<close> on the containers of the pods at a path, which are written back.\<close>

definition retainContainersAt :: "unstructuredOps \<Rightarrow> json \<Rightarrow> json \<Rightarrow> string list \<Rightarrow> string + json" where
  "retainContainersAt ops desiredObj clusterObj path =
     (let desired = sliceOrNil ops desiredObj path;
          cluster = (case sliceOrNil ops clusterObj path of None \<Rightarrow> [] | Some cs \<Rightarrow> cs)
      in case retainContainers ops (case desired of None \<Rightarrow> [] | Some ds \<Rightarrow> ds) cluster of
        Inl err \<Rightarrow> Inl err
      | Inr ds' \<Rightarrow> SetNestedSlice ops desiredObj (map_option (\<lambda>_. ds') desired) path)"

text \<open>A field that the desired pod does not set is copied from the cluster.\<close>

definition copyIfEmptyString :: "unstructuredOps \<Rightarrow> json \<Rightarrow> string list \<Rightarrow> json \<Rightarrow> string + json" where
  "copyIfEmptyString ops clusterObj path desiredObj =
     (case NestedString ops desiredObj path of
        Inl err \<Rightarrow> Inr desiredObj
      | Inr v \<Rightarrow>
          if v = None \<or> v = Some [] then copyUnstructuredField ops clusterObj desiredObj path else Inr desiredObj)"

definition copyIfNil :: "unstructuredOps \<Rightarrow> json \<Rightarrow> string list \<Rightarrow> json \<Rightarrow> string + json" where
  "copyIfNil ops clusterObj path desiredObj =
     (case NestedFieldNoCopy ops desiredObj path of
        Inl err \<Rightarrow> Inr desiredObj
      | Inr v \<Rightarrow>
          if v = None \<or> v = Some JNull then copyUnstructuredField ops clusterObj desiredObj path else Inr desiredObj)"

fun runSteps :: "(json \<Rightarrow> string + json) list \<Rightarrow> json \<Rightarrow> string + json" where
  "runSteps [] obj = Inr obj"
| "runSteps (f # fs) obj = (case f obj of Inl err \<Rightarrow> Inl err | Inr obj' \<Rightarrow> runSteps fs obj')"

definition retainPodFields :: "unstructuredOps \<Rightarrow> json \<Rightarrow> json \<Rightarrow> string + json" where
  "retainPodFields ops desiredObj clusterObj =
     runSteps [
       (\<lambda>d. copyUnstructuredField ops clusterObj d [''spec'', ''ephemeralContainers'']),
       (\<lambda>d. copyUnstructuredField ops clusterObj d [''spec'', ''volumes'']),
       copyIfEmptyString ops clusterObj [''spec'', ''serviceAccountName''],
       copyIfEmptyString ops clusterObj [''spec'', ''serviceAccount''],
       copyIfEmptyString ops clusterObj [''spec'', ''nodeName''],
       copyIfNil ops clusterObj [''spec'', ''priority''],
       copyIfNil ops clusterObj [''spec'', ''dnsConfig''],
       (\<lambda>d. retainContainersAt ops d clusterObj [''spec'', ''containers'']),
       (\<lambda>d. retainContainersAt ops d clusterObj [''spec'', ''initContainers''])] desiredObj"


section \<open>Model: all kinds\<close>

abbreviation ServiceGVK :: "string \<times> string \<times> string" where "ServiceGVK \<equiv> ([], ''v1'', ''Service'')"
abbreviation ServiceAccountGVK :: "string \<times> string \<times> string" where "ServiceAccountGVK \<equiv> ([], ''v1'', ''ServiceAccount'')"
abbreviation JobGVK :: "string \<times> string \<times> string" where "JobGVK \<equiv> (''batch'', ''v1'', ''Job'')"
abbreviation PersistentVolumeGVK :: "string \<times> string \<times> string" where "PersistentVolumeGVK \<equiv> ([], ''v1'', ''PersistentVolume'')"
abbreviation PersistentVolumeClaimGVK :: "string \<times> string \<times> string" where
  "PersistentVolumeClaimGVK \<equiv> ([], ''v1'', ''PersistentVolumeClaim'')"
abbreviation PodGVK :: "string \<times> string \<times> string" where "PodGVK \<equiv> ([], ''v1'', ''Pod'')"
abbreviation NamespaceGVK :: "string \<times> string \<times> string" where "NamespaceGVK \<equiv> ([], ''v1'', ''Namespace'')"

definition retainFields :: "unstructuredOps \<Rightarrow> string \<times> string \<times> string \<Rightarrow> json \<Rightarrow> json \<Rightarrow> (string + json) option" where
  "retainFields ops targetGvk desiredObj clusterObj =
     (if targetGvk = ServiceGVK then retainServiceFields ops desiredObj clusterObj
      else Some (
        if targetGvk = ServiceAccountGVK then retainServiceAccountFields ops desiredObj clusterObj
        else if targetGvk = JobGVK then retainJobFields ops desiredObj clusterObj
        else if targetGvk = PersistentVolumeGVK then retainPersistentVolumeFields ops desiredObj clusterObj
        else if targetGvk = PersistentVolumeClaimGVK then retainPersistentVolumeClaimFields ops desiredObj clusterObj
        else if targetGvk = PodGVK then retainPodFields ops desiredObj clusterObj
        else if targetGvk = (''argoproj.io'', ''v1alpha1'', ''Workflow'') then retainArgoWorkflow ops desiredObj clusterObj
        else Inr desiredObj))"

definition RetainOrMergeClusterFields ::
    "unstructuredOps \<Rightarrow> string \<times> string \<times> string \<Rightarrow> MemberObject \<Rightarrow> MemberObject \<Rightarrow> (string + MemberObject) option" where
  "RetainOrMergeClusterFields ops targetGvk desiredObj clusterObj =
     (let obj1 = mergeLabels (mergeAnnotations (desiredObj\<lparr>UResourceVersion := UResourceVersion clusterObj\<rparr>) clusterObj) clusterObj
      in map_option (map_sum id (\<lambda>body. obj1\<lparr>UBody := body\<rparr>)) (retainFields ops targetGvk (UBody obj1) (UBody clusterObj)))"

definition checkRetainReplicas :: "'a ObjectMeta_scheme \<Rightarrow> bool" where
  "checkRetainReplicas fedObj \<longleftrightarrow> mget [] (MAnnotations fedObj) RetainReplicasAnnotation = AnnotationValueTrue"

definition retainReplicas ::
    "unstructuredOps \<Rightarrow> MemberObject \<Rightarrow> MemberObject \<Rightarrow> 'a ObjectMeta_scheme \<Rightarrow> string \<Rightarrow> string + MemberObject" where
  "retainReplicas ops desiredObj clusterObj fedObj replicasPath =
     (if \<not> checkRetainReplicas fedObj then Inr desiredObj
      else case GetInt64FromPath (uK8s ops) (UBody clusterObj) replicasPath [] of
        Inl err \<Rightarrow> Inl err
      | Inr None \<Rightarrow> Inr desiredObj
      | Inr (Some replicas) \<Rightarrow>
          map_sum id (\<lambda>body. desiredObj\<lparr>UBody := body\<rparr>)
            (SetInt64FromPath (uK8s ops) (UBody desiredObj) replicasPath (Some replicas) []))"


section \<open>Statement vocabulary\<close>

text \<open>The annotations of a cluster object hold the keys that were propagated to it from a template.\<close>

definition propagatedFrom :: "'a ObjectMeta_scheme \<Rightarrow> 'b ObjectMeta_scheme \<Rightarrow> bool" where
  "propagatedFrom old clusterObj \<longleftrightarrow>
     map_of (MAnnotations clusterObj) PropagatedLabelKeys = Some (joinedKeys (MLabels old)) \<and>
     map_of (MAnnotations clusterObj) PropagatedAnnotationKeys = Some (joinedKeys (MAnnotations old))"

definition keys_plain :: "'a ObjectMeta_scheme \<Rightarrow> bool" where
  "keys_plain obj \<longleftrightarrow> list_all (\<lambda>k. CHR '','' \<notin> set k) (mkeys (MLabels obj) @ mkeys (MAnnotations obj))"

text \<open>The merge of a template and a cluster object, given the template that was propagated before.\<close>

definition threeWay :: "(string, string) gomap \<Rightarrow> (string, string) gomap \<Rightarrow> (string, string) gomap \<Rightarrow> string \<Rightarrow> string option" where
  "threeWay new old observed k =
     (case map_of new k of
        Some v \<Rightarrow> Some v
      | None \<Rightarrow> if map_of old k \<noteq> None then None else map_of observed k)"

text \<open>Example values for the witnesses.\<close>

definition retainOpsSample :: unstructuredOps where
  "retainOpsSample = \<lparr>uK8s = sampleK8s, NestedFieldNoCopy = (\<lambda>_ _. Inr None), NestedString = (\<lambda>_ _. Inr None), NestedBool = (\<lambda>_ _. Inr None),
     NestedSlice = (\<lambda>_ _. Inr None), SetNestedField = (\<lambda>obj _ _. Inr obj)\<rparr>"

definition templateSample :: MemberObject where
  "templateSample = \<lparr>MName = ''web'', MNamespace = ''ns'', MLabels = [(''app'', ''web''), (''old'', ''1'')], MAnnotations = [(''note'', ''a'')],
     MFinalizers = [], UGeneration = 1, UResourceVersion = [], UDeletionTimestamp = None, UBody = JObj []\<rparr>"

definition clusterSample :: MemberObject where
  "clusterSample = (recordPropagatedLabelsAndAnnotations templateSample)\<lparr>UResourceVersion := ''7'',
     MLabels := [(''app'', ''edited''), (''old'', ''1''), (''team'', ''x'')]\<rparr>"


section \<open>Joining and splitting keys\<close>

lemma splitOn_plain: "sep \<notin> set s \<Longrightarrow> splitOn sep (s @ r) acc = splitOn sep r (acc @ s)"
  by (induction s arbitrary: acc) auto

lemma splitOn_join:
  "xs \<noteq> [] \<Longrightarrow> \<forall>x \<in> set xs. sep \<notin> set x \<Longrightarrow> splitOn sep (joinStr [sep] xs) [] = xs"
proof (induction "[sep]" xs rule: joinStr.induct)
  case (2 s)
  then show ?case using splitOn_plain [of sep s "[]" "[]"] by simp
next
  case (3 s v va)
  then show ?case using splitOn_plain [of sep s "sep # joinStr [sep] (v # va)" "[]"] by simp
qed simp

lemma joinedKeys_split:
  assumes "\<forall>k \<in> set (mkeys m). CHR '','' \<notin> set k" "k \<noteq> []"
  shows "k \<in> set (strSplit CHR '','' (joinedKeys m)) \<longleftrightarrow> map_of m k \<noteq> None"
proof (cases "mkeys m = []")
  case True
  then have "m = []" by (simp add: mkeys_def)
  then show ?thesis using assms(2) by (simp add: joinedKeys_def strSplit_def)
next
  case False
  let ?ks = "sort (remdups (mkeys m))"
  have "set ?ks \<noteq> {}" using False by simp
  then have "?ks \<noteq> []" by (metis set_empty)
  moreover have "\<forall>k \<in> set ?ks. CHR '','' \<notin> set k" using assms(1) by simp
  ultimately have "splitOn CHR '','' (joinStr '','' ?ks) [] = ?ks" by (rule splitOn_join)
  then show ?thesis by (simp add: joinedKeys_def strSplit_def mkeys_def map_of_eq_None_iff)
qed


section \<open>Merging\<close>

lemma merge_fold:
  assumes "wf_map obs"
  shows "map_of (fold (\<lambda>(k, v) m. if k \<in> D then m else if map_of m k = None then mput k v m else m) obs m) k =
     (case map_of m k of Some v \<Rightarrow> Some v | None \<Rightarrow> if k \<in> D then None else map_of obs k)"
  using assms
proof (induction obs arbitrary: m)
  case (Cons p obs)
  obtain k0 v0 where p: "p = (k0, v0)" by fastforce
  have "wf_map obs" "map_of obs k0 = None" using Cons.prems by (auto simp: p wf_map_def map_of_eq_None_iff)
  with Cons.IH show ?case by (auto simp: p map_of_mput split: option.splits)
qed (simp split: option.split)

lemma mergeStringMaps_get:
  "wf_map observed \<Longrightarrow> map_of (mergeStringMaps template observed prev) k =
     (case map_of template k of Some v \<Rightarrow> Some v | None \<Rightarrow> if k \<in> set prev then None else map_of observed k)"
  using merge_fold [of observed "set (filter (\<lambda>k. map_of template k = None) prev)" template k]
  by (auto simp: mergeStringMaps_def split: option.splits)

lemma merge_threeWay:
  assumes "wf_map observed" "\<forall>k \<in> set (mkeys old). CHR '','' \<notin> set k" "k \<noteq> []"
  shows "map_of (mergeStringMaps template observed (strSplit CHR '','' (joinedKeys old))) k = threeWay template old observed k"
  unfolding threeWay_def mergeStringMaps_get [OF assms(1)] joinedKeys_split [OF assms(2,3)] by (simp split: option.split)

lemma key_names_differ: "PropagatedAnnotationKeys \<noteq> PropagatedLabelKeys" "PropagatedLabelKeys \<noteq> []" "PropagatedAnnotationKeys \<noteq> []"
  by (simp_all add: PropagatedAnnotationKeys_def PropagatedLabelKeys_def)

lemma record_annotations:
  "map_of (MAnnotations (recordPropagatedLabelsAndAnnotations d)) k =
     (if k = PropagatedAnnotationKeys then Some (joinedKeys (MAnnotations d))
      else if k = PropagatedLabelKeys then Some (joinedKeys (MLabels d)) else map_of (MAnnotations d) k)"
  "MLabels (recordPropagatedLabelsAndAnnotations d) = MLabels d"
  by (simp_all add: recordPropagatedLabelsAndAnnotations_def map_of_mput)

lemma RetainOrMerge_metadata:
  assumes "RetainOrMergeClusterFields ops g d c = Some (Inr r)"
  shows "MLabels r = mergeStringMaps (MLabels d) (MLabels c) (lastKeys c PropagatedLabelKeys)"
    and "MAnnotations r = mergeStringMaps (MAnnotations d) (MAnnotations c) (lastKeys c PropagatedAnnotationKeys)"
    and "UResourceVersion r = UResourceVersion c" "MName r = MName d" "MNamespace r = MNamespace d" "MFinalizers r = MFinalizers d"
proof -
  let ?o = "mergeLabels (mergeAnnotations (d\<lparr>UResourceVersion := UResourceVersion c\<rparr>) c) c"
  obtain body where r: "r = ?o\<lparr>UBody := body\<rparr>"
  proof -
    obtain x :: "string + json" where x: "map_sum id (\<lambda>body. ?o\<lparr>UBody := body\<rparr>) x = Inr r"
      using assms unfolding RetainOrMergeClusterFields_def Let_def map_option_eq_Some by blast
    then obtain body where "x = Inr body" by (cases x) simp_all
    with x have "?o\<lparr>UBody := body\<rparr> = r" by simp
    then show thesis using that by blast
  qed
  show "MLabels r = mergeStringMaps (MLabels d) (MLabels c) (lastKeys c PropagatedLabelKeys)"
    "MAnnotations r = mergeStringMaps (MAnnotations d) (MAnnotations c) (lastKeys c PropagatedAnnotationKeys)"
    "UResourceVersion r = UResourceVersion c" "MName r = MName d" "MNamespace r = MNamespace d" "MFinalizers r = MFinalizers d"
    by (simp_all add: r mergeLabels_def mergeAnnotations_def)
qed


section \<open>Properties\<close>

text \<open>
  C36.  Labels and annotations are merged three ways.  When a cluster object was propagated from an
  earlier template and a new template is prepared and merged into it, every label and annotation has
  the value of the new template, or is gone when only the earlier template had it, or else stays as it
  is in the cluster.  The merged object records the new template's keys, so the next update starts from
  the same situation, and it carries the resource version of the cluster's object.  Keys have no comma.
\<close>

theorem labels_merged_three_ways:
  assumes "propagatedFrom old cluster" "keys_plain old" "wf_map (MLabels cluster)" "wf_map (MAnnotations cluster)"
    and "RetainOrMergeClusterFields ops gvk (recordPropagatedLabelsAndAnnotations new) cluster = Some (Inr r)"
  shows "(\<forall>k. k = [] \<or> map_of (MLabels r) k = threeWay (MLabels new) (MLabels old) (MLabels cluster) k) \<and>
     (\<forall>k. k \<in> {[], PropagatedLabelKeys, PropagatedAnnotationKeys} \<or>
        map_of (MAnnotations r) k = threeWay (MAnnotations new) (MAnnotations old) (MAnnotations cluster) k) \<and>
     propagatedFrom new r \<and> UResourceVersion r = UResourceVersion cluster"
proof -
  let ?d = "recordPropagatedLabelsAndAnnotations new"
  note m = RetainOrMerge_metadata [OF assms(5)]
  have last: "lastKeys cluster PropagatedLabelKeys = strSplit CHR '','' (joinedKeys (MLabels old))"
      "lastKeys cluster PropagatedAnnotationKeys = strSplit CHR '','' (joinedKeys (MAnnotations old))"
    using assms(1) by (simp_all add: propagatedFrom_def lastKeys_def mget_def)
  have plain: "\<forall>k \<in> set (mkeys (MLabels old)). CHR '','' \<notin> set k" "\<forall>k \<in> set (mkeys (MAnnotations old)). CHR '','' \<notin> set k"
    using assms(2) by (auto simp: keys_plain_def list_all_iff)
  have l: "map_of (MLabels r) k = threeWay (MLabels new) (MLabels old) (MLabels cluster) k" if "k \<noteq> []" for k
    unfolding m(1) last record_annotations(2) by (rule merge_threeWay [OF assms(3) plain(1) that])
  have a: "map_of (MAnnotations r) k = threeWay (MAnnotations ?d) (MAnnotations old) (MAnnotations cluster) k" if "k \<noteq> []" for k
    unfolding m(2) last by (rule merge_threeWay [OF assms(4) plain(2) that])
  have "threeWay (MAnnotations ?d) (MAnnotations old) (MAnnotations cluster) k = threeWay (MAnnotations new) (MAnnotations old) (MAnnotations cluster) k"
    if "k \<notin> {PropagatedLabelKeys, PropagatedAnnotationKeys}" for k
    using that by (simp add: threeWay_def record_annotations)
  moreover have "propagatedFrom new r"
    using a [OF key_names_differ(2)] a [OF key_names_differ(3)] key_names_differ(1)
    by (auto simp: propagatedFrom_def threeWay_def record_annotations)
  ultimately show ?thesis using l a m(3) by (metis insertCI)
qed

theorem labels_merged_three_ways_witness:
  "\<exists>r. RetainOrMergeClusterFields retainOpsSample ServiceAccountGVK
       (recordPropagatedLabelsAndAnnotations (templateSample\<lparr>MLabels := [(''app'', ''web'')]\<rparr>)) clusterSample = Some (Inr r) \<and>
     map_of (MLabels r) ''app'' = Some ''web'' \<and> map_of (MLabels r) ''old'' = None \<and> map_of (MLabels r) ''team'' = Some ''x''"
proof -
  let ?new = "templateSample\<lparr>MLabels := [(''app'', ''web'')]\<rparr>"
  have 1: "propagatedFrom templateSample clusterSample" "keys_plain templateSample" by code_simp+
  have 2: "wf_map (MLabels clusterSample)" "wf_map (MAnnotations clusterSample)" by code_simp+
  obtain r where r: "RetainOrMergeClusterFields retainOpsSample ServiceAccountGVK (recordPropagatedLabelsAndAnnotations ?new) clusterSample = Some (Inr r)"
    by (simp add: RetainOrMergeClusterFields_def retainFields_def retainServiceAccountFields_def retainOpsSample_def Let_def)
  have 3: "threeWay (MLabels ?new) (MLabels templateSample) (MLabels clusterSample) ''app'' = Some ''web''"
      "threeWay (MLabels ?new) (MLabels templateSample) (MLabels clusterSample) ''old'' = None"
      "threeWay (MLabels ?new) (MLabels templateSample) (MLabels clusterSample) ''team'' = Some ''x''"
    by code_simp+
  have "\<forall>k. k = [] \<or> map_of (MLabels r) k = threeWay (MLabels ?new) (MLabels templateSample) (MLabels clusterSample) k"
    using labels_merged_three_ways [OF 1 2 r] by blast
  then have "map_of (MLabels r) ''app'' = Some ''web''" "map_of (MLabels r) ''old'' = None" "map_of (MLabels r) ''team'' = Some ''x''"
    using 3 by (metis list.distinct(1))+
  with r show ?thesis by blast
qed

end
