(* ===== verification/Plugins.thy ===== *)
theory Plugins
  imports Framework
begin

text \<open>
  The scheduler plugins, \<open>pkg/controllers/scheduler/framework/plugins\<close>, and the cluster selector
  \<open>pkg/util/clusterselector/util.go\<close> they use: filters return a \<open>Result\<close>, score plugins a score and a
  \<open>Result\<close>, select plugins a shorter or reordered score list.  A nil scheduling unit or cluster is
  \<open>None\<close>, as in \<open>PreCheck\<close>.  A panic of \<open>Resource.Sub\<close> is \<open>None\<close> of the resource plugins.
\<close>


section \<open>Model: cluster selectors\<close>

definition labelOperatorOf :: "string \<Rightarrow> labelOperator option" where
  "labelOperatorOf op =
     (if op = ''In'' then Some OpIn
      else if op = ''NotIn'' then Some OpNotIn
      else if op = ''Exists'' then Some OpExists
      else if op = ''DoesNotExist'' then Some OpDoesNotExist
      else if op = ''Gt'' then Some OpGreaterThan
      else if op = ''Lt'' then Some OpLessThan
      else None)"

text \<open>A \<open>labels.Selector\<close> is the predicate it computes on a label set.\<close>

type_synonym selector = "(string, string) gomap \<Rightarrow> bool"

fun addRequirements ::
    "externs \<Rightarrow> ClusterSelectorRequirement list \<Rightarrow> selector \<Rightarrow> string + selector" where
  "addRequirements ext [] sel = Inr sel"
| "addRequirements ext (expr # csm) sel =
     (case labelOperatorOf (CSOperator expr) of
        None \<Rightarrow> Inl (''invalid cluster selector operator '' @ CSOperator expr)
      | Some op \<Rightarrow>
          (case NewRequirement ext (CSKey expr) op (CSValues expr) of
             Inl err \<Rightarrow> Inl err
           | Inr r \<Rightarrow> addRequirements ext csm (\<lambda>ls. sel ls \<and> r ls)))"

definition ClusterSelectorRequirementsAsSelector ::
    "externs \<Rightarrow> ClusterSelectorRequirement list \<Rightarrow> string + selector" where
  "ClusterSelectorRequirementsAsSelector ext csm =
     (if csm = [] then Inr (\<lambda>_. False) else addRequirements ext csm (\<lambda>_. True))"

fun fieldSelectors ::
    "externs \<Rightarrow> ClusterSelectorRequirement list \<Rightarrow> string + selector list" where
  "fieldSelectors ext [] = Inr []"
| "fieldSelectors ext (expr # csm) =
     (if CSOperator expr \<noteq> ''In'' \<and> CSOperator expr \<noteq> ''NotIn''
      then Inl (''invalid cluster field selector operator '' @ CSOperator expr)
      else if length (CSValues expr) \<noteq> 1
      then Inl (''unexpected number of value for cluster field selector operator '' @ CSOperator expr)
      else
        (case fieldSelectors ext csm of
           Inl err \<Rightarrow> Inl err
         | Inr sels \<Rightarrow>
             Inr ((if CSOperator expr = ''In'' then OneTermEqual ext (CSKey expr) (hd (CSValues expr))
                   else OneTermNotEqual ext (CSKey expr) (hd (CSValues expr))) # sels)))"

definition ClusterSelectorRequirementsAsFieldSelector ::
    "externs \<Rightarrow> ClusterSelectorRequirement list \<Rightarrow> string + selector" where
  "ClusterSelectorRequirementsAsFieldSelector ext csm =
     (if csm = [] then Inr (\<lambda>_. False)
      else case fieldSelectors ext csm of
        Inl err \<Rightarrow> Inl err
      | Inr sels \<Rightarrow> Inr (\<lambda>fs. list_all (\<lambda>s. s fs) sels))"

fun MatchClusterSelectorTerms ::
    "externs \<Rightarrow> ClusterSelectorTerm list \<Rightarrow> FederatedCluster \<Rightarrow> string + bool" where
  "MatchClusterSelectorTerms ext [] cluster = Inr False"
| "MatchClusterSelectorTerms ext (req # terms) cluster =
     (if MatchExpressions req = [] \<and> MatchFields req = []
      then MatchClusterSelectorTerms ext terms cluster
      else
        case (if MatchExpressions req = [] then Inr True
              else case ClusterSelectorRequirementsAsSelector ext (MatchExpressions req) of
                Inl err \<Rightarrow> Inl err | Inr sel \<Rightarrow> Inr (sel (CLabels cluster))) of
          Inl err \<Rightarrow> Inl err
        | Inr False \<Rightarrow> MatchClusterSelectorTerms ext terms cluster
        | Inr True \<Rightarrow>
            (case (if MatchFields req = [] then Inr True
                   else case ClusterSelectorRequirementsAsFieldSelector ext (MatchFields req) of
                     Inl err \<Rightarrow> Inl err | Inr sel \<Rightarrow> Inr (sel [(''metadata.name'', CName cluster)])) of
               Inl err \<Rightarrow> Inl err
             | Inr False \<Rightarrow> MatchClusterSelectorTerms ext terms cluster
             | Inr True \<Rightarrow> Inr True))"


section \<open>Model: filter plugins\<close>

definition withPreCheck ::
    "SchedulingUnit option \<Rightarrow> FederatedCluster option
     \<Rightarrow> (SchedulingUnit \<Rightarrow> FederatedCluster \<Rightarrow> Result) \<Rightarrow> Result" where
  "withPreCheck su cluster k =
     (case PreCheck su cluster of
        Some err \<Rightarrow> NewResult Error [err]
      | None \<Rightarrow> k (the su) (the cluster))"

definition APIResources_Filter :: "SchedulingUnit option \<Rightarrow> FederatedCluster option \<Rightarrow> Result" where
  "APIResources_Filter su cluster = withPreCheck su cluster (\<lambda>su cluster.
     if list_ex (\<lambda>r. ARGroup r = SUGroup su \<and> ARVersion r = SUVersion su \<and> ARKind r = SUKind su)
          (CAPIResourceTypes cluster)
     then NewResult Success []
     else NewResult Unschedulable [''cluster(s) didn't support this APIVersion''])"

text \<open>\<open>now\<close> is the time read by \<open>metav1.Now()\<close>.\<close>

definition ClusterEvicted_Filter ::
    "int \<Rightarrow> SchedulingUnit option \<Rightarrow> FederatedCluster option \<Rightarrow> Result" where
  "ClusterEvicted_Filter now su cluster = withPreCheck su cluster (\<lambda>su cluster.
     case CustomMigration su of
       None \<Rightarrow> NewResult Success []
     | Some info \<Rightarrow>
         if list_ex (\<lambda>u. CName cluster = UCCluster u \<and> now < ValidUntil u) (UnavailableClusters info)
         then NewResult Unschedulable [''cluster(s) were evicted due to custom migration configuration'']
         else NewResult Success [])"

definition ClusterReady_Filter :: "SchedulingUnit option \<Rightarrow> FederatedCluster option \<Rightarrow> Result" where
  "ClusterReady_Filter su cluster = withPreCheck su cluster (\<lambda>su cluster.
     if map_of (CurrentClusters su) (CName cluster) = None \<and> \<not> IsClusterReady (CConditions cluster)
     then NewResult Unschedulable [''cluster(s) were unready'']
     else NewResult Success [])"

definition ClusterTerminating_Filter :: "SchedulingUnit option \<Rightarrow> FederatedCluster option \<Rightarrow> Result" where
  "ClusterTerminating_Filter su cluster = withPreCheck su cluster (\<lambda>su cluster.
     if CDeletionTimestamp cluster \<noteq> None
     then NewResult Unschedulable [''cluster(s) were terminating'']
     else NewResult Success [])"

definition PlacementFilter_Filter :: "SchedulingUnit option \<Rightarrow> FederatedCluster option \<Rightarrow> Result" where
  "PlacementFilter_Filter su cluster = withPreCheck su cluster (\<lambda>su cluster.
     if ClusterNames su = [] then NewResult Success []
     else if CName cluster \<notin> set (ClusterNames su)
     then NewResult Unschedulable [''cluster(s) were not in placement list'']
     else NewResult Success [])"

definition taintFilterPredicate :: "bool \<Rightarrow> Taint \<Rightarrow> bool" where
  "taintFilterPredicate isClusterScheduled t =
     (if isClusterScheduled then TaintEffect t = ''NoExecute''
      else TaintEffect t = ''NoSchedule'' \<or> TaintEffect t = ''NoExecute'')"

definition TaintToleration_Filter ::
    "externs \<Rightarrow> SchedulingUnit option \<Rightarrow> FederatedCluster option \<Rightarrow> Result" where
  "TaintToleration_Filter ext su cluster = withPreCheck su cluster (\<lambda>su cluster.
     let isClusterScheduled = (map_of (CurrentClusters su) (CName cluster) \<noteq> None) in
     case FindMatchingUntoleratedTaint ext (CTaints cluster) (Tolerations su)
            (Some (taintFilterPredicate isClusterScheduled)) of
       None \<Rightarrow> NewResult Success []
     | Some taint \<Rightarrow>
         NewResult Unschedulable [''cluster(s) had taint {'' @ TaintKey taint @ '': '' @ TaintValue taint @
           ''}, that the schedulingUnit didn't tolerate''])"

definition ClusterAffinity_Filter ::
    "externs \<Rightarrow> SchedulingUnit option \<Rightarrow> FederatedCluster option \<Rightarrow> Result" where
  "ClusterAffinity_Filter ext su cluster = withPreCheck su cluster (\<lambda>su cluster.
     let mismatch = NewResult Unschedulable [''cluster(s) didn't match cluster selector''] in
     if ClusterSelector su \<noteq> [] \<and> \<not> SelectorFromSetMatches ext (ClusterSelector su) (CLabels cluster)
     then mismatch
     else case SUAffinity su of
       None \<Rightarrow> NewResult Success []
     | Some affinity \<Rightarrow>
         (case RequiredTerms affinity of
            None \<Rightarrow> NewResult Success []
          | Some terms \<Rightarrow>
              (case MatchClusterSelectorTerms ext terms cluster of
                 Inl _ \<Rightarrow> mismatch
               | Inr matched \<Rightarrow> if matched then NewResult Success [] else mismatch)))"

text \<open>\<open>clusterresources/fit.go\<close>.\<close>

definition getFederatedClusterAllocatableResource :: "externs \<Rightarrow> FederatedCluster \<Rightarrow> Resource" where
  "getFederatedClusterAllocatableResource ext cluster = NewResource ext (CAllocatable cluster)"

definition getFederatedClusterRequestResource :: "externs \<Rightarrow> FederatedCluster \<Rightarrow> Resource option" where
  "getFederatedClusterRequestResource ext cluster =
     (case ResourceSub ext (CAvailable cluster) (NewResource ext (CAllocatable cluster)) of
        SubOk r \<Rightarrow> Some r
      | SubErr r _ \<Rightarrow> Some r
      | SubPanic \<Rightarrow> None)"

definition fitsRequest ::
    "externs \<Rightarrow> SchedulingUnit \<Rightarrow> FederatedCluster \<Rightarrow> InsufficientResource list option" where
  "fitsRequest ext su cluster =
     (let scRequest = ResourceRequest su;
          clusterAllocatable = getFederatedClusterAllocatableResource ext cluster in
      case getFederatedClusterRequestResource ext cluster of
        None \<Rightarrow> None
      | Some clusterRequest \<Rightarrow>
          if MilliCPU scRequest = 0 \<and> Memory scRequest = 0 \<and> EphemeralStorage scRequest = 0 \<and>
             (case ScalarResources scRequest of None \<Rightarrow> True | Some m \<Rightarrow> m = [])
          then Some []
          else Some (
            (if MilliCPU clusterAllocatable < add64 (MilliCPU scRequest) (MilliCPU clusterRequest)
             then [\<lparr>IRName = ''cpu'', IRReason = ''Insufficient cpu'', IRRequested = MilliCPU scRequest,
                    IRUsed = MilliCPU clusterRequest, IRCapacity = MilliCPU clusterAllocatable\<rparr>]
             else []) @
            (if Memory clusterAllocatable < add64 (Memory scRequest) (Memory clusterRequest)
             then [\<lparr>IRName = ''memory'', IRReason = ''Insufficient memory'', IRRequested = Memory scRequest,
                    IRUsed = Memory clusterRequest, IRCapacity = Memory clusterAllocatable\<rparr>]
             else []) @
            concat (map (\<lambda>(rName, rQuant).
                if rQuant \<le> 0 then []
                else if scalarOf clusterAllocatable rName < add64 rQuant (scalarOf clusterRequest rName)
                then [\<lparr>IRName = rName, IRReason = ''Insufficient '' @ rName,
                       IRRequested = scalarOf scRequest rName, IRUsed = scalarOf clusterRequest rName,
                       IRCapacity = scalarOf clusterAllocatable rName\<rparr>]
                else [])
              (case ScalarResources scRequest of None \<Rightarrow> [] | Some m \<Rightarrow> m))))"

definition ClusterResourcesFit_Filter ::
    "externs \<Rightarrow> SchedulingUnit option \<Rightarrow> FederatedCluster option \<Rightarrow> Result option" where
  "ClusterResourcesFit_Filter ext su cluster =
     (case PreCheck su cluster of
        Some err \<Rightarrow> Some (NewResult Error [err])
      | None \<Rightarrow>
          if map_of (CurrentClusters (the su)) (CName (the cluster)) \<noteq> None
          then Some (NewResult Success [])
          else
            (case fitsRequest ext (the su) (the cluster) of
               None \<Rightarrow> None
             | Some insufficient \<Rightarrow>
                 if insufficient \<noteq> [] then Some (NewResult Unschedulable (map IRReason insufficient))
                 else Some (NewResult Success [])))"

definition KatalystResourcesExist_Filter ::
    "externs \<Rightarrow> SchedulingUnit option \<Rightarrow> FederatedCluster option \<Rightarrow> Result" where
  "KatalystResourcesExist_Filter ext su cluster = withPreCheck su cluster (\<lambda>su cluster.
     if map_of (CurrentClusters su) (CName cluster) \<noteq> None then NewResult Success []
     else if GetKatalystResources ext (ResourceRequest su) \<noteq> [] \<and>
             GetKatalystResources ext (NewResource ext (CAllocatable cluster)) = []
     then NewResult Unschedulable [''Katalyst resource does not exist'']
     else NewResult Success [])"


section \<open>Model: score plugins\<close>

definition countIntolerableTaintsPreferNoSchedule ::
    "externs \<Rightarrow> Taint list \<Rightarrow> Toleration list \<Rightarrow> int64" where
  "countIntolerableTaintsPreferNoSchedule ext taints tolerations =
     fold (\<lambda>t n. if TaintEffect t \<noteq> ''PreferNoSchedule'' then n
                 else if \<not> TolerationsTolerateTaint ext tolerations t then add64 n 1 else n) taints 0"

definition getTolerationsPreferNoSchedule :: "SchedulingUnit \<Rightarrow> Toleration list" where
  "getTolerationsPreferNoSchedule su =
     filter (\<lambda>t. TolerationEffect t = [] \<or> TolerationEffect t = ''PreferNoSchedule'') (Tolerations su)"

definition TaintToleration_Score ::
    "externs \<Rightarrow> SchedulingUnit option \<Rightarrow> FederatedCluster option \<Rightarrow> int64 \<times> Result" where
  "TaintToleration_Score ext su cluster =
     (case PreCheck su cluster of
        Some err \<Rightarrow> (0, NewResult Error [err])
      | None \<Rightarrow> (countIntolerableTaintsPreferNoSchedule ext (CTaints (the cluster))
                   (getTolerationsPreferNoSchedule (the su)), NewResult Success []))"

definition TaintToleration_NormalizeScore :: "ClusterScore list \<Rightarrow> ClusterScore list" where
  "TaintToleration_NormalizeScore = DefaultNormalizeScore MaxClusterScore True"

fun affinityScore ::
    "externs \<Rightarrow> PreferredSchedulingTerm list \<Rightarrow> FederatedCluster \<Rightarrow> int64 \<Rightarrow> string + int64" where
  "affinityScore ext [] cluster score = Inr score"
| "affinityScore ext (t # ts) cluster score =
     (if PWeight t = 0 then affinityScore ext ts cluster score
      else case ClusterSelectorRequirementsAsSelector ext (MatchExpressions (PPreference t)) of
        Inl err \<Rightarrow> Inl err
      | Inr sel \<Rightarrow>
          affinityScore ext ts cluster
            (if sel (CLabels cluster) then add64 score (PWeight t) else score))"

definition ClusterAffinity_Score ::
    "externs \<Rightarrow> SchedulingUnit option \<Rightarrow> FederatedCluster option \<Rightarrow> int64 \<times> Result" where
  "ClusterAffinity_Score ext su cluster =
     (case PreCheck su cluster of
        Some err \<Rightarrow> (0, NewResult Error [err])
      | None \<Rightarrow>
          (case (case SUAffinity (the su) of None \<Rightarrow> Inr 0
                 | Some a \<Rightarrow> affinityScore ext (PreferredTerms a) (the cluster) 0) of
             Inl err \<Rightarrow> (0, NewResult Error [err])
           | Inr score \<Rightarrow> (score, NewResult Success [])))"

definition ClusterAffinity_NormalizeScore :: "ClusterScore list \<Rightarrow> ClusterScore list" where
  "ClusterAffinity_NormalizeScore = DefaultNormalizeScore MaxClusterScore False"

definition calculateResourceAllocatableRequest ::
    "externs \<Rightarrow> SchedulingUnit \<Rightarrow> FederatedCluster \<Rightarrow> string \<Rightarrow> (int64 \<times> int64) option" where
  "calculateResourceAllocatableRequest ext su cluster resource =
     (let scRequest = ResourceRequest su;
          clusterAllocatable = getFederatedClusterAllocatableResource ext cluster in
      case getFederatedClusterRequestResource ext cluster of
        None \<Rightarrow> None
      | Some clusterRequest \<Rightarrow> Some (
          if resource = ''cpu'' then
            (MilliCPU clusterAllocatable, add64 (MilliCPU clusterRequest) (MilliCPU scRequest))
          else if resource = ''memory'' then
            (Memory clusterAllocatable, add64 (Memory clusterRequest) (Memory scRequest))
          else if resource = ''ephemeral-storage'' then
            (EphemeralStorage clusterAllocatable,
             add64 (EphemeralStorage clusterRequest) (EphemeralStorage scRequest))
          else if IsScalarResourceName ext resource then
            (scalarOf clusterAllocatable resource,
             add64 (scalarOf clusterRequest resource) (scalarOf scRequest resource))
          else (0, 0)))"

definition getRelevantResources :: "externs \<Rightarrow> SchedulingUnit \<Rightarrow> string list" where
  "getRelevantResources ext su =
     [''cpu'', ''memory''] @
     filter (IsScalarResourceName ext)
       (case ScalarResources (ResourceRequest su) of None \<Rightarrow> [] | Some m \<Rightarrow> mkeys m) @
     (if EphemeralStorage (ResourceRequest su) \<noteq> 0 then [''ephemeral-storage''] else [])"

fun getAllocatableAndRequested ::
    "externs \<Rightarrow> SchedulingUnit \<Rightarrow> FederatedCluster \<Rightarrow> string list
     \<Rightarrow> ((string, int64) gomap \<times> (string, int64) gomap) option" where
  "getAllocatableAndRequested ext su cluster [] = Some ([], [])"
| "getAllocatableAndRequested ext su cluster (r # rs) =
     (case calculateResourceAllocatableRequest ext su cluster r of
        None \<Rightarrow> None
      | Some (a, q) \<Rightarrow>
          (case getAllocatableAndRequested ext su cluster rs of
             None \<Rightarrow> None
           | Some (alloc, req) \<Rightarrow> Some ((r, a) # alloc, (r, q) # req)))"

definition leastRequestedScore :: "int64 \<Rightarrow> int64 \<Rightarrow> int64" where
  "leastRequestedScore requested capacity =
     (if capacity = 0 then 0
      else if requested > capacity then 0
      else div64 (mul64 (sub64 capacity requested) MaxClusterScore) capacity)"

definition mostRequestedScore :: "int64 \<Rightarrow> int64 \<Rightarrow> int64" where
  "mostRequestedScore requested capacity =
     (if capacity = 0 then 0
      else if requested > capacity then 0
      else div64 (mul64 requested MaxClusterScore) capacity)"

definition DefaultRequestedRatioResources :: "(string, int64) gomap" where
  "DefaultRequestedRatioResources = [(''memory'', 1), (''cpu'', 1), (''nvidia.com/gpu'', 4)]"

definition DefaultRatio :: int64 where
  "DefaultRatio = 1"

text \<open>The scoring loop that \<open>ClusterResourcesLeastAllocated\<close> and \<open>..MostAllocated\<close> share.\<close>

definition allocationScore ::
    "(int64 \<Rightarrow> int64 \<Rightarrow> int64) \<Rightarrow> string list \<Rightarrow> (string, int64) gomap \<Rightarrow> (string, int64) gomap \<Rightarrow> int64" where
  "allocationScore f resources allocatable requested =
     (let (score, weightSum) = fold (\<lambda>r (score, weightSum).
            let resourceScore = f (mget 0 requested r) (mget 0 allocatable r);
                weight = mget DefaultRatio DefaultRequestedRatioResources r
            in (add64 score (mul64 resourceScore weight), add64 weightSum weight)) resources (0, 0)
      in if weightSum = 0 then 0 else div64 score weightSum)"

definition allocatedScore ::
    "(int64 \<Rightarrow> int64 \<Rightarrow> int64) \<Rightarrow> externs \<Rightarrow> SchedulingUnit option \<Rightarrow> FederatedCluster option
     \<Rightarrow> (int64 \<times> Result) option" where
  "allocatedScore f ext su cluster =
     (case PreCheck su cluster of
        Some err \<Rightarrow> Some (0, NewResult Error [err])
      | None \<Rightarrow>
          let resources = getRelevantResources ext (the su) in
          map_option (\<lambda>(allocatable, requested).
              (allocationScore f resources allocatable requested, NewResult Success []))
            (getAllocatableAndRequested ext (the su) (the cluster) resources))"

definition ClusterResourcesLeastAllocated_Score ::
    "externs \<Rightarrow> SchedulingUnit option \<Rightarrow> FederatedCluster option \<Rightarrow> (int64 \<times> Result) option" where
  "ClusterResourcesLeastAllocated_Score = allocatedScore leastRequestedScore"

definition ClusterResourcesMostAllocated_Score ::
    "externs \<Rightarrow> SchedulingUnit option \<Rightarrow> FederatedCluster option \<Rightarrow> (int64 \<times> Result) option" where
  "ClusterResourcesMostAllocated_Score = allocatedScore mostRequestedScore"


section \<open>Model: select plugins\<close>

definition MaxCluster_SelectClusters ::
    "SchedulingUnit \<Rightarrow> ClusterScore list \<Rightarrow> ClusterScore list option \<times> Result" where
  "MaxCluster_SelectClusters su clusterScoreList =
     (case MaxClusters su of
        Some m \<Rightarrow>
          if m < 0 then (None, NewResult Unschedulable [''max cluster is less than 0''])
          else (let sorted = sort_key (\<lambda>s. - Score s) clusterScoreList in
                Some (if m < int (length sorted) then take (nat m) sorted else sorted),
                NewResult Success [])
      | None \<Rightarrow> (Some (sort_key (\<lambda>s. - Score s) clusterScoreList), NewResult Success []))"

definition PrioritySort_SelectClusters ::
    "SchedulingUnit \<Rightarrow> ClusterScore list \<Rightarrow> ClusterScore list \<times> Result" where
  "PrioritySort_SelectClusters su clusterScoreList =
     (let ret = (if Priorities su \<noteq> [] \<or> (SUSchedulingMode su = Divide \<and> SUReplicasStrategy su = Binpack)
                 then map (\<lambda>s. \<lparr>SCluster = SCluster s, Score = mget 0 (Priorities su) (CName (SCluster s))\<rparr>)
                        clusterScoreList
                 else clusterScoreList)
      in (sort_key (\<lambda>s. (- Score s, CName (SCluster s))) ret, NewResult Success []))"


text \<open>
  Statement vocabulary: a cluster whose reported resources are consistent (nothing negative,
  nothing out of range, no more available than allocatable), and a sane resource request.
\<close>

definition cluster_ok :: "externs \<Rightarrow> FederatedCluster \<Rightarrow> bool" where
  "cluster_ok ext c \<longleftrightarrow> wf_map (CAllocatable c) \<and> wf_map (CAvailable c) \<and>
     list_all (\<lambda>(n, q). 0 \<le> qamount n q \<and> qamount n q < 2 ^ 55) (CAllocatable c) \<and>
     list_all (\<lambda>(n, q). 0 \<le> qamount n q \<and>
       (counted ext n \<longrightarrow> qamount n q \<le> lamount ext (CAllocatable c) n)) (CAvailable c) \<and>
     (scalarEntries ext (CAvailable c) \<longrightarrow> scalarEntries ext (CAllocatable c))"

definition request_ok :: "externs \<Rightarrow> Resource \<Rightarrow> bool" where
  "request_ok ext r \<longleftrightarrow>
     0 \<le> MilliCPU r \<and> MilliCPU r < 2 ^ 62 \<and> 0 \<le> Memory r \<and> Memory r < 2 ^ 62 \<and>
     0 \<le> EphemeralStorage r \<and> EphemeralStorage r < 2 ^ 62 \<and>
     (case ScalarResources r of None \<Rightarrow> True
      | Some m \<Rightarrow> wf_map m \<and> int (length m) < 2 ^ 40 \<and>
          list_all (\<lambda>(n, v). IsScalarResourceName ext n \<and> 0 \<le> v \<and> v < 2 ^ 62) m)"

definition requestEmpty :: "Resource \<Rightarrow> bool" where
  "requestEmpty r \<longleftrightarrow> MilliCPU r = 0 \<and> Memory r = 0 \<and> EphemeralStorage r = 0 \<and>
     (case ScalarResources r of None \<Rightarrow> True | Some m \<Rightarrow> m = [])"

definition scalarList :: "Resource \<Rightarrow> (string, int64) gomap" where
  "scalarList r = (case ScalarResources r of None \<Rightarrow> [] | Some m \<Rightarrow> m)"

text \<open>The meaning of a single selector requirement.\<close>

definition validRequirement :: "externs \<Rightarrow> ClusterSelectorRequirement \<Rightarrow> bool" where
  "validRequirement ext e = (case labelOperatorOf (CSOperator e) of None \<Rightarrow> False
     | Some op \<Rightarrow> \<not> isl (NewRequirement ext (CSKey e) op (CSValues e)))"

definition requirementMatches ::
    "externs \<Rightarrow> ClusterSelectorRequirement \<Rightarrow> (string, string) gomap \<Rightarrow> bool" where
  "requirementMatches ext e ls = (case labelOperatorOf (CSOperator e) of None \<Rightarrow> False
     | Some op \<Rightarrow> (case NewRequirement ext (CSKey e) op (CSValues e) of Inl _ \<Rightarrow> False | Inr r \<Rightarrow> r ls))"

definition validFieldRequirement :: "ClusterSelectorRequirement \<Rightarrow> bool" where
  "validFieldRequirement e \<longleftrightarrow> CSOperator e \<in> {''In'', ''NotIn''} \<and> length (CSValues e) = 1"

definition fieldRequirementMatches ::
    "externs \<Rightarrow> ClusterSelectorRequirement \<Rightarrow> (string, string) gomap \<Rightarrow> bool" where
  "fieldRequirementMatches ext e fs =
     (if CSOperator e = ''In'' then OneTermEqual ext (CSKey e) (hd (CSValues e)) fs
      else OneTermNotEqual ext (CSKey e) (hd (CSValues e)) fs)"


section \<open>Resources of a cluster\<close>

lemma builtin_not_scalar:
  "\<not> IsScalarResourceName ext ''cpu''" "\<not> IsScalarResourceName ext ''memory''"
  "\<not> IsScalarResourceName ext ''ephemeral-storage''"
  by (simp_all add: IsScalarResourceName_def IsExtendedResourceName_def IsNativeResource_def
      IsPrefixedNativeResource_def IsHugePageResourceName_def IsAttachableVolumeResourceName_def hasPrefix_def)

lemma scalarOf_amount: "IsScalarResourceName ext n \<Longrightarrow> scalarOf r n = amount r n"
  using builtin_not_scalar [of ext] by (auto simp: amount_def)

lemma amount_cpu: "amount r ''cpu'' = MilliCPU r" "amount r ''memory'' = Memory r"
  "amount r ''ephemeral-storage'' = EphemeralStorage r"
  by (simp_all add: amount_def)

lemma lamount_range:
  assumes "list_all (\<lambda>(n, q). 0 \<le> qamount n q \<and> qamount n q < B) rl" "0 < B"
  shows "0 \<le> lamount ext rl k \<and> lamount ext rl k < B"
  using assms by (auto simp: lamount_def list_all_iff split: option.splits dest!: map_of_SomeD)

lemma cluster_resources:
  assumes "cluster_ok ext c"
  shows "\<exists>used. getFederatedClusterRequestResource ext c = Some used \<and>
      (\<forall>k. amount used k = lamount ext (CAllocatable c) k - lamount ext (CAvailable c) k)"
    and "amount (getFederatedClusterAllocatableResource ext c) k = lamount ext (CAllocatable c) k"
    and "0 \<le> lamount ext (CAvailable c) k" "lamount ext (CAvailable c) k \<le> lamount ext (CAllocatable c) k"
      "lamount ext (CAllocatable c) k < 2 ^ 55"
proof -
  have al: "0 \<le> lamount ext (CAllocatable c) k \<and> lamount ext (CAllocatable c) k < 2 ^ 55" for k
    using assms by (intro lamount_range) (auto simp: cluster_ok_def)
  have al64: "in64 (lamount ext (CAllocatable c) k)" for k
    using al [of k] by (simp add: in64_def)
  have av: "0 \<le> lamount ext (CAvailable c) k \<and> lamount ext (CAvailable c) k \<le> lamount ext (CAllocatable c) k" for k
  proof (cases "counted ext k \<and> map_of (CAvailable c) k \<noteq> None")
    case True
    then obtain q where q: "map_of (CAvailable c) k = Some q" "counted ext k" by blast
    then have "0 \<le> qamount k q \<and> qamount k q \<le> lamount ext (CAllocatable c) k"
      using assms map_of_SomeD [OF q(1)] by (auto simp: cluster_ok_def list_all_iff)
    then show ?thesis using q by (simp add: lamount_def [of ext "CAvailable c"])
  next
    case False
    then show ?thesis using al [of k] by (auto simp: lamount_def [of ext "CAvailable c"])
  qed
  have new: "amount (NewResource ext (CAllocatable c)) k = lamount ext (CAllocatable c) k" for k
    using assms al al64 by (intro amount_NewResource) (auto simp: cluster_ok_def)
  then show "amount (getFederatedClusterAllocatableResource ext c) k = lamount ext (CAllocatable c) k"
    by (simp add: getFederatedClusterAllocatableResource_def)
  have "scalarEntries ext (CAvailable c) \<Longrightarrow> ScalarResources (NewResource ext (CAllocatable c)) \<noteq> None"
    using assms NewResource_scalars by (auto simp: cluster_ok_def)
  then show "\<exists>used. getFederatedClusterRequestResource ext c = Some used \<and>
      (\<forall>k. amount used k = lamount ext (CAllocatable c) k - lamount ext (CAvailable c) k)"
    using amount_ResourceSub [of "CAvailable c" "NewResource ext (CAllocatable c)" ext] assms new al64 av
    by (auto simp: cluster_ok_def getFederatedClusterRequestResource_def)
  show "0 \<le> lamount ext (CAvailable c) k" "lamount ext (CAvailable c) k \<le> lamount ext (CAllocatable c) k"
      "lamount ext (CAllocatable c) k < 2 ^ 55"
    using al av by auto
qed

text \<open>An amount is short exactly when it exceeds what is available.\<close>

lemma short_iff:
  assumes "cluster_ok ext c" "getFederatedClusterRequestResource ext c = Some used" "0 \<le> x" "x < 2 ^ 62"
  shows "amount (getFederatedClusterAllocatableResource ext c) k < add64 x (amount used k) \<longleftrightarrow>
      lamount ext (CAvailable c) k < x"
proof -
  have u: "amount used k = lamount ext (CAllocatable c) k - lamount ext (CAvailable c) k"
    using cluster_resources(1) [OF assms(1)] assms(2) by auto
  note R = cluster_resources(2-5) [OF assms(1), of k]
  have "in64 (x + amount used k)" using R u assms(3,4) by (intro in64I) auto
  then show ?thesis using R u by (simp add: add64_exact)
qed


lemma fitsRequest_iff:
  assumes ok: "cluster_ok ext c" and rq: "request_ok ext (ResourceRequest su)"
  shows "\<exists>ins. fitsRequest ext su c = Some ins \<and>
      (ins = [] \<longleftrightarrow> requestEmpty (ResourceRequest su) \<or>
         (MilliCPU (ResourceRequest su) \<le> lamount ext (CAvailable c) ''cpu'' \<and>
          Memory (ResourceRequest su) \<le> lamount ext (CAvailable c) ''memory'' \<and>
          (\<forall>(n, v) \<in> set (scalarList (ResourceRequest su)). v \<le> lamount ext (CAvailable c) n)))"
proof -
  let ?r = "ResourceRequest su"
  obtain used where used: "getFederatedClusterRequestResource ext c = Some used"
    using cluster_resources(1) [OF ok] by blast
  note S = short_iff [OF ok used]
  let ?a = "getFederatedClusterAllocatableResource ext c"
  have cpu: "MilliCPU ?a < add64 (MilliCPU ?r) (MilliCPU used) \<longleftrightarrow> lamount ext (CAvailable c) ''cpu'' < MilliCPU ?r"
    using S [of "MilliCPU ?r" "''cpu''"] rq by (simp add: amount_cpu request_ok_def)
  have mem: "Memory ?a < add64 (Memory ?r) (Memory used) \<longleftrightarrow> lamount ext (CAvailable c) ''memory'' < Memory ?r"
    using S [of "Memory ?r" "''memory''"] rq by (simp add: amount_cpu request_ok_def)
  have sc: "\<not> v \<le> 0 \<and> scalarOf ?a n < add64 v (scalarOf used n) \<longleftrightarrow> lamount ext (CAvailable c) n < v"
    if "(n, v) \<in> set (scalarList ?r)" for n v
  proof -
    have n: "IsScalarResourceName ext n" "0 \<le> v" "v < 2 ^ 62"
      using that rq by (auto simp: request_ok_def scalarList_def list_all_iff split: option.splits)
    show ?thesis
      using S [OF n(2,3), of n] cluster_resources(3) [OF ok, of n] scalarOf_amount [OF n(1)] by auto
  qed
  have "fitsRequest ext su c = Some [] \<or> fitsRequest ext su c \<noteq> None" by (simp add: fitsRequest_def used Let_def)
  moreover have "fitsRequest ext su c = Some ins \<Longrightarrow> (ins = [] \<longleftrightarrow> requestEmpty ?r \<or>
         (MilliCPU ?r \<le> lamount ext (CAvailable c) ''cpu'' \<and> Memory ?r \<le> lamount ext (CAvailable c) ''memory'' \<and>
          (\<forall>(n, v) \<in> set (scalarList ?r). v \<le> lamount ext (CAvailable c) n)))" for ins
    using sc unfolding fitsRequest_def Let_def used option.case requestEmpty_def [symmetric] cpu mem
      scalarList_def [symmetric]
    by (fastforce split: if_splits)
  ultimately show ?thesis by blast
qed

text \<open>The score of one resource, and the weighted average of such scores.\<close>

lemma requestedScore_range:
  assumes "0 \<le> requested" "0 \<le> capacity" "capacity < 2 ^ 55"
  shows "0 \<le> leastRequestedScore requested capacity \<and> leastRequestedScore requested capacity \<le> 100"
    and "0 \<le> mostRequestedScore requested capacity \<and> mostRequestedScore requested capacity \<le> 100"
proof -
  have N: "0 \<le> div64 (mul64 x 100) capacity \<and> div64 (mul64 x 100) capacity \<le> 100"
    if "0 \<le> x" "x \<le> capacity" "capacity \<noteq> 0" for x
  proof -
    have "0 < capacity" "in64 (100 * capacity)" using that assms by (auto simp: in64_def)
    from normalize_score [OF this(1) that(1,2) _ this(2)] show ?thesis
      by (simp add: mul64_def mult.commute)
  qed
  have "sub64 capacity requested = capacity - requested" if "requested \<le> capacity"
    using that assms by (intro sub64_exact) (auto simp: in64_def)
  then show "0 \<le> leastRequestedScore requested capacity \<and> leastRequestedScore requested capacity \<le> 100"
    using N [of "capacity - requested"] assms by (auto simp: leastRequestedScore_def MaxClusterScore_def)
  show "0 \<le> mostRequestedScore requested capacity \<and> mostRequestedScore requested capacity \<le> 100"
    using N [of requested] assms by (auto simp: mostRequestedScore_def MaxClusterScore_def)
qed

lemma weight_range: "1 \<le> mget DefaultRatio DefaultRequestedRatioResources r \<and>
   mget DefaultRatio DefaultRequestedRatioResources r \<le> 4"
  by (simp add: mget_def DefaultRatio_def DefaultRequestedRatioResources_def)

lemma allocationScore_fold:
  assumes "\<forall>r \<in> set rs. 0 \<le> f (mget 0 req r) (mget 0 alloc r) \<and> f (mget 0 req r) (mget 0 alloc r) \<le> 100"
    and "0 \<le> s" "s \<le> 100 * w" "0 \<le> w" "w + 4 * int (length rs) < 2 ^ 50"
  shows "\<exists>s' w'. fold (\<lambda>r (score, weightSum).
            let resourceScore = f (mget 0 req r) (mget 0 alloc r);
                weight = mget DefaultRatio DefaultRequestedRatioResources r
            in (add64 score (mul64 resourceScore weight), add64 weightSum weight)) rs (s, w) = (s', w') \<and>
      0 \<le> s' \<and> s' \<le> 100 * w' \<and> 0 \<le> w' \<and> w' < 2 ^ 50"
  using assms
proof (induction rs arbitrary: s w)
  case Nil
  then show ?case by simp
next
  case (Cons r rs)
  let ?x = "f (mget 0 req r) (mget 0 alloc r)"
  let ?w = "mget DefaultRatio DefaultRequestedRatioResources r"
  have x: "0 \<le> ?x" "?x \<le> 100" using Cons.prems(1) by auto
  have w: "1 \<le> ?w" "?w \<le> 4" using weight_range by auto
  have xw: "0 \<le> ?x * ?w" "?x * ?w \<le> 100 * ?w" "100 * ?w \<le> 400"
    using x w by (auto intro: mult_right_mono)
  have "mul64 ?x ?w = ?x * ?w" using xw by (intro mul64_exact in64I) auto
  moreover have "add64 s (?x * ?w) = s + ?x * ?w"
    using xw Cons.prems by (intro add64_exact in64I) auto
  moreover have "add64 w ?w = w + ?w" using w Cons.prems by (intro add64_exact in64I) auto
  moreover have "s + ?x * ?w \<le> 100 * (w + ?w)"
    using add_mono [OF Cons.prems(3) xw(2)] by (simp only: distrib_left)
  moreover have "0 \<le> s + ?x * ?w" using Cons.prems(2) xw(1) by (rule add_nonneg_nonneg)
  moreover have "0 \<le> w + ?w" using w(1) Cons.prems(4) by linarith
  moreover have "w + ?w + 4 * int (length rs) < 2 ^ 50" using w Cons.prems(5) by simp
  ultimately show ?case
    using Cons.IH [of "s + ?x * ?w" "w + ?w"] Cons.prems(1) by (simp add: Let_def)
qed

lemma allocationScore_range:
  assumes "\<forall>r \<in> set rs. 0 \<le> f (mget 0 req r) (mget 0 alloc r) \<and> f (mget 0 req r) (mget 0 alloc r) \<le> 100"
    and "length rs < 2 ^ 45"
  shows "0 \<le> allocationScore f rs alloc req \<and> allocationScore f rs alloc req \<le> 100"
proof -
  obtain s w where F: "fold (\<lambda>r (score, weightSum).
            let resourceScore = f (mget 0 req r) (mget 0 alloc r);
                weight = mget DefaultRatio DefaultRequestedRatioResources r
            in (add64 score (mul64 resourceScore weight), add64 weightSum weight)) rs (0, 0) = (s, w)"
      "0 \<le> s" "s \<le> 100 * w" "0 \<le> w" "w < 2 ^ 50"
    using allocationScore_fold [of rs f req alloc 0 0] assms by auto
  have "div64 s w = s div w" if "0 < w" using F that by (intro div64_exact in64I) auto
  moreover have "s div w \<le> 100 * w div w" if "0 < w" using F that by (intro zdiv_mono1) auto
  moreover have "0 \<le> s div w" if "0 < w" using F that by (simp add: pos_imp_zdiv_nonneg_iff)
  ultimately show ?thesis
    using F by (auto simp: allocationScore_def simp del: Let_def)
qed


lemma getAllocatableAndRequested_spec:
  assumes "\<forall>r \<in> set rs. calculateResourceAllocatableRequest ext su c r = Some (a r, q r)"
  shows "getAllocatableAndRequested ext su c rs = Some (map (\<lambda>r. (r, a r)) rs, map (\<lambda>r. (r, q r)) rs)"
  using assms by (induction rs) auto

lemma mget_map: "r \<in> set rs \<Longrightarrow> mget d (map (\<lambda>r. (r, g r)) rs) r = g r"
  by (simp add: mget_def map_of_map_restrict)

lemma relevantResources:
  assumes "request_ok ext (ResourceRequest su)" "r \<in> set (getRelevantResources ext su)"
  shows "counted ext r" "0 \<le> amount (ResourceRequest su) r" "amount (ResourceRequest su) r < 2 ^ 62"
proof -
  have b: "r \<in> {''cpu'', ''memory'', ''ephemeral-storage''} \<or> r \<in> set (mkeys (scalarList (ResourceRequest su))) \<and>
      IsScalarResourceName ext r"
    using assms(2) by (auto simp: getRelevantResources_def scalarList_def split: option.splits if_splits)
  have "0 \<le> scalarOf (ResourceRequest su) r \<and> scalarOf (ResourceRequest su) r < 2 ^ 62"
    using assms(1) by (auto simp: request_ok_def scalarOf_def mget_def list_all_iff split: option.splits
        dest!: map_of_SomeD)
  with b assms(1) show "counted ext r" "0 \<le> amount (ResourceRequest su) r" "amount (ResourceRequest su) r < 2 ^ 62"
    by (auto simp: counted_def amount_def request_ok_def)
qed

lemma calculateResource_spec:
  assumes "cluster_ok ext c" "request_ok ext (ResourceRequest su)" "r \<in> set (getRelevantResources ext su)"
  shows "\<exists>a q. calculateResourceAllocatableRequest ext su c r = Some (a, q) \<and> 0 \<le> a \<and> a < 2 ^ 55 \<and> 0 \<le> q"
proof -
  obtain used where used: "getFederatedClusterRequestResource ext c = Some used"
      "\<forall>k. amount used k = lamount ext (CAllocatable c) k - lamount ext (CAvailable c) k"
    using cluster_resources(1) [OF assms(1)] by blast
  note R = cluster_resources(2-5) [OF assms(1), of r]
  note rq = relevantResources [OF assms(2,3)]
  let ?al = "getFederatedClusterAllocatableResource ext c"
  have eq: "calculateResourceAllocatableRequest ext su c r =
      Some (amount ?al r, add64 (amount used r) (amount (ResourceRequest su) r))"
    using rq(1) builtin_not_scalar [of ext] used(1)
    by (auto simp: calculateResourceAllocatableRequest_def Let_def counted_def amount_def)
  have "in64 (amount used r + amount (ResourceRequest su) r)"
    using used(2) R rq by (intro in64I) auto
  then show ?thesis using eq used(2) R rq by (simp add: add64_exact)
qed

lemma allocatedScore_range:
  assumes "cluster_ok ext c" "request_ok ext (ResourceRequest su)"
    and f: "\<And>q a. 0 \<le> q \<Longrightarrow> 0 \<le> a \<Longrightarrow> a < 2 ^ 55 \<Longrightarrow> 0 \<le> f q a \<and> f q a \<le> 100"
  shows "\<exists>v. allocatedScore f ext (Some su) (Some c) = Some (v, NewResult Success []) \<and> 0 \<le> v \<and> v \<le> 100"
proof -
  let ?rs = "getRelevantResources ext su"
  have "\<forall>r. \<exists>a q. r \<in> set ?rs \<longrightarrow> calculateResourceAllocatableRequest ext su c r = Some (a, q) \<and>
      0 \<le> a \<and> a < 2 ^ 55 \<and> 0 \<le> q"
    using calculateResource_spec [OF assms(1,2)] by blast
  then obtain a q where aq: "\<And>r. r \<in> set ?rs \<Longrightarrow> calculateResourceAllocatableRequest ext su c r = Some (a r, q r)"
      "\<And>r. r \<in> set ?rs \<Longrightarrow> 0 \<le> a r \<and> a r < 2 ^ 55 \<and> 0 \<le> q r"
    by metis
  let ?al = "map (\<lambda>r. (r, a r)) ?rs" and ?rq = "map (\<lambda>r. (r, q r)) ?rs"
  have "length ?rs \<le> 3 + length (scalarList (ResourceRequest su))"
    by (auto simp: getRelevantResources_def scalarList_def mkeys_def split: option.splits
        intro: order_trans [OF length_filter_le])
  moreover have "int (length (scalarList (ResourceRequest su))) < 2 ^ 40"
    using assms(2) by (simp add: request_ok_def scalarList_def split: option.splits)
  ultimately have "length ?rs < 2 ^ 45" by simp
  then have "0 \<le> allocationScore f ?rs ?al ?rq \<and> allocationScore f ?rs ?al ?rq \<le> 100"
    using aq(2) f by (intro allocationScore_range) (auto simp: mget_map)
  moreover have "getAllocatableAndRequested ext su c ?rs = Some (?al, ?rq)"
    using aq(1) by (intro getAllocatableAndRequested_spec) blast
  ultimately show ?thesis by (auto simp: allocatedScore_def PreCheck_def Let_def)
qed


lemma addRequirements_spec:
  "list_all (validRequirement ext) csm \<Longrightarrow>
   addRequirements ext csm sel = Inr (\<lambda>ls. sel ls \<and> list_all (\<lambda>e. requirementMatches ext e ls) csm)"
  by (induction csm arbitrary: sel)
    (auto simp: validRequirement_def requirementMatches_def conj_assoc split: option.splits sum.splits)

lemma fieldSelectors_spec:
  "list_all validFieldRequirement csm \<Longrightarrow>
   \<exists>sels. fieldSelectors ext csm = Inr sels \<and>
     (\<forall>fs. list_all (\<lambda>s. s fs) sels = list_all (\<lambda>e. fieldRequirementMatches ext e fs) csm)"
  by (induction csm) (auto simp: validFieldRequirement_def fieldRequirementMatches_def)

lemma selectors_spec:
  assumes "list_all (validRequirement ext) es" "list_all validFieldRequirement fs"
  shows "es \<noteq> [] \<Longrightarrow> ClusterSelectorRequirementsAsSelector ext es =
           Inr (\<lambda>ls. list_all (\<lambda>e. requirementMatches ext e ls) es)"
    and "fs \<noteq> [] \<Longrightarrow> ClusterSelectorRequirementsAsFieldSelector ext fs =
           Inr (\<lambda>ls. list_all (\<lambda>e. fieldRequirementMatches ext e ls) fs)"
  using addRequirements_spec [OF assms(1)] fieldSelectors_spec [OF assms(2), of ext]
  by (auto simp: ClusterSelectorRequirementsAsSelector_def ClusterSelectorRequirementsAsFieldSelector_def)


section \<open>Properties\<close>



text \<open>
  The allocation score plugins stay on the framework's scale: least and most allocated return
  success and a score between 0 and 100 for every cluster with consistent resources.
\<close>

lemma allocation_scores_in_range:
  assumes "cluster_ok ext c" "request_ok ext (ResourceRequest su)"
  shows "(\<exists>v. ClusterResourcesLeastAllocated_Score ext (Some su) (Some c) = Some (v, NewResult Success []) \<and>
            0 \<le> v \<and> v \<le> MaxClusterScore) \<and>
         (\<exists>v. ClusterResourcesMostAllocated_Score ext (Some su) (Some c) = Some (v, NewResult Success []) \<and>
            0 \<le> v \<and> v \<le> MaxClusterScore)"
  using allocatedScore_range [OF assms, of leastRequestedScore] allocatedScore_range [OF assms, of mostRequestedScore]
    requestedScore_range
  unfolding ClusterResourcesLeastAllocated_Score_def ClusterResourcesMostAllocated_Score_def MaxClusterScore_def
  by blast



text \<open>
  C12.  Cluster selector terms are ORed and the requirements of a term ANDed: when no term has an
  invalid requirement, the terms match iff some non-empty term has all its label requirements
  match the cluster's labels and all its field requirements match its name.
\<close>

theorem MatchClusterSelectorTerms_correct:
  assumes "\<forall>t \<in> set terms. list_all (validRequirement ext) (MatchExpressions t) \<and>
      list_all validFieldRequirement (MatchFields t)"
  shows "MatchClusterSelectorTerms ext terms c =
     Inr (list_ex (\<lambda>t. (MatchExpressions t \<noteq> [] \<or> MatchFields t \<noteq> []) \<and>
        list_all (\<lambda>e. requirementMatches ext e (CLabels c)) (MatchExpressions t) \<and>
        list_all (\<lambda>e. fieldRequirementMatches ext e [(''metadata.name'', CName c)]) (MatchFields t)) terms)"
  using assms
proof (induction terms)
  case Nil
  then show ?case by simp
next
  case (Cons t terms)
  then show ?case
    using selectors_spec [of ext "MatchExpressions t" "MatchFields t"] by (auto split: bool.splits)
qed


theorem MatchClusterSelectorTerms_correct_witness:
  "MatchClusterSelectorTerms sampleExterns
     [\<lparr>MatchExpressions = [\<lparr>CSKey = ''region'', CSOperator = ''In'', CSValues = [''eu'']\<rparr>], MatchFields = []\<rparr>]
     (sampleCluster ''A'') = Inr True"
proof -
  let ?t = "\<lparr>MatchExpressions = [\<lparr>CSKey = ''region'', CSOperator = ''In'', CSValues = [''eu'']\<rparr>], MatchFields = []\<rparr>"
  have "\<forall>t \<in> set [?t]. list_all (validRequirement sampleExterns) (MatchExpressions t) \<and>
      list_all validFieldRequirement (MatchFields t)"
    by code_simp
  from MatchClusterSelectorTerms_correct [OF this, of "sampleCluster ''A''"] show ?thesis
    by (simp add: sampleExterns_def sampleCluster_def requirementMatches_def labelOperatorOf_def)
qed

end
