(* ===== verification/Override_Patches.thy ===== *)
theory Override_Patches
  imports Sched_Inputs Plugins
begin

text \<open>
  The patches that the overriders of an override policy stand for,
  \<open>pkg/controllers/override/{imageparse,imagepatch,commandargspatch,envspatch,annotationslabelspatch,util}.go\<close>
  and \<open>pkg/lifted/distribution/reference\<close>.  A slice that may be \<open>nil\<close> is an option: \<open>json.Marshal\<close> writes
  \<open>null\<close> for it.  The value of a patch is the JSON value of its raw bytes.
\<close>

type_synonym 'a slice = "'a list option"
type_synonym gvk = "string \<times> string \<times> string"


section \<open>Model: policies and containers\<close>

abbreviation OperatorAdd :: string where "OperatorAdd \<equiv> ''add''"
abbreviation OperatorRemove :: string where "OperatorRemove \<equiv> ''remove''"
abbreviation OperatorReplace :: string where "OperatorReplace \<equiv> ''replace''"
abbreviation OperatorAddIfAbsent :: string where "OperatorAddIfAbsent \<equiv> ''addIfAbsent''"
abbreviation OperatorAppend :: string where "OperatorAppend \<equiv> ''append''"
abbreviation OperatorOverwrite :: string where "OperatorOverwrite \<equiv> ''overwrite''"
abbreviation OperatorDelete :: string where "OperatorDelete \<equiv> ''delete''"

record TargetClusters =
  TCClusters :: "string list"
  TCClusterSelector :: "(string, string) gomap"
  TCClusterAffinity :: "ClusterSelectorTerm list"

record EnvVar =
  EnvName :: string
  EnvValue :: string
  EnvValueFrom :: "json option"

record Operation =
  ImageComponent :: string
  Operator :: string
  OpValue :: string

record ImageOverrider =
  ContainerNames :: "string list"
  ImagePath :: string
  Operations :: "Operation list"

record EntrypointOverrider =
  EntContainerName :: string
  EntOperator :: string
  EntValue :: "string slice"

record EnvOverrider =
  EnvContainerName :: string
  EnvOperator :: string
  EnvOverrides :: "EnvVar list"

record StringMapOverrider =
  SmOperator :: string
  SmValue :: "(string, string) gomap"

record JsonPatchOverrider =
  JpOperator :: string
  JpPath :: string
  JpRaw :: string

record Overriders =
  OvImage :: "ImageOverrider list"
  OvCommand :: "EntrypointOverrider list"
  OvArgs :: "EntrypointOverrider list"
  OvAnnotations :: "StringMapOverrider list"
  OvLabels :: "StringMapOverrider list"
  OvEnvs :: "EnvOverrider list"
  OvJsonPatch :: "JsonPatchOverrider list"

text \<open>The part of \<open>corev1.Container\<close> that the overriders read.\<close>

record PatchedContainer =
  CtName :: string
  CtImage :: string
  CtCommand :: "string slice"
  CtArgs :: "string slice"
  CtEnv :: "EnvVar slice"

text \<open>
  Library functions: \<open>reference.Parse\<close> with the name, tag and digest of the reference it returns, the
  conversion of a pod spec into its init containers and containers, the group, version and kind of an
  unstructured object, label selectors that validate, and the application of a JSON patch.
\<close>

record overrideEnv =
  oeExterns :: externs
  oeK8s :: apimachinery
  ReferenceParse :: "string \<Rightarrow> string + (string option \<times> string option \<times> string option)"
  ContainersFromUnstructured :: "json \<Rightarrow> string + (PatchedContainer list \<times> PatchedContainer list)"
  UnsGVK :: "json \<Rightarrow> gvk"
  LabelSelectorAsSelector :: "(string, string) gomap \<Rightarrow> string + ((string, string) gomap \<Rightarrow> bool)"
  JsonPatchApply :: "OverridePatch list \<Rightarrow> json \<Rightarrow> string + json"

record helpData =
  hdGvk :: gvk
  hdSourceObj :: json


section \<open>Model: image references\<close>

record Image =
  imgRegistry :: string
  imgRepository :: string
  imgTag :: string
  imgDigest :: string

text \<open>Character classes of regular expressions.\<close>

definition charRange :: "char \<times> char \<Rightarrow> char \<Rightarrow> bool" where
  "charRange r c \<longleftrightarrow> fst r \<le> c \<and> c \<le> snd r"

definition charClass :: "(char \<times> char) list \<Rightarrow> char \<Rightarrow> bool" where
  "charClass rs c \<longleftrightarrow> list_ex (\<lambda>r. charRange r c) rs"

definition isAlpha :: "char \<Rightarrow> bool" where
  "isAlpha = charClass [(CHR ''A'', CHR ''Z''), (CHR ''a'', CHR ''z'')]"

definition isWord :: "char \<Rightarrow> bool" where
  "isWord c \<longleftrightarrow> isAlpha c \<or> isDigit c \<or> c = CHR ''_''"

definition isXdigit :: "char \<Rightarrow> bool" where
  "isXdigit c \<longleftrightarrow> isDigit c \<or> charClass [(CHR ''A'', CHR ''F''), (CHR ''a'', CHR ''f'')] c"

text \<open>The regular expressions for tags and digests; the separators split the algorithm into components.\<close>

definition AnchoredTagRegexp :: "string \<Rightarrow> bool" where
  "AnchoredTagRegexp s \<longleftrightarrow> s \<noteq> [] \<and> isWord (hd s) \<and> length (tl s) \<le> 127 \<and>
     list_all (\<lambda>c. isWord c \<or> c = CHR ''.'' \<or> c = CHR ''-'') (tl s)"

definition isAlgSeparator :: "char \<Rightarrow> bool" where
  "isAlgSeparator c \<longleftrightarrow> c = CHR ''-'' \<or> c = CHR ''_'' \<or> c = CHR ''+'' \<or> c = CHR ''.''"

definition algComponents :: "string \<Rightarrow> string list" where
  "algComponents s = strSplit CHR ''.'' (map (\<lambda>c. if isAlgSeparator c then CHR ''.'' else c) s)"

definition AnchoredDigestRegexp :: "string \<Rightarrow> bool" where
  "AnchoredDigestRegexp s \<longleftrightarrow>
     (let alg = takeWhile (\<lambda>c. c \<noteq> CHR '':'') s; rest = dropWhile (\<lambda>c. c \<noteq> CHR '':'') s in
      list_all (\<lambda>w. w \<noteq> [] \<and> isAlpha (hd w) \<and> list_all (\<lambda>c. isAlpha c \<or> isDigit c) w) (algComponents alg) \<and>
      rest \<noteq> [] \<and> list_all isXdigit (tl rest) \<and> length (tl rest) \<ge> 32)"

definition operateImageComponent :: "string \<Rightarrow> string \<Rightarrow> string \<Rightarrow> string + string" where
  "operateImageComponent oldValue operator newValue =
     (if operator = OperatorAddIfAbsent then
        (if newValue = [] then Inl ''addIfAbsent operation needs value''
         else if oldValue \<noteq> [] then Inl ''addIfAbsent is not allowed to operate on non-empty value''
         else Inr newValue)
      else if operator = OperatorOverwrite then Inr newValue
      else if operator = OperatorDelete then Inr []
      else Inl (''unsupported operator: '' @ operator))"

definition OperateRegistry :: "string \<Rightarrow> string \<Rightarrow> Image \<Rightarrow> string + Image" where
  "OperateRegistry operator value i =
     map_sum id (\<lambda>v. i\<lparr>imgRegistry := v\<rparr>) (operateImageComponent (imgRegistry i) operator value)"

definition OperateRepository :: "string \<Rightarrow> string \<Rightarrow> Image \<Rightarrow> string + Image" where
  "OperateRepository operator value i =
     map_sum id (\<lambda>v. i\<lparr>imgRepository := v\<rparr>) (operateImageComponent (imgRepository i) operator value)"

definition OperateTag :: "string \<Rightarrow> string \<Rightarrow> Image \<Rightarrow> string + Image" where
  "OperateTag operator value i =
     (case operateImageComponent (imgTag i) operator value of
        Inl err \<Rightarrow> Inl err
      | Inr newTag \<Rightarrow>
          if newTag \<noteq> [] \<and> \<not> AnchoredTagRegexp newTag then Inl ''invalid tag format after applying the overrider''
          else Inr (i\<lparr>imgTag := newTag\<rparr>))"

definition OperateDigest :: "string \<Rightarrow> string \<Rightarrow> Image \<Rightarrow> string + Image" where
  "OperateDigest operator value i =
     (case operateImageComponent (imgDigest i) operator value of
        Inl err \<Rightarrow> Inl err
      | Inr newDigest \<Rightarrow>
          if newDigest \<noteq> [] \<and> \<not> AnchoredDigestRegexp newDigest
          then Inl ''invalid digest format after applying the overrider''
          else Inr (i\<lparr>imgDigest := newDigest\<rparr>))"

definition Image_String :: "Image \<Rightarrow> string" where
  "Image_String i =
     (if imgRegistry i \<noteq> [] then imgRegistry i @ ''/'' @ imgRepository i else imgRepository i) @
     (if imgTag i \<noteq> [] then '':'' @ imgTag i else []) @
     (if imgDigest i \<noteq> [] then ''@'' @ imgDigest i else [])"

definition SplitRegistryAndRepository :: "string \<Rightarrow> string \<times> string" where
  "SplitRegistryAndRepository name =
     (let pre = takeWhile (\<lambda>c. c \<noteq> CHR ''/'') name in
      if pre = name \<or> (\<not> list_ex (\<lambda>c. c = CHR ''.'' \<or> c = CHR '':'') pre \<and> pre \<noteq> ''localhost'')
      then ([], name) else (pre, drop (Suc (length pre)) name))"

definition ParseImage :: "overrideEnv \<Rightarrow> string \<Rightarrow> string + Image" where
  "ParseImage env fullName =
     (case ReferenceParse env fullName of
        Inl err \<Rightarrow> Inl err
      | Inr (name, tag, digest) \<Rightarrow>
          let (registry, repository) =
            (case name of None \<Rightarrow> ([], []) | Some n \<Rightarrow> SplitRegistryAndRepository n)
          in Inr \<lparr>imgRegistry = registry, imgRepository = repository,
            imgTag = (case tag of None \<Rightarrow> [] | Some t \<Rightarrow> t), imgDigest = (case digest of None \<Rightarrow> [] | Some d \<Rightarrow> d)\<rparr>)"

definition trimSlashes :: "string \<Rightarrow> string" where
  "trimSlashes s =
     List.rev (dropWhile (\<lambda>c. c = CHR ''/'') (List.rev (dropWhile (\<lambda>c. c = CHR ''/'') s)))"

fun walkFields :: "json \<Rightarrow> string list \<Rightarrow> string + json" where
  "walkFields obj [] = Inr obj"
| "walkFields (JObj ms) (field # fs) = walkFields (mget JNull ms field) fs"
| "walkFields (JArr xs) (field # fs) =
     (case parseInt field of
        None \<Rightarrow> Inl ''slice found, but the next path segment is not a number''
      | Some index \<Rightarrow>
          if \<not> (- (2 ^ 31) \<le> index \<and> index < 2 ^ 31) then Inl ''slice found, but the next path segment is not a number''
          else if index < 0 \<or> index \<ge> int (length xs) then Inl ''index is negative or out of range''
          else walkFields (xs ! nat index) fs)"
| "walkFields _ (field # fs) = Inl ''accessor error: unknown type''"

definition GetStringFromUnstructuredObj :: "json \<Rightarrow> string \<Rightarrow> string + string" where
  "GetStringFromUnstructuredObj input path =
     (case walkFields input (strSplit CHR ''/'' (trimSlashes path)) of
        Inl err \<Rightarrow> Inl err
      | Inr (JStr s) \<Rightarrow> Inr s
      | Inr _ \<Rightarrow> Inl (quoteStr path @ '' does not point to a string field''))"


section \<open>Model: image patches\<close>

definition operateImage :: "Operation \<Rightarrow> Image \<Rightarrow> string + Image" where
  "operateImage operation newImage =
     (let operator = (if Operator operation = [] then OperatorOverwrite else Operator operation);
          value = OpValue operation; component = ImageComponent operation in
      if component = ''Registry'' then OperateRegistry operator value newImage
      else if component = ''Repository'' then OperateRepository operator value newImage
      else if component = ''Tag'' then OperateTag operator value newImage
      else if component = ''Digest'' then OperateDigest operator value newImage
      else Inl (''unsupported image component('' @ component @ '')''))"

fun operateAll :: "Operation list \<Rightarrow> Image \<Rightarrow> string + Image" where
  "operateAll [] img = Inr img"
| "operateAll (operation # operations) img =
     (case operateImage operation img of Inl err \<Rightarrow> Inl err | Inr img' \<Rightarrow> operateAll operations img')"

definition applyImageOverrider :: "overrideEnv \<Rightarrow> string \<Rightarrow> ImageOverrider \<Rightarrow> string + string" where
  "applyImageOverrider env oldImage imageOverrider =
     (case ParseImage env oldImage of
        Inl err \<Rightarrow> Inl (''parse image failed('' @ oldImage @ ''), error: '' @ err)
      | Inr newImage \<Rightarrow> map_sum id Image_String (operateAll (Operations imageOverrider) newImage))"

definition parsePatchesFromImagePath ::
    "overrideEnv \<Rightarrow> helpData \<Rightarrow> ImageOverrider \<Rightarrow> (string, string) gomap \<Rightarrow> string + (string, string) gomap" where
  "parsePatchesFromImagePath env helper imageOverrider patchMap =
     (let imagePath = ImagePath imageOverrider in
      if \<not> hasPrefix imagePath ''/'' then Inl ''image path should be start with /''
      else case (if mget [] patchMap imagePath = [] then GetStringFromUnstructuredObj (hdSourceObj helper) imagePath
                 else Inr (mget [] patchMap imagePath)) of
        Inl err \<Rightarrow> Inl (''failed to parse image value from unstructured obj: '' @ err)
      | Inr imageValue \<Rightarrow>
          (case applyImageOverrider env imageValue imageOverrider of
             Inl err \<Rightarrow> Inl (''failed to apply image override: '' @ err)
           | Inr newImageValue \<Rightarrow> Inr (mput imagePath newImageValue patchMap)))"

definition GetResourcePodSpecFromUnstructuredObj ::
    "overrideEnv \<Rightarrow> json \<Rightarrow> gvk \<Rightarrow> string + (PatchedContainer list \<times> PatchedContainer list)" where
  "GetResourcePodSpecFromUnstructuredObj env unstructuredObj = (\<lambda>(group, version, kind).
     case map_of PodSpecPaths (group, kind) of
       None \<Rightarrow> Inl ''unknown type to get pod spec''
     | Some podSpecPath \<Rightarrow>
         (case NestedMap (oeK8s env) unstructuredObj (strSplit CHR ''.'' podSpecPath) of
            Inl err \<Rightarrow> Inl err
          | Inr None \<Rightarrow> Inl (''pod spec does not exist at path '' @ quoteStr podSpecPath)
          | Inr (Some m) \<Rightarrow> ContainersFromUnstructured env m))"

definition generateTargetPathForPodSpec :: "gvk \<Rightarrow> string \<Rightarrow> string \<Rightarrow> nat \<Rightarrow> string + string" where
  "generateTargetPathForPodSpec = (\<lambda>(group, version, kind) containerKind target index.
     case map_of PodSpecPaths (group, kind) of
       None \<Rightarrow> Inl ''unknown type to get pod spec''
     | Some path \<Rightarrow>
         Inr (''/'' @ map (\<lambda>c. if c = CHR ''.'' then CHR ''/'' else c) path @ ''/'' @ containerKind @ ''/'' @
              formatInt (int index) @ ''/'' @ target))"

text \<open>The containers with their kind and index, init containers first.\<close>

definition allContainers ::
    "PatchedContainer list \<times> PatchedContainer list \<Rightarrow> (string \<times> nat \<times> PatchedContainer) list" where
  "allContainers podSpec =
     map (Pair ''initContainers'') (enumerate 0 (fst podSpec)) @ map (Pair ''containers'') (enumerate 0 (snd podSpec))"

fun patchImages ::
    "overrideEnv \<Rightarrow> gvk \<Rightarrow> ImageOverrider \<Rightarrow> (string \<times> nat \<times> PatchedContainer) list \<Rightarrow> (string, string) gomap
     \<Rightarrow> string + (string, string) gomap" where
  "patchImages env g imageOverrider [] patchMap = Inr patchMap"
| "patchImages env g imageOverrider ((containerKind, containerIndex, container) # rest) patchMap =
     (if ContainerNames imageOverrider = [] \<or> (CtName container \<noteq> [] \<and> CtName container \<in> set (ContainerNames imageOverrider)) then
        (case generateTargetPathForPodSpec g containerKind ''image'' containerIndex of
           Inl err \<Rightarrow> Inl err
         | Inr imagePath \<Rightarrow>
             (case applyImageOverrider env
                 (case map_of patchMap imagePath of None \<Rightarrow> CtImage container | Some val \<Rightarrow> val) imageOverrider of
                Inl err \<Rightarrow> Inl (''failed to apply image overrider: '' @ err)
              | Inr newImageValue \<Rightarrow> patchImages env g imageOverrider rest (mput imagePath newImageValue patchMap)))
      else patchImages env g imageOverrider rest patchMap)"

definition parsePatchesFromWorkload ::
    "overrideEnv \<Rightarrow> helpData \<Rightarrow> ImageOverrider \<Rightarrow> (string, string) gomap \<Rightarrow> string + (string, string) gomap" where
  "parsePatchesFromWorkload env helper imageOverrider patchMap =
     (case GetResourcePodSpecFromUnstructuredObj env (hdSourceObj helper) (hdGvk helper) of
        Inl err \<Rightarrow> Inl (''failed to get podSpec from sourceObj: '' @ err)
      | Inr podSpec \<Rightarrow> patchImages env (hdGvk helper) imageOverrider (allContainers podSpec) patchMap)"

fun imagePatchMap ::
    "overrideEnv \<Rightarrow> helpData \<Rightarrow> ImageOverrider list \<Rightarrow> (string, string) gomap \<Rightarrow> string + (string, string) gomap" where
  "imagePatchMap env helper [] patchMap = Inr patchMap"
| "imagePatchMap env helper (imageOverrider # rest) patchMap =
     (case (if ImagePath imageOverrider \<noteq> [] then parsePatchesFromImagePath env helper imageOverrider patchMap
            else parsePatchesFromWorkload env helper imageOverrider patchMap) of
        Inl err \<Rightarrow> Inl err
      | Inr patchMap' \<Rightarrow> imagePatchMap env helper rest patchMap')"

text \<open>
  The raw bytes of an image patch are the image between quotes, without escapes.  Bytes that are not JSON
  make the marshalling of the patches fail; here the error is raised when the patch is made.
\<close>

definition replacePatch :: "string \<times> json \<Rightarrow> OverridePatch" where
  "replacePatch = (\<lambda>(path, value). \<lparr>POp = OperatorReplace, PPath = path, PValue = value\<rparr>)"

fun quoteImages :: "(string, string) gomap \<Rightarrow> string + (string, json) gomap" where
  "quoteImages [] = Inr []"
| "quoteImages ((path, value) # rest) =
     (case parseJson (quoteStr value) of
        None \<Rightarrow> Inl ''json: error calling MarshalJSON''
      | Some j \<Rightarrow> map_sum id (Cons (path, j)) (quoteImages rest))"

definition parseImageOverriders :: "overrideEnv \<Rightarrow> helpData \<Rightarrow> ImageOverrider list \<Rightarrow> string + OverridePatch list" where
  "parseImageOverriders env helper imageOverriders =
     (case imagePatchMap env helper imageOverriders [] of
        Inl err \<Rightarrow> Inl err
      | Inr patchMap \<Rightarrow> map_sum id (\<lambda>m. sort_key PPath (map replacePatch m)) (quoteImages patchMap))"


section \<open>Model: command, argument and environment patches\<close>

definition elems :: "'a slice \<Rightarrow> 'a list" where
  "elems s = (case s of None \<Rightarrow> [] | Some xs \<Rightarrow> xs)"

text \<open>A slice built by appending to \<open>nil\<close>.\<close>

definition appended :: "'a list \<Rightarrow> 'a slice" where
  "appended xs = (if xs = [] then None else Some xs)"

definition encodeSlice :: "('a \<Rightarrow> json) \<Rightarrow> 'a slice \<Rightarrow> json" where
  "encodeSlice e s = (case s of None \<Rightarrow> JNull | Some xs \<Rightarrow> JArr (map e xs))"

definition lookForMatchedContainer ::
    "PatchedContainer list \<times> PatchedContainer list \<Rightarrow> string \<Rightarrow> (string \<times> nat \<times> PatchedContainer) option" where
  "lookForMatchedContainer podSpec containerName =
     find (\<lambda>(containerKind, index, item). containerName = CtName item) (allContainers podSpec)"

definition getCommandOrArgsFromContainer :: "PatchedContainer \<Rightarrow> string \<Rightarrow> string slice" where
  "getCommandOrArgsFromContainer container target = (if target = ''command'' then CtCommand container else CtArgs container)"

definition applyEntrypointOverrider :: "string slice \<Rightarrow> EntrypointOverrider \<Rightarrow> string + string slice" where
  "applyEntrypointOverrider oldValue entrypointOverrider =
     (let operator = EntOperator entrypointOverrider; val = EntValue entrypointOverrider in
      if operator = OperatorAppend then
        (if elems val = [] then Inl ''append operation needs non-empty list'' else Inr (Some (elems oldValue @ elems val)))
      else if operator = OperatorOverwrite then Inr val
      else if operator = OperatorDelete then
        Inr (appended (filter (\<lambda>v. v \<notin> set (elems val)) (elems oldValue)))
      else Inl (''unsupported operator:'' @ operator))"

text \<open>
  Both parsers walk over the overriders and keep the newest value of each path; \<open>containerName\<close>, \<open>current\<close> and
  \<open>apply\<close> say where they differ.
\<close>

fun containerPatchMap ::
    "helpData \<Rightarrow> PatchedContainer list \<times> PatchedContainer list \<Rightarrow> string \<Rightarrow> ('o \<Rightarrow> string)
     \<Rightarrow> (PatchedContainer \<Rightarrow> 'v) \<Rightarrow> ('v \<Rightarrow> 'o \<Rightarrow> string + 'v) \<Rightarrow> 'o list \<Rightarrow> (string, 'v) gomap \<Rightarrow> string + (string, 'v) gomap" where
  "containerPatchMap helper podSpec target containerName current applyOverrider [] patchMap = Inr patchMap"
| "containerPatchMap helper podSpec target containerName current applyOverrider (overrider # rest) patchMap =
     (case lookForMatchedContainer podSpec (containerName overrider) of
        None \<Rightarrow> containerPatchMap helper podSpec target containerName current applyOverrider rest patchMap
      | Some (containerKind, containerIndex, container) \<Rightarrow>
          (case generateTargetPathForPodSpec (hdGvk helper) containerKind target containerIndex of
             Inl err \<Rightarrow> Inl err
           | Inr targetPath \<Rightarrow>
               (case applyOverrider (case map_of patchMap targetPath of Some v \<Rightarrow> v | None \<Rightarrow> current container) overrider of
                  Inl err \<Rightarrow> Inl (''failed to apply '' @ target @ '' override: '' @ err)
                | Inr v \<Rightarrow>
                    containerPatchMap helper podSpec target containerName current applyOverrider rest (mput targetPath v patchMap))))"

definition convertPatchMapToPatches :: "('v \<Rightarrow> json) \<Rightarrow> (string, 'v) gomap \<Rightarrow> OverridePatch list" where
  "convertPatchMapToPatches encode patchMap = sort_key PPath (map (\<lambda>(path, v). replacePatch (path, encode v)) patchMap)"

definition parseEntrypointOverriders ::
    "overrideEnv \<Rightarrow> helpData \<Rightarrow> EntrypointOverrider list \<Rightarrow> string \<Rightarrow> string + OverridePatch list" where
  "parseEntrypointOverriders env helper overriders target =
     (if overriders = [] then Inr []
      else case GetResourcePodSpecFromUnstructuredObj env (hdSourceObj helper) (hdGvk helper) of
        Inl err \<Rightarrow> Inl (''failed to get podSpec from sourceObj: '' @ err)
      | Inr podSpec \<Rightarrow>
          map_sum id (convertPatchMapToPatches (encodeSlice JStr))
            (containerPatchMap helper podSpec target EntContainerName (\<lambda>c. getCommandOrArgsFromContainer c target)
               applyEntrypointOverrider overriders []))"

text \<open>The positions of every name, in increasing order.\<close>

fun indexNames :: "nat \<Rightarrow> EnvVar list \<Rightarrow> (string, nat list) gomap \<Rightarrow> (string, nat list) gomap" where
  "indexNames index [] mapValue = mapValue"
| "indexNames index (oldEnv # rest) mapValue =
     indexNames (Suc index) rest
       (case map_of mapValue (EnvName oldEnv) of
          None \<Rightarrow> mput (EnvName oldEnv) [index] mapValue
        | Some indexes \<Rightarrow> mput (EnvName oldEnv) (indexes @ [index]) mapValue)"

text \<open>The copies between the deleted positions, and the rest behind the last one.\<close>

fun copyBetween :: "EnvVar list \<Rightarrow> nat \<Rightarrow> nat \<Rightarrow> nat list \<Rightarrow> EnvVar list \<Rightarrow> EnvVar list" where
  "copyBetween value start lastIndex [] tmpValue =
     (if int lastIndex \<noteq> int (length value) - 1 then tmpValue @ drop (Suc lastIndex) value else tmpValue)"
| "copyBetween value start lastIndex (index # indexes) tmpValue =
     copyBetween value (Suc index) index indexes (tmpValue @ map (\<lambda>i. value ! i) [start..<index])"

fun applyEnvs ::
    "string \<Rightarrow> EnvVar list \<Rightarrow> EnvVar slice \<Rightarrow> (string, nat list) gomap \<Rightarrow> string + EnvVar slice" where
  "applyEnvs operator [] value mapValue = Inr value"
| "applyEnvs operator (env # envs) value mapValue =
     (if operator = OperatorAddIfAbsent then
        (if map_of mapValue (EnvName env) \<noteq> None
         then Inl (''addIfAbsent is not allowed to operate on exist key:'' @ EnvName env)
         else let value' = elems value @ [env] in
           applyEnvs operator envs (Some value') (mput (EnvName env) (mget [] mapValue (EnvName env) @ [length value' - 1]) mapValue))
      else if operator = OperatorOverwrite then
        (case map_of mapValue (EnvName env) of
           None \<Rightarrow> applyEnvs operator envs value mapValue
         | Some indexes \<Rightarrow> applyEnvs operator envs (map_option (fold (\<lambda>i v. v[i := env]) indexes) value) mapValue)
      else if operator = OperatorDelete then
        (case map_of mapValue (EnvName env) of
           None \<Rightarrow> applyEnvs operator envs value mapValue
         | Some indexes \<Rightarrow>
             let tmpValue = copyBetween (elems value) 0 0 indexes [] in
             applyEnvs operator envs (appended tmpValue) (indexNames 0 tmpValue []))
      else Inl (''unsupported operator:'' @ operator))"

definition applyEnvOverrider :: "EnvVar slice \<Rightarrow> EnvOverrider \<Rightarrow> string + EnvVar slice" where
  "applyEnvOverrider value envOverrider =
     (let operator = (if EnvOperator envOverrider = [] then OperatorOverwrite else EnvOperator envOverrider) in
      if operator = OperatorAddIfAbsent \<and> EnvOverrides envOverrider = [] then Inl ''addIfAbsent operation needs value''
      else applyEnvs operator (EnvOverrides envOverrider) value (indexNames 0 (elems value) []))"

definition encodeEnvVar :: "EnvVar \<Rightarrow> json" where
  "encodeEnvVar e = JObj ([(''name'', JStr (EnvName e))] @ omitEmpty (EnvValue e = []) ''value'' (JStr (EnvValue e)) @
     omitEmpty (EnvValueFrom e = None) ''valueFrom'' (the (EnvValueFrom e)))"

definition parseEnvOverriders :: "overrideEnv \<Rightarrow> helpData \<Rightarrow> EnvOverrider list \<Rightarrow> string + OverridePatch list" where
  "parseEnvOverriders env helper overriders =
     (if overriders = [] then Inr []
      else case GetResourcePodSpecFromUnstructuredObj env (hdSourceObj helper) (hdGvk helper) of
        Inl err \<Rightarrow> Inl (''failed to get podSpec from sourceObj: '' @ err)
      | Inr podSpec \<Rightarrow>
          map_sum id (convertPatchMapToPatches (encodeSlice encodeEnvVar))
            (containerPatchMap helper podSpec ''env'' EnvContainerName CtEnv applyEnvOverrider overriders []))"


section \<open>Model: annotation, label and JSON patches\<close>

definition getLabelsOrAnnotationsFromObject :: "overrideEnv \<Rightarrow> json \<Rightarrow> string \<Rightarrow> (string, string) gomap" where
  "getLabelsOrAnnotationsFromObject env rawObj target =
     (if target = ''labels'' then MLabels (UnsMeta (oeK8s env) rawObj) else MAnnotations (UnsMeta (oeK8s env) rawObj))"

fun applyStringMapEntries ::
    "string \<Rightarrow> (string, string) gomap \<Rightarrow> (string, string) gomap \<Rightarrow> string + (string, string) gomap" where
  "applyStringMapEntries operator [] mapValue = Inr mapValue"
| "applyStringMapEntries operator ((key, val) # rest) mapValue =
     (if operator = OperatorAddIfAbsent then
        (if map_of mapValue key \<noteq> None then Inl (''addIfAbsent is not allowed to operate on exist key:'' @ key)
         else applyStringMapEntries operator rest (mput key val mapValue))
      else if operator = OperatorOverwrite then
        applyStringMapEntries operator rest (if map_of mapValue key \<noteq> None then mput key val mapValue else mapValue)
      else if operator = OperatorDelete then applyStringMapEntries operator rest (mdel key mapValue)
      else applyStringMapEntries operator rest mapValue)"

definition applyStringMapOverrider ::
    "(string, string) gomap \<Rightarrow> StringMapOverrider \<Rightarrow> string + (string, string) gomap" where
  "applyStringMapOverrider mapValue stringMapOverrider =
     (let operator = (if SmOperator stringMapOverrider = [] then OperatorOverwrite else SmOperator stringMapOverrider) in
      if operator = OperatorAddIfAbsent \<and> SmValue stringMapOverrider = [] then Inl ''addIfAbsent operation needs value''
      else applyStringMapEntries operator (SmValue stringMapOverrider) mapValue)"

fun applyStringMapOverriders ::
    "StringMapOverrider list \<Rightarrow> (string, string) gomap \<Rightarrow> string + (string, string) gomap" where
  "applyStringMapOverriders [] mapValue = Inr mapValue"
| "applyStringMapOverriders (overrider # rest) mapValue =
     (case applyStringMapOverrider mapValue overrider of
        Inl err \<Rightarrow> Inl err | Inr mapValue' \<Rightarrow> applyStringMapOverriders rest mapValue')"

definition parseStringMapOverriders ::
    "overrideEnv \<Rightarrow> helpData \<Rightarrow> StringMapOverrider list \<Rightarrow> string \<Rightarrow> string + OverridePatch list" where
  "parseStringMapOverriders env helper overriders target =
     (if overriders = [] then Inr []
      else case applyStringMapOverriders overriders (getLabelsOrAnnotationsFromObject env (hdSourceObj helper) target) of
        Inl err \<Rightarrow> Inl (''failed to apply '' @ target @ '' overrider: '' @ err)
      | Inr mapValue \<Rightarrow> Inr [replacePatch (''/metadata/'' @ target, encodeMap JStr mapValue)])"

fun parseJSONPatchOverriders :: "JsonPatchOverrider list \<Rightarrow> string + OverridePatch list" where
  "parseJSONPatchOverriders [] = Inr []"
| "parseJSONPatchOverriders (overrider # rest) =
     (case (if JpRaw overrider = [] then Some JNull else parseJson (JpRaw overrider)) of
        None \<Rightarrow> Inl ''failed to unmarshal jsonpatch overrider value''
      | Some j \<Rightarrow>
          map_sum id (Cons \<lparr>POp = JpOperator overrider, PPath = JpPath overrider, PValue = j\<rparr>)
            (parseJSONPatchOverriders rest))"

text \<open>The stages of \<open>parsePatchesFromOverriders\<close>, stopping at the first error.\<close>

fun concatPatches :: "(string \<times> (string + OverridePatch list)) list \<Rightarrow> string + OverridePatch list" where
  "concatPatches [] = Inr []"
| "concatPatches ((what, Inl err) # rest) = Inl (''failed to parse '' @ what @ '' overriders: '' @ err)"
| "concatPatches ((what, Inr patches) # rest) = map_sum id ((@) patches) (concatPatches rest)"

definition parsePatchesFromOverriders ::
    "overrideEnv \<Rightarrow> helpData \<Rightarrow> Overriders option \<Rightarrow> string + OverridePatch list" where
  "parsePatchesFromOverriders env helper overriders =
     (case overriders of
        None \<Rightarrow> Inr []
      | Some o' \<Rightarrow>
          concatPatches
            [(''image'', parseImageOverriders env helper (OvImage o')),
             (''command'', parseEntrypointOverriders env helper (OvCommand o') ''command''),
             (''args'', parseEntrypointOverriders env helper (OvArgs o') ''args''),
             (''env'', parseEnvOverriders env helper (OvEnvs o')),
             (''annotations'', parseStringMapOverriders env helper (OvAnnotations o') ''annotations''),
             (''labels'', parseStringMapOverriders env helper (OvLabels o') ''labels''),
             (''jsonPatch'', parseJSONPatchOverriders (OvJsonPatch o'))])"


section \<open>Statement vocabulary\<close>

definition positions :: "string \<Rightarrow> EnvVar list \<Rightarrow> nat list" where
  "positions n value = filter (\<lambda>i. EnvName (value ! i) = n) [0..<length value]"

text \<open>What the environment overrider does to the list, one variable after the other, without positions.\<close>

fun envReference :: "string \<Rightarrow> EnvVar list \<Rightarrow> EnvVar list \<Rightarrow> string + EnvVar list" where
  "envReference operator [] value = Inr value"
| "envReference operator (env # envs) value =
     (if operator = OperatorAddIfAbsent then
        (if list_ex (\<lambda>e. EnvName e = EnvName env) value
         then Inl (''addIfAbsent is not allowed to operate on exist key:'' @ EnvName env)
         else envReference operator envs (value @ [env]))
      else if operator = OperatorOverwrite then
        envReference operator envs (map (\<lambda>e. if EnvName e = EnvName env then env else e) value)
      else if operator = OperatorDelete then envReference operator envs (filter (\<lambda>e. EnvName e \<noteq> EnvName env) value)
      else Inl (''unsupported operator:'' @ operator))"

text \<open>The position map is right when it lists the positions of every name that occurs.\<close>

definition indexed :: "EnvVar list \<Rightarrow> (string, nat list) gomap \<Rightarrow> bool" where
  "indexed value mapValue \<longleftrightarrow>
     (\<forall>n. map_of mapValue n = (if positions n value = [] then None else Some (positions n value)))"

text \<open>The components of an image, and what a list of operations makes of one of them.\<close>

definition imagePart :: "string \<Rightarrow> Image \<Rightarrow> string" where
  "imagePart component i =
     (if component = ''Registry'' then imgRegistry i else if component = ''Repository'' then imgRepository i
      else if component = ''Tag'' then imgTag i else if component = ''Digest'' then imgDigest i else [])"

fun operatePart :: "Operation list \<Rightarrow> string \<Rightarrow> string + string" where
  "operatePart [] v = Inr v"
| "operatePart (operation # operations) v =
     (case operateImageComponent v (if Operator operation = [] then OperatorOverwrite else Operator operation) (OpValue operation) of
        Inl err \<Rightarrow> Inl err | Inr v' \<Rightarrow> operatePart operations v')"

text \<open>A parsed reference prints as the text it was parsed from, and its parts are not empty.\<close>

definition referenceText :: "string option \<times> string option \<times> string option \<Rightarrow> string" where
  "referenceText = (\<lambda>(name, tag, digest).
     (case name of None \<Rightarrow> [] | Some n \<Rightarrow> n) @ (case tag of None \<Rightarrow> [] | Some t \<Rightarrow> '':'' @ t) @
     (case digest of None \<Rightarrow> [] | Some d \<Rightarrow> ''@'' @ d))"

definition reference_ok :: "overrideEnv \<Rightarrow> string \<Rightarrow> bool" where
  "reference_ok env s \<longleftrightarrow> (case ReferenceParse env s of
     Inl err \<Rightarrow> True | Inr (name, tag, digest) \<Rightarrow> referenceText (name, tag, digest) = s \<and> tag \<noteq> Some [] \<and> digest \<noteq> Some [])"

definition sampleOverrideEnv :: overrideEnv where
  "sampleOverrideEnv = \<lparr>oeExterns = sampleExterns, oeK8s = sampleK8s,
     ReferenceParse = (\<lambda>s. let name = takeWhile (\<lambda>c. c \<noteq> CHR '':'') s; rest = dropWhile (\<lambda>c. c \<noteq> CHR '':'') s
       in if tl rest = [] then Inr (Some s, None, None) else Inr (Some name, Some (tl rest), None)),
     ContainersFromUnstructured = (\<lambda>_. Inr ([], [\<lparr>CtName = ''web'', CtImage = ''ghcr.io/web:v1'', CtCommand = None,
       CtArgs = Some [''-v''], CtEnv = None\<rparr>])),
     UnsGVK = (\<lambda>_. (''apps'', ''v1'', ''Deployment'')),
     LabelSelectorAsSelector = (\<lambda>sel. Inr (\<lambda>ls. list_all (\<lambda>(k, v). map_of ls k = Some v) sel)),
     JsonPatchApply = (\<lambda>patches j. Inr (fold (\<lambda>p j. jsonPut (Some j) (PValue p) (strSplit CHR ''/'' (drop 1 (PPath p)))) patches j))\<rparr>"


section \<open>Environment variables\<close>

lemma positions_snoc:
  "positions n (value @ [e]) = positions n value @ (if EnvName e = n then [length value] else [])"
proof -
  have "filter (\<lambda>i. EnvName ((value @ [e]) ! i) = n) [0..<length value] = filter (\<lambda>i. EnvName (value ! i) = n) [0..<length value]"
    by (intro filter_cong) (auto simp: nth_append)
  then show ?thesis by (simp add: positions_def)
qed

lemma positions_names: "map EnvName a = map EnvName b \<Longrightarrow> positions n a = positions n b"
proof -
  assume eq: "map EnvName a = map EnvName b"
  then have len: "length a = length b" by (metis length_map)
  have "EnvName (a ! i) = EnvName (b ! i)" if "i < length a" for i using eq len that by (metis nth_map)
  then show ?thesis unfolding positions_def using len by (intro filter_cong) auto
qed

lemma positions_Nil: "positions n value = [] \<longleftrightarrow> \<not> list_ex (\<lambda>e. EnvName e = n) value"
  by (auto simp: positions_def filter_empty_conv list_ex_iff set_conv_nth)

lemma indexed_step:
  assumes "indexed value m"
  shows "indexed (value @ [e]) (case map_of m (EnvName e) of
      None \<Rightarrow> mput (EnvName e) [length value] m | Some indexes \<Rightarrow> mput (EnvName e) (indexes @ [length value]) m)"
  using assms unfolding indexed_def by (auto simp: positions_snoc map_of_mput split: option.splits if_splits)

lemma indexed_indexNames: "indexed pre m \<Longrightarrow> indexed (pre @ envs) (indexNames (length pre) envs m)"
proof (induction envs arbitrary: pre m)
  case (Cons e envs)
  from Cons.IH [OF indexed_step [OF Cons.prems, of e]] show ?case by simp
qed simp

lemma indexed_all: "indexed value (indexNames 0 value [])"
  using indexed_indexNames [of "[]" "[]" "value"] by (simp add: indexed_def positions_def)

lemma upt_split: "[l..<h] = us @ i # vs \<Longrightarrow> us = [l..<i] \<and> vs = [Suc i..<h] \<and> l \<le> i \<and> i < h"
proof (induction us arbitrary: l)
  case (Cons a us)
  then have a: "l = a" "a < h" "[Suc a..<h] = us @ i # vs" by (auto simp: upt_eq_Cons_conv)
  note ih = Cons.IH [OF a(3)]
  then have "[a..<i] = a # us" using a(2) by (simp add: upt_conv_Cons)
  then show ?case using ih a by simp
qed (auto simp: upt_eq_Cons_conv)

lemma copyBetween_correct:
  assumes "filter P [start..<length value] = indexes" "indexes \<noteq> [] \<or> start = Suc l" "start \<le> length value"
  shows "copyBetween value start l indexes tmp = tmp @ map (\<lambda>i. value ! i) (filter (\<lambda>i. \<not> P i) [start..<length value])"
  using assms
proof (induction indexes arbitrary: start l tmp)
  case Nil
  then have "filter (\<lambda>i. \<not> P i) [start..<length value] = [start..<length value]" by (simp add: filter_empty_conv filter_id_conv)
  moreover have "map (\<lambda>i. value ! i) [start..<length value] = drop start value" by (rule nth_equalityI) auto
  ultimately show ?case using Nil by auto
next
  case (Cons index indexes)
  then obtain us vs where "[start..<length value] = us @ index # vs" "\<forall>u\<in>set us. \<not> P u" "P index" "indexes = filter P vs"
    by (auto simp: filter_eq_Cons_iff)
  moreover from this(1) have "us = [start..<index]" "vs = [Suc index..<length value]" "start \<le> index" "index < length value"
    using upt_split by blast+
  ultimately show ?case using Cons.IH [of "Suc index" index] by simp
qed

lemma copyBetween_filter:
  assumes "positions n value \<noteq> []"
  shows "copyBetween value 0 0 (positions n value) [] = filter (\<lambda>e. EnvName e \<noteq> n) value"
proof -
  have "map (\<lambda>i. value ! i) (filter (\<lambda>i. EnvName (value ! i) \<noteq> n) [0..<length value]) = filter (\<lambda>e. EnvName e \<noteq> n) (map (\<lambda>i. value ! i) [0..<length value])"
    by (simp add: filter_map comp_def)
  then show ?thesis
    using copyBetween_correct [OF positions_def [symmetric], of n "value" 0 "[]"] assms by (simp add: map_nth)
qed

lemma fold_update_nth:
  "length (fold (\<lambda>i v. v[i := x]) is xs) = length xs"
  "j < length xs \<Longrightarrow> fold (\<lambda>i v. v[i := x]) is xs ! j = (if j \<in> set is then x else xs ! j)"
  by (induction "is" arbitrary: xs) (auto simp: nth_list_update)

lemma overwrite_positions:
  "fold (\<lambda>i v. v[i := env]) (positions (EnvName env) value) value = map (\<lambda>e. if EnvName e = EnvName env then env else e) value"
  by (rule nth_equalityI) (auto simp: fold_update_nth positions_def)

lemma applyEnvs_reference:
  assumes "indexed (elems value) mapValue"
  shows "map_sum id elems (applyEnvs operator envs value mapValue) = envReference operator envs (elems value)"
  using assms
proof (induction envs arbitrary: "value" mapValue)
  case (Cons env envs)
  let ?n = "EnvName env" and ?v = "elems value"
  have m: "map_of mapValue n = (if positions n ?v = [] then None else Some (positions n ?v))" for n
    using Cons.prems by (simp add: indexed_def)
  consider "operator = OperatorAddIfAbsent" | "operator = OperatorOverwrite" | "operator = OperatorDelete"
    | "operator \<notin> {OperatorAddIfAbsent, OperatorOverwrite, OperatorDelete}" by blast
  then show ?case
  proof cases
    case 1
    have "indexed (?v @ [env]) (mput ?n (mget [] mapValue ?n @ [length ?v]) mapValue)" if "positions ?n ?v = []"
      using indexed_step [OF Cons.prems, of env] that m by (simp add: mget_def)
    then show ?thesis using 1 m [of ?n] Cons.IH [of "Some (?v @ [env])"]
      by (auto simp: Let_def positions_Nil elems_def)
  next
    case 2
    have none: "map (\<lambda>e. if EnvName e = ?n then env else e) ?v = ?v" if "positions ?n ?v = []"
      using that by (intro map_idI) (auto simp: positions_Nil list_ex_iff)
    let ?u = "map_option (fold (\<lambda>i v. v[i := env]) (positions ?n ?v)) value"
    have u: "elems ?u = map (\<lambda>e. if EnvName e = ?n then env else e) ?v"
      using overwrite_positions [of env "elems value"] by (cases "value") (simp_all add: elems_def)
    have "map EnvName (elems ?u) = map EnvName ?v" by (simp add: u)
    from positions_names [OF this] have "indexed (elems ?u) mapValue" using Cons.prems unfolding indexed_def by presburger
    note ih = Cons.IH [OF this]
    show ?thesis
    proof (cases "positions ?n ?v = []")
      case True
      then show ?thesis using 2 m [of ?n] none Cons.IH [OF Cons.prems] by simp
    next
      case False
      then show ?thesis using 2 m [of ?n] ih u by simp
    qed
  next
    case 3
    have all: "filter (\<lambda>e. EnvName e \<noteq> ?n) ?v = ?v" if "positions ?n ?v = []"
      using that by (simp add: positions_Nil list_ex_iff filter_id_conv)
    have a: "elems (appended xs) = xs" for xs :: "EnvVar list" by (simp add: appended_def elems_def)
    show ?thesis using 3 m [of ?n] all Cons.IH [OF Cons.prems] copyBetween_filter [of ?n ?v]
        Cons.IH [of "appended (filter (\<lambda>e. EnvName e \<noteq> ?n) ?v)"] indexed_all
      by (auto simp: Let_def a)
  qed simp
qed simp


section \<open>Images\<close>

lemma map_sum_Inr: "map_sum id f x = Inr y \<longleftrightarrow> (\<exists>z. x = Inr z \<and> y = f z)"
  by (cases x) auto

lemma SplitRegistryAndRepository_joins:
  "SplitRegistryAndRepository name = (registry, repository) \<Longrightarrow>
     (if registry \<noteq> [] then registry @ ''/'' @ repository else repository) = name"
proof -
  assume s: "SplitRegistryAndRepository name = (registry, repository)"
  let ?pre = "takeWhile (\<lambda>c. c \<noteq> CHR ''/'') name"
  have "name = ?pre @ ''/'' @ drop (Suc (length ?pre)) name" if "?pre \<noteq> name"
  proof -
    have "dropWhile (\<lambda>c. c \<noteq> CHR ''/'') name \<noteq> []" using that by (metis append_Nil2 takeWhile_dropWhile_id)
    then have "hd (dropWhile (\<lambda>c. c \<noteq> CHR ''/'') name) = CHR ''/''" using hd_dropWhile by blast
    then have "dropWhile (\<lambda>c. c \<noteq> CHR ''/'') name = ''/'' @ tl (dropWhile (\<lambda>c. c \<noteq> CHR ''/'') name)"
      using \<open>dropWhile _ name \<noteq> []\<close> by (cases "dropWhile (\<lambda>c. c \<noteq> CHR ''/'') name") auto
    moreover have "tl (dropWhile (\<lambda>c. c \<noteq> CHR ''/'') name) = drop (Suc (length ?pre)) name"
      by (simp add: dropWhile_eq_drop drop_Suc tl_drop)
    moreover have "name = ?pre @ dropWhile (\<lambda>c. c \<noteq> CHR ''/'') name" by simp
    ultimately show ?thesis by metis
  qed
  then show ?thesis using s by (auto simp: SplitRegistryAndRepository_def Let_def split: if_splits)
qed

lemma Image_String_ParseImage:
  assumes "reference_ok env s" "ParseImage env s = Inr img"
  shows "Image_String img = s"
proof -
  obtain name tag digest where p: "ReferenceParse env s = Inr (name, tag, digest)"
    using assms(2) by (auto simp: ParseImage_def split: sum.splits)
  obtain registry repository where n: "(case name of None \<Rightarrow> ([], []) | Some n \<Rightarrow> SplitRegistryAndRepository n) = (registry, repository)"
    by fastforce
  have "(if registry \<noteq> [] then registry @ ''/'' @ repository else repository) = (case name of None \<Rightarrow> [] | Some n \<Rightarrow> n)"
    using n SplitRegistryAndRepository_joins [of "the name" registry repository] by (cases name) auto
  moreover have "img = \<lparr>imgRegistry = registry, imgRepository = repository,
      imgTag = (case tag of None \<Rightarrow> [] | Some t \<Rightarrow> t), imgDigest = (case digest of None \<Rightarrow> [] | Some d \<Rightarrow> d)\<rparr>"
    using assms(2) p n by (simp add: ParseImage_def)
  ultimately show ?thesis using assms(1) p
    by (auto simp: reference_ok_def referenceText_def Image_String_def split: option.splits if_split_asm)
qed

lemma imagePart_update:
  "imagePart c (i\<lparr>imgRegistry := v\<rparr>) = (if c = ''Registry'' then v else imagePart c i)"
  "imagePart c (i\<lparr>imgRepository := v\<rparr>) = (if c = ''Repository'' then v else imagePart c i)"
  "imagePart c (i\<lparr>imgTag := v\<rparr>) = (if c = ''Tag'' then v else imagePart c i)"
  "imagePart c (i\<lparr>imgDigest := v\<rparr>) = (if c = ''Digest'' then v else imagePart c i)"
  by (simp_all add: imagePart_def)

lemma Operate_Inr:
  "OperateRegistry op v i = Inr i' \<Longrightarrow> \<exists>z. operateImageComponent (imagePart ''Registry'' i) op v = Inr z \<and> i' = i\<lparr>imgRegistry := z\<rparr>"
  "OperateRepository op v i = Inr i' \<Longrightarrow> \<exists>z. operateImageComponent (imagePart ''Repository'' i) op v = Inr z \<and> i' = i\<lparr>imgRepository := z\<rparr>"
  "OperateTag op v i = Inr i' \<Longrightarrow> \<exists>z. operateImageComponent (imagePart ''Tag'' i) op v = Inr z \<and> i' = i\<lparr>imgTag := z\<rparr>"
  "OperateDigest op v i = Inr i' \<Longrightarrow> \<exists>z. operateImageComponent (imagePart ''Digest'' i) op v = Inr z \<and> i' = i\<lparr>imgDigest := z\<rparr>"
  by (auto simp: OperateRegistry_def OperateRepository_def OperateTag_def OperateDigest_def map_sum_Inr imagePart_def
      split: sum.splits if_split_asm)

lemma operateImage_part:
  assumes "operateImage operation img = Inr img'"
  shows "\<exists>v. operatePart [operation] (imagePart (ImageComponent operation) img) = Inr v \<and>
     (\<forall>c. imagePart c img' = (if c = ImageComponent operation then v else imagePart c img))"
proof -
  define op where "op = (if Operator operation = [] then OperatorOverwrite else Operator operation)"
  let ?c = "ImageComponent operation" and ?v = "OpValue operation"
  have "\<exists>z. operateImageComponent (imagePart ?c img) op ?v = Inr z \<and> (\<forall>c. imagePart c img' = (if c = ?c then z else imagePart c img))"
    using assms unfolding operateImage_def Let_def op_def [symmetric]
    by (auto split: if_split_asm dest!: Operate_Inr simp: imagePart_update)
  then show ?thesis by (auto simp flip: op_def)
qed

lemma operatePart_Cons:
  "operatePart (operation # operations) v = (case operatePart [operation] v of Inl err \<Rightarrow> Inl err | Inr v' \<Rightarrow> operatePart operations v')"
  by (simp split: sum.splits)

lemma operateAll_parts:
  "operateAll operations img = Inr img' \<Longrightarrow>
     operatePart (filter (\<lambda>operation. ImageComponent operation = component) operations) (imagePart component img) =
       Inr (imagePart component img')"
proof (induction operations arbitrary: img)
  case (Cons operation operations)
  then obtain img1 where 1: "operateImage operation img = Inr img1" "operateAll operations img1 = Inr img'"
    by (auto split: sum.splits)
  show ?case
  proof (cases "component = ImageComponent operation")
    case True
    then have "operatePart [operation] (imagePart component img) = Inr (imagePart component img1)"
      using operateImage_part [OF 1(1)] by force
    then show ?thesis using Cons.IH [OF 1(2)] True
      by (simp only: filter.simps if_True operatePart_Cons [of operation "filter _ _"] sum.case refl)
  next
    case False
    then show ?thesis using Cons.IH [OF 1(2)] operateImage_part [OF 1(1)] by auto
  qed
qed simp



section \<open>Properties\<close>

text \<open>
  C30.  The environment overrider, which works on positions that it keeps up to date while the list
  grows and shrinks, does what its operators mean: \<open>addIfAbsent\<close> appends every variable and fails when one
  exists, \<open>overwrite\<close> replaces every variable of the name, \<open>delete\<close> removes them all, with the same errors.
\<close>

theorem applyEnvOverrider_correct:
  "map_sum id elems (applyEnvOverrider value envOverrider) =
     (let operator = (if EnvOperator envOverrider = [] then ''overwrite'' else EnvOperator envOverrider) in
      if operator = ''addIfAbsent'' \<and> EnvOverrides envOverrider = [] then Inl ''addIfAbsent operation needs value''
      else envReference operator (EnvOverrides envOverrider) (elems value))"
  by (simp add: applyEnvOverrider_def Let_def applyEnvs_reference indexed_all)



end
