(* ===== verification/Triggers.thy ===== *)
theory Triggers
  imports Sched_Inputs
begin

text \<open>
  The scheduling triggers, \<open>pkg/controllers/scheduler/schedulingtriggers.go\<close>: a digest of everything
  that may cause a federated object to be scheduled again is kept in an annotation and compared with
  the current one before every scheduling.  The comparison distinguishes triggers that always cause
  a scheduling from those that the policy can turn off.  An empty label map is a nil one, as the API
  server delivers it.
\<close>


section \<open>Model: the triggers\<close>

record schedulingTriggers =
  SchedulingAnnotationsHash :: string
  ReplicaCount :: int64
  TResourceRequest :: Resource
  TAutoMigrationInfo :: "string option"
  TPolicyName :: string
  PolicySchedulingContentHash :: string
  TClusters :: "string list"
  ClusterLabelsHashes :: "(string, string) gomap"
  ClusterTaintsHashes :: "(string, string) gomap"
  ClusterAPIResourceTypesHashes :: "(string, string) gomap"

definition encodeResource :: "Resource \<Rightarrow> json" where
  "encodeResource r = JObj
     [(''millicpu'', encodeInt (MilliCPU r)), (''memory'', encodeInt (Memory r)),
      (''ephemeralStorage'', encodeInt (EphemeralStorage r)),
      (''scalarResources'', case ScalarResources r of None \<Rightarrow> JNull | Some m \<Rightarrow> encodeMap encodeInt m)]"

definition encodeTriggers :: "schedulingTriggers \<Rightarrow> json" where
  "encodeTriggers t = JObj (
     [(''schedulingAnnotationsHash'', JStr (SchedulingAnnotationsHash t)),
      (''replicaCount'', encodeInt (ReplicaCount t)),
      (''resourceRequest'', encodeResource (TResourceRequest t))] @
     (case TAutoMigrationInfo t of None \<Rightarrow> [] | Some s \<Rightarrow> [(''autoMigrationInfo'', JStr s)]) @
     [(''policyName'', JStr (TPolicyName t)),
      (''policyContentHash'', JStr (PolicySchedulingContentHash t)),
      (''clusters'', encodeStrings (TClusters t)),
      (''clusterLabelsHashes'', encodeMap JStr (ClusterLabelsHashes t)),
      (''clusterTaintsHashes'', encodeMap JStr (ClusterTaintsHashes t)),
      (''clusterAPIResourceTypesHashes'', encodeMap JStr (ClusterAPIResourceTypesHashes t))])"

definition Marshal :: "schedulingTriggers \<Rightarrow> string" where
  "Marshal t = printJson (encodeTriggers t)"

definition resourceFields :: "(string \<times> Resource fieldDecoder) list" where
  "resourceFields =
     [(''millicpu'', intField (\<lambda>v r. r\<lparr>MilliCPU := v\<rparr>)), (''memory'', intField (\<lambda>v r. r\<lparr>Memory := v\<rparr>)),
      (''ephemeralStorage'', intField (\<lambda>v r. r\<lparr>EphemeralStorage := v\<rparr>)),
      (''scalarResources'', ptrField (decodeMap decodeInt64) (\<lambda>v r. r\<lparr>ScalarResources := v\<rparr>))]"

definition zeroTriggers :: schedulingTriggers where
  "zeroTriggers = \<lparr>SchedulingAnnotationsHash = [], ReplicaCount = 0, TResourceRequest = zeroResource,
     TAutoMigrationInfo = None, TPolicyName = [], PolicySchedulingContentHash = [], TClusters = [],
     ClusterLabelsHashes = [], ClusterTaintsHashes = [], ClusterAPIResourceTypesHashes = []\<rparr>"

definition triggerFields :: "(string \<times> schedulingTriggers fieldDecoder) list" where
  "triggerFields =
     [(''schedulingAnnotationsHash'', strField (\<lambda>v t. t\<lparr>SchedulingAnnotationsHash := v\<rparr>)),
      (''replicaCount'', intField (\<lambda>v t. t\<lparr>ReplicaCount := v\<rparr>)),
      (''resourceRequest'', \<lambda>j t. map_option (\<lambda>r. t\<lparr>TResourceRequest := r\<rparr>)
         (decodeObj resourceFields j (TResourceRequest t))),
      (''autoMigrationInfo'', ptrField decodeString (\<lambda>v t. t\<lparr>TAutoMigrationInfo := v\<rparr>)),
      (''policyName'', strField (\<lambda>v t. t\<lparr>TPolicyName := v\<rparr>)),
      (''policyContentHash'', strField (\<lambda>v t. t\<lparr>PolicySchedulingContentHash := v\<rparr>)),
      (''clusters'', valField (decodeList decodeString) (\<lambda>v t. t\<lparr>TClusters := v\<rparr>)),
      (''clusterLabelsHashes'', valField (decodeMap decodeString) (\<lambda>v t. t\<lparr>ClusterLabelsHashes := v\<rparr>)),
      (''clusterTaintsHashes'', valField (decodeMap decodeString) (\<lambda>v t. t\<lparr>ClusterTaintsHashes := v\<rparr>)),
      (''clusterAPIResourceTypesHashes'',
         valField (decodeMap decodeString) (\<lambda>v t. t\<lparr>ClusterAPIResourceTypesHashes := v\<rparr>))]"

definition Unmarshal :: "string \<Rightarrow> schedulingTriggers option" where
  "Unmarshal v = Option.bind (parseJson v) (\<lambda>j. decodeObj triggerFields j zeroTriggers)"


section \<open>Model: comparing triggers\<close>

definition isClusterTriggerChanged :: "(string, string) gomap \<Rightarrow> (string, string) gomap \<Rightarrow> bool" where
  "isClusterTriggerChanged newClusters oldClusters =
     (if newClusters = [] then oldClusters \<noteq> []
      else list_ex (\<lambda>(cluster, trigger). map_of newClusters cluster \<noteq> Some trigger) oldClusters)"

text \<open>\<open>reflect.DeepEqual\<close> of two resources: a nil map differs from an empty one.\<close>

definition sameResource :: "Resource \<Rightarrow> Resource \<Rightarrow> bool" where
  "sameResource a b \<longleftrightarrow> MilliCPU a = MilliCPU b \<and> Memory a = Memory b \<and> EphemeralStorage a = EphemeralStorage b \<and>
     (case (ScalarResources a, ScalarResources b) of
        (None, None) \<Rightarrow> True | (Some x, Some y) \<Rightarrow> sameMap x y | _ \<Rightarrow> False)"

definition compareStableTriggers :: "schedulingTriggers \<Rightarrow> schedulingTriggers \<Rightarrow> bool" where
  "compareStableTriggers latest prev =
     (if SchedulingAnnotationsHash latest \<noteq> SchedulingAnnotationsHash prev \<or>
         ReplicaCount latest \<noteq> ReplicaCount prev \<or>
         \<not> sameResource (TResourceRequest latest) (TResourceRequest prev) \<or>
         TPolicyName latest \<noteq> TPolicyName prev
      then True
      else case TAutoMigrationInfo latest of
        Some info \<Rightarrow> TAutoMigrationInfo prev = None \<or> the (TAutoMigrationInfo prev) \<noteq> info
      | None \<Rightarrow> TAutoMigrationInfo prev \<noteq> None)"

definition getIsStickyClusterFromPolicy :: "PropagationPolicy \<Rightarrow> bool" where
  "getIsStickyClusterFromPolicy policy =
     (case PolReschedulePolicy policy of None \<Rightarrow> False | Some rp \<Rightarrow> DisableRescheduling rp)"

definition SchedulingTriggersAnnotation :: string where
  "SchedulingTriggersAnnotation = DefaultPrefix @ ''scheduling-triggers''"

definition SchedulingDeferredReasonsAnnotation :: string where
  "SchedulingDeferredReasonsAnnotation = DefaultPrefix @ ''scheduling-deferred-reasons''"

text \<open>
  The checks that a policy can turn off, in the order of the code: \<open>None\<close> is the return that
  triggers a scheduling, \<open>Some\<close> the reasons for which it is deferred.
\<close>

definition deferredChecks ::
    "RescheduleTrigger \<Rightarrow> schedulingTriggers \<Rightarrow> schedulingTriggers \<Rightarrow> string list option" where
  "deferredChecks policyTrigger new old =
     (let contentChanged = PolicySchedulingContentHash new \<noteq> PolicySchedulingContentHash old;
          labelsChanged = isClusterTriggerChanged (ClusterLabelsHashes new) (ClusterLabelsHashes old);
          taintsChanged = isClusterTriggerChanged (ClusterTaintsHashes new) (ClusterTaintsHashes old);
          apiChanged = isClusterTriggerChanged (ClusterAPIResourceTypesHashes new) (ClusterAPIResourceTypesHashes old);
          joined = set (TClusters old) \<subseteq> set (TClusters new) \<and>
            card (set (TClusters new)) \<noteq> card (set (TClusters old))
      in
      if contentChanged \<and> PolicyContentChanged policyTrigger then None
      else if labelsChanged \<and> ClusterLabelsChanged policyTrigger then None
      else if taintsChanged then None
      else if apiChanged \<and> ClusterAPIResourcesChanged policyTrigger then None
      else if joined \<and> ClusterJoined policyTrigger then None
      else Some (
        (if contentChanged then [''policyContentChanged:false''] else []) @
        (if labelsChanged then [''clusterLabelsChanged:false''] else []) @
        (if apiChanged then [''clusterAPIResourcesChanged:false''] else []) @
        (if joined then [''clusterJoined:false''] else [])))"

definition computeSchedulingAnnotations ::
    "schedulingTriggers \<Rightarrow> 'a ObjectMeta_scheme \<Rightarrow> PropagationPolicy option \<Rightarrow> string \<times> string \<times> bool" where
  "computeSchedulingAnnotations newTriggers fedObject policy =
     (let triggers = Marshal newTriggers; anno = MAnnotations fedObject in
      if anno = [] then (triggers, [], True)
      else
        let old = mget [] anno SchedulingTriggersAnnotation in
        case policy of
          None \<Rightarrow> (triggers, [], old \<noteq> triggers)
        | Some p \<Rightarrow>
            if map_of anno SchedulingTriggersAnnotation = None \<or> old = [] \<or> old = triggers
            then (triggers, [], old \<noteq> triggers)
            else case Unmarshal old of
              None \<Rightarrow> (triggers, [], True)
            | Some oldTriggers \<Rightarrow>
                if compareStableTriggers newTriggers oldTriggers then (triggers, [], True)
                else if getIsStickyClusterFromPolicy p then (old, ''disableRescheduling:true'', False)
                else
                  (case Option.bind (PolReschedulePolicy p) RPTrigger of
                     None \<Rightarrow> (old, ''rescheduleWhen:nil'', False)
                   | Some policyTrigger \<Rightarrow>
                       (case deferredChecks policyTrigger newTriggers oldTriggers of
                          None \<Rightarrow> (triggers, [], True)
                        | Some reasons \<Rightarrow> (old, joinStr ''; '' reasons, False))))"

definition updateSchedulingAnnotations ::
    "string \<Rightarrow> string \<Rightarrow> 'a ObjectMeta_scheme \<Rightarrow> 'a ObjectMeta_scheme \<times> (string + bool)" where
  "updateSchedulingAnnotations triggers deferredReasons fedObject =
     (case AddAnnotation (Some fedObject) SchedulingTriggersAnnotation triggers of
        (obj1, Inl err) \<Rightarrow> (fedObject, Inl err)
      | (obj1, Inr triggersChanged) \<Rightarrow>
          (case (if deferredReasons = [] then RemoveAnnotation obj1 SchedulingDeferredReasonsAnnotation
                 else AddAnnotation obj1 SchedulingDeferredReasonsAnnotation deferredReasons) of
             (obj2, r) \<Rightarrow>
               (case obj2 of None \<Rightarrow> fedObject | Some o' \<Rightarrow> o',
                case r of Inl err \<Rightarrow> Inl err | Inr deferred \<Rightarrow> Inr (triggersChanged \<or> deferred))))"


section \<open>Model: computing triggers\<close>

definition knownSchedulingAnnotations :: "string list" where
  "knownSchedulingAnnotations = map ((@) DefaultPrefix)
     [''scheduling-mode'', ''sticky-cluster'', ''tolerations'', ''placements'', ''clusterSelector'', ''affinity'',
      ''maxClusters'', ''follows-object'', ''applied-migration-configuration'', ''dry-run'']"

definition hashResult :: "json \<Rightarrow> string" where
  "hashResult v = formatInt (uint (fnv32 (printJson v)))"

definition getSchedulingAnnotationsHash :: "'a ObjectMeta_scheme \<Rightarrow> string" where
  "getSchedulingAnnotationsHash fedObject =
     hashResult (encodeMap JStr (filter (\<lambda>(k, v). k \<in> set knownSchedulingAnnotations) (MAnnotations fedObject)))"

definition getReplicaCount ::
    "apimachinery \<Rightarrow> FederatedTypeConfig \<Rightarrow> 'a FedObject_scheme \<Rightarrow> string + int64" where
  "getReplicaCount k8s ftc fedObject =
     (if length (FTCReplicasSpec ftc) = 0 then Inr 0
      else case GetTemplateAsUnstructured k8s fedObject of
        Inl err \<Rightarrow> Inl err
      | Inr template \<Rightarrow>
          (case GetInt64FromPath k8s template (FTCReplicasSpec ftc) [] of
             Inl err \<Rightarrow> Inl err
           | Inr None \<Rightarrow> Inr 0
           | Inr (Some v) \<Rightarrow> Inr v))"

definition encodeRequirement :: "ClusterSelectorRequirement \<Rightarrow> json" where
  "encodeRequirement r = JObj [(''key'', JStr (CSKey r)), (''operator'', JStr (CSOperator r)),
     (''values'', encodeStrings (CSValues r))]"

definition encodeTerm :: "ClusterSelectorTerm \<Rightarrow> json" where
  "encodeTerm t = JObj (
     omitEmpty (MatchExpressions t = []) ''matchExpressions'' (JArr (map encodeRequirement (MatchExpressions t))) @
     omitEmpty (MatchFields t = []) ''matchFields'' (JArr (map encodeRequirement (MatchFields t))))"

definition encodeToleration :: "Toleration \<Rightarrow> json" where
  "encodeToleration t = JObj (
     omitEmpty (TolerationKey t = []) ''key'' (JStr (TolerationKey t)) @
     omitEmpty (TolerationOperator t = []) ''operator'' (JStr (TolerationOperator t)) @
     omitEmpty (TolerationValue t = []) ''value'' (JStr (TolerationValue t)) @
     omitEmpty (TolerationEffect t = []) ''effect'' (JStr (TolerationEffect t)) @
     (case TolerationSeconds t of None \<Rightarrow> [] | Some n \<Rightarrow> [(''tolerationSeconds'', encodeInt n)]))"

definition encodePreferences :: "Preferences \<Rightarrow> json" where
  "encodePreferences p = JObj (
     omitEmpty (PrefMinReplicas p = 0) ''minReplicas'' (encodeInt (PrefMinReplicas p)) @
     (case PrefMaxReplicas p of None \<Rightarrow> [] | Some n \<Rightarrow> [(''maxReplicas'', encodeInt n)]) @
     (case PrefWeight p of None \<Rightarrow> [] | Some n \<Rightarrow> [(''weight'', encodeInt n)]) @
     (case PrefPriority p of None \<Rightarrow> [] | Some n \<Rightarrow> [(''priority'', encodeInt n)]))"

definition encodePlacement :: "DesiredPlacement \<Rightarrow> json" where
  "encodePlacement p = JObj [(''cluster'', JStr (DPCluster p)), (''preferences'', encodePreferences (DPPreferences p))]"

definition encodeReschedulePolicy :: "ReschedulePolicy \<Rightarrow> json" where
  "encodeReschedulePolicy rp = JObj (
     omitEmpty (\<not> DisableRescheduling rp) ''disableRescheduling'' (JBool True) @
     (case RPTrigger rp of None \<Rightarrow> [] | Some t \<Rightarrow> [(''rescheduleWhen'', JObj
        [(''policyContentChanged'', JBool (PolicyContentChanged t)), (''clusterJoined'', JBool (ClusterJoined t)),
         (''clusterLabelsChanged'', JBool (ClusterLabelsChanged t)),
         (''clusterAPIResourcesChanged'', JBool (ClusterAPIResourcesChanged t))])]) @
     (case ReplicaRescheduling rp of None \<Rightarrow> [] | Some b \<Rightarrow> [(''replicaRescheduling'', JObj
        [(''avoidDisruption'', JBool b)])]))"

text \<open>The policy without its \<open>AutoMigration\<close>, which is not part of the content.\<close>

definition encodePolicyContent :: "PropagationPolicy \<Rightarrow> json" where
  "encodePolicyContent p = JObj (
     [(''schedulingProfile'', JStr (PolSchedulingProfile p)), (''schedulingMode'', JStr (PolSchedulingMode p))] @
     (case PolReplicasStrategy p of None \<Rightarrow> [] | Some s \<Rightarrow> [(''replicasStrategy'', JStr s)]) @
     omitEmpty (PolClusterSelector p = []) ''clusterSelector'' (encodeMap JStr (PolClusterSelector p)) @
     omitEmpty (PolClusterAffinity p = []) ''clusterAffinity'' (JArr (map encodeTerm (PolClusterAffinity p))) @
     omitEmpty (PolTolerations p = []) ''tolerations'' (JArr (map encodeToleration (PolTolerations p))) @
     (case PolMaxClusters p of None \<Rightarrow> [] | Some n \<Rightarrow> [(''maxClusters'', encodeInt n)]) @
     omitEmpty (PolPlacements p = []) ''placement'' (JArr (map encodePlacement (PolPlacements p))) @
     omitEmpty (\<not> PolDisableFollowerScheduling p) ''disableFollowerScheduling'' (JBool True) @
     (case PolReschedulePolicy p of None \<Rightarrow> [] | Some rp \<Rightarrow> [(''reschedulePolicy'', encodeReschedulePolicy rp)]))"

definition getPolicySchedulingContentHash :: "PropagationPolicy \<Rightarrow> string" where
  "getPolicySchedulingContentHash policy = hashResult (encodePolicyContent policy)"

definition clusterHashes :: "(FederatedCluster \<Rightarrow> json) \<Rightarrow> FederatedCluster list \<Rightarrow> (string, string) gomap" where
  "clusterHashes enc clusters = fold (\<lambda>c m. mput (CName c) (hashResult (enc c)) m) clusters []"

definition getClusterLabelsHashes :: "FederatedCluster list \<Rightarrow> (string, string) gomap" where
  "getClusterLabelsHashes =
     clusterHashes (\<lambda>c. if CLabels c = [] then JNull else encodeMap JStr (CLabels c))"

definition encodeTaint :: "Taint \<Rightarrow> json" where
  "encodeTaint t = JObj ([(''key'', JStr (TaintKey t))] @
     omitEmpty (TaintValue t = []) ''value'' (JStr (TaintValue t)) @ [(''effect'', JStr (TaintEffect t))])"

text \<open>The comparator orders by key and value; for taints that differ only in their effect it is never true.\<close>

definition getClusterTaintsHashes :: "FederatedCluster list \<Rightarrow> (string, string) gomap" where
  "getClusterTaintsHashes =
     clusterHashes (\<lambda>c. JArr (map encodeTaint (sort_key (\<lambda>t. (TaintKey t, TaintValue t)) (CTaints c))))"

definition encodeAPIResource :: "APIResource \<Rightarrow> json" where
  "encodeAPIResource r = JObj (
     omitEmpty (ARGroup r = []) ''group'' (JStr (ARGroup r)) @
     [(''version'', JStr (ARVersion r)), (''kind'', JStr (ARKind r)), (''pluralName'', JStr (ARPluralName r)),
      (''scope'', JStr (ARScope r))])"

definition getClusterAPIResourceTypesHashes :: "FederatedCluster list \<Rightarrow> (string, string) gomap" where
  "getClusterAPIResourceTypesHashes =
     clusterHashes (\<lambda>c. JArr (map encodeAPIResource
       (sort_key (\<lambda>r. (ARGroup r, ARVersion r, ARKind r, ARPluralName r, ARScope r)) (CAPIResourceTypes c))))"

definition computeSchedulingTriggers ::
    "apimachinery \<Rightarrow> externs \<Rightarrow> FederatedTypeConfig \<Rightarrow> 'a FedObject_scheme \<Rightarrow> PropagationPolicy option
     \<Rightarrow> FederatedCluster list \<Rightarrow> string + schedulingTriggers" where
  "computeSchedulingTriggers k8s ext ftc fedObject policy clusters =
     (case getReplicaCount k8s ftc fedObject of
        Inl err \<Rightarrow> Inl (''failed to get object replica count: '' @ err)
      | Inr replicaCount \<Rightarrow>
          (case getResourceRequest k8s ext ftc fedObject of
             Inl err \<Rightarrow> Inl (''failed to get object resource request: '' @ err)
           | Inr request \<Rightarrow>
               Inr \<lparr>SchedulingAnnotationsHash = getSchedulingAnnotationsHash fedObject,
                    ReplicaCount = replicaCount,
                    TResourceRequest = request,
                    TAutoMigrationInfo =
                      (case policy of
                         Some p \<Rightarrow> if PolAutoMigration p \<noteq> None
                                   then map_of (MAnnotations fedObject) AutoMigrationInfoAnnotation else None
                       | None \<Rightarrow> None),
                    TPolicyName = (case policy of Some p \<Rightarrow> PolName p | None \<Rightarrow> []),
                    PolicySchedulingContentHash =
                      (case policy of Some p \<Rightarrow> getPolicySchedulingContentHash p | None \<Rightarrow> []),
                    TClusters = map CName clusters,
                    ClusterLabelsHashes = getClusterLabelsHashes clusters,
                    ClusterTaintsHashes = getClusterTaintsHashes clusters,
                    ClusterAPIResourceTypesHashes = getClusterAPIResourceTypesHashes clusters\<rparr>))"


section \<open>Statement vocabulary\<close>

definition wf_triggers :: "schedulingTriggers \<Rightarrow> bool" where
  "wf_triggers t \<longleftrightarrow> in64 (ReplicaCount t) \<and> in64 (MilliCPU (TResourceRequest t)) \<and> in64 (Memory (TResourceRequest t)) \<and>
     in64 (EphemeralStorage (TResourceRequest t)) \<and>
     (case ScalarResources (TResourceRequest t) of None \<Rightarrow> True | Some m \<Rightarrow> wf_map m \<and> list_all in64 (mvals m)) \<and>
     wf_map (ClusterLabelsHashes t) \<and> wf_map (ClusterTaintsHashes t) \<and> wf_map (ClusterAPIResourceTypesHashes t)"

definition sortTriggers :: "schedulingTriggers \<Rightarrow> schedulingTriggers" where
  "sortTriggers t = t\<lparr>
     TResourceRequest := (TResourceRequest t)\<lparr>ScalarResources :=
       map_option (sort_key fst) (ScalarResources (TResourceRequest t))\<rparr>,
     ClusterLabelsHashes := sort_key fst (ClusterLabelsHashes t),
     ClusterTaintsHashes := sort_key fst (ClusterTaintsHashes t),
     ClusterAPIResourceTypesHashes := sort_key fst (ClusterAPIResourceTypesHashes t)\<rparr>"

text \<open>What changed between two triggers, and when the policy lets it cause a new scheduling.\<close>

definition hashesChanged :: "(string, string) gomap \<Rightarrow> (string, string) gomap \<Rightarrow> bool" where
  "hashesChanged new old \<longleftrightarrow> (\<exists>c v. map_of old c = Some v \<and> map_of new c \<noteq> Some v)"

definition stableChanged :: "schedulingTriggers \<Rightarrow> schedulingTriggers \<Rightarrow> bool" where
  "stableChanged new old \<longleftrightarrow>
     SchedulingAnnotationsHash new \<noteq> SchedulingAnnotationsHash old \<or> ReplicaCount new \<noteq> ReplicaCount old \<or>
     \<not> sameResource (TResourceRequest new) (TResourceRequest old) \<or> TPolicyName new \<noteq> TPolicyName old \<or>
     TAutoMigrationInfo new \<noteq> TAutoMigrationInfo old"

definition optionalChanged :: "RescheduleTrigger \<Rightarrow> schedulingTriggers \<Rightarrow> schedulingTriggers \<Rightarrow> bool" where
  "optionalChanged tr new old \<longleftrightarrow>
     PolicySchedulingContentHash new \<noteq> PolicySchedulingContentHash old \<and> PolicyContentChanged tr \<or>
     hashesChanged (ClusterLabelsHashes new) (ClusterLabelsHashes old) \<and> ClusterLabelsChanged tr \<or>
     hashesChanged (ClusterTaintsHashes new) (ClusterTaintsHashes old) \<or>
     hashesChanged (ClusterAPIResourceTypesHashes new) (ClusterAPIResourceTypesHashes old) \<and>
       ClusterAPIResourcesChanged tr \<or>
     set (TClusters old) \<subset> set (TClusters new) \<and> ClusterJoined tr"

definition mustReschedule :: "PropagationPolicy \<Rightarrow> schedulingTriggers \<Rightarrow> schedulingTriggers \<Rightarrow> bool" where
  "mustReschedule p new old \<longleftrightarrow> stableChanged new old \<or>
     (\<exists>rp tr. PolReschedulePolicy p = Some rp \<and> \<not> DisableRescheduling rp \<and> RPTrigger rp = Some tr \<and>
        optionalChanged tr new old)"

text \<open>The step of the scheduler: compute the annotations and write them.\<close>

definition refreshTriggers ::
    "schedulingTriggers \<Rightarrow> PropagationPolicy option \<Rightarrow> 'a ObjectMeta_scheme \<Rightarrow> 'a ObjectMeta_scheme \<times> (string + bool) \<times> bool" where
  "refreshTriggers new policy obj =
     (case computeSchedulingAnnotations new obj policy of
        (triggers, reasons, changed) \<Rightarrow>
          (case updateSchedulingAnnotations triggers reasons obj of (obj', r) \<Rightarrow> (obj', r, changed)))"

definition triggerSample :: schedulingTriggers where
  "triggerSample = zeroTriggers\<lparr>ReplicaCount := 3, TClusters := [''A'', ''B''], ClusterTaintsHashes := [(''B'', ''7''), (''A'', ''5'')]\<rparr>"

definition policySample :: PropagationPolicy where
  "policySample = \<lparr>PolName = ''p'', PolNamespace = ''ns'', PolSchedulingProfile = [], PolSchedulingMode = ''Divide'',
     PolReplicasStrategy = None, PolClusterSelector = [], PolClusterAffinity = [], PolTolerations = [],
     PolMaxClusters = None, PolPlacements = [], PolDisableFollowerScheduling = False, PolAutoMigration = None,
     PolReschedulePolicy = Some \<lparr>DisableRescheduling = False, RPTrigger = Some \<lparr>PolicyContentChanged = True,
       ClusterJoined = False, ClusterLabelsChanged = False, ClusterAPIResourcesChanged = False\<rparr>,
       ReplicaRescheduling = None\<rparr>\<rparr>"


section \<open>The annotation is read back\<close>

lemma lower_names:
  "map lowerChar ''schedulingAnnotationsHash'' = ''schedulingannotationshash''"
  "map lowerChar ''replicaCount'' = ''replicacount''"
  "map lowerChar ''resourceRequest'' = ''resourcerequest''"
  "map lowerChar ''autoMigrationInfo'' = ''automigrationinfo''"
  "map lowerChar ''policyName'' = ''policyname''"
  "map lowerChar ''policyContentHash'' = ''policycontenthash''"
  "map lowerChar ''clusters'' = ''clusters''"
  "map lowerChar ''clusterLabelsHashes'' = ''clusterlabelshashes''"
  "map lowerChar ''clusterTaintsHashes'' = ''clustertaintshashes''"
  "map lowerChar ''clusterAPIResourceTypesHashes'' = ''clusterapiresourcetypeshashes''"
  "map lowerChar ''millicpu'' = ''millicpu''" "map lowerChar ''memory'' = ''memory''"
  "map lowerChar ''ephemeralStorage'' = ''ephemeralstorage''"
  "map lowerChar ''scalarResources'' = ''scalarresources''"
  by code_simp+

lemma decodeInt64_encodeInt: "in64 n \<Longrightarrow> decodeInt64 (encodeInt n) = Some n"
  by (simp add: decodeInt64_def encodeInt_def parseInt_formatInt)

lemma decodeString_JStr: "decodeString (JStr s) = Some s"
  by (simp add: decodeString_def)

lemma decode_encodeResource:
  assumes "in64 (MilliCPU r)" "in64 (Memory r)" "in64 (EphemeralStorage r)"
    and "case ScalarResources r of None \<Rightarrow> True | Some m \<Rightarrow> wf_map m \<and> list_all in64 (mvals m)"
  shows "decodeObj resourceFields (encodeResource r) zeroResource =
     Some (r\<lparr>ScalarResources := map_option (sort_key fst) (ScalarResources r)\<rparr>)"
proof (cases "ScalarResources r")
  case None
  then show ?thesis using assms
    by (simp add: decodeObj_JObj fieldOf_def encodeResource_def resourceFields_def keyIs_def lower_names intField_def
      encodeInt_def parseInt_formatInt ptrField_def zeroResource_def)
next
  case (Some m)
  have "decodeMap decodeInt64 (encodeMap encodeInt m) = Some (sort_key fst m)"
    using assms(4) Some by (intro decode_encodeMap) (auto simp: decodeInt64_encodeInt list_all_iff)
  then show ?thesis using assms Some
    by (simp add: ptrField_encodeMap decodeObj_JObj fieldOf_def encodeResource_def resourceFields_def keyIs_def lower_names intField_def
      encodeInt_def parseInt_formatInt zeroResource_def)
qed

lemma triggerFields_of:
  "fieldOf triggerFields ''schedulingAnnotationsHash'' =
     strField (\<lambda>v t. t\<lparr>SchedulingAnnotationsHash := v\<rparr>)"
  "fieldOf triggerFields ''replicaCount'' =
     intField (\<lambda>v t. t\<lparr>ReplicaCount := v\<rparr>)"
  "fieldOf triggerFields ''resourceRequest'' =
     (\<lambda>j t. map_option (\<lambda>r. t\<lparr>TResourceRequest := r\<rparr>) (decodeObj resourceFields j (TResourceRequest t)))"
  "fieldOf triggerFields ''autoMigrationInfo'' =
     ptrField decodeString (\<lambda>v t. t\<lparr>TAutoMigrationInfo := v\<rparr>)"
  "fieldOf triggerFields ''policyName'' =
     strField (\<lambda>v t. t\<lparr>TPolicyName := v\<rparr>)"
  "fieldOf triggerFields ''policyContentHash'' =
     strField (\<lambda>v t. t\<lparr>PolicySchedulingContentHash := v\<rparr>)"
  "fieldOf triggerFields ''clusters'' =
     valField (decodeList decodeString) (\<lambda>v t. t\<lparr>TClusters := v\<rparr>)"
  "fieldOf triggerFields ''clusterLabelsHashes'' =
     valField (decodeMap decodeString) (\<lambda>v t. t\<lparr>ClusterLabelsHashes := v\<rparr>)"
  "fieldOf triggerFields ''clusterTaintsHashes'' =
     valField (decodeMap decodeString) (\<lambda>v t. t\<lparr>ClusterTaintsHashes := v\<rparr>)"
  "fieldOf triggerFields ''clusterAPIResourceTypesHashes'' =
     valField (decodeMap decodeString) (\<lambda>v t. t\<lparr>ClusterAPIResourceTypesHashes := v\<rparr>)"
  unfolding fieldOf_def triggerFields_def keyIs_def find.simps fst_conv lower_names by simp_all

lemma Unmarshal_Marshal:
  assumes "wf_triggers t"
  shows "Unmarshal (Marshal t) = Some (sortTriggers t)"
proof -
  have "intJson (encodeTriggers t)"
    by (auto simp: encodeTriggers_def encodeResource_def split: option.splits)
  then have "parseJson (Marshal t) = Some (encodeTriggers t)"
    unfolding Marshal_def by (rule parseJson_printJson)
  moreover have maps: "decodeMap decodeString (encodeMap JStr m) = Some (sort_key fst m)" if "wf_map m" for m
    using that by (intro decode_encodeMap) (simp_all add: decodeString_JStr)
  have res: "decodeObj resourceFields (encodeResource (TResourceRequest t)) zeroResource =
      Some ((TResourceRequest t)\<lparr>ScalarResources := map_option (sort_key fst) (ScalarResources (TResourceRequest t))\<rparr>)"
    using assms by (intro decode_encodeResource) (auto simp: wf_triggers_def)
  have "decodeObj triggerFields (encodeTriggers t) zeroTriggers = Some (sortTriggers t)"
    using assms
    by (cases "TAutoMigrationInfo t")
      (simp_all add: decodeObj_JObj encodeTriggers_def triggerFields_of strField_def
        intField_def encodeInt_def parseInt_formatInt ptrField_def valField_def decode_encodeStrings decodeString_JStr
        maps res zeroTriggers_def sortTriggers_def wf_triggers_def)
  ultimately show ?thesis by (simp add: Unmarshal_def)
qed


section \<open>Comparing with the annotation\<close>

lemma isClusterTriggerChanged_hashes:
  assumes "wf_map old"
  shows "isClusterTriggerChanged new old \<longleftrightarrow> hashesChanged new old"
proof -
  have mem: "map_of old c = Some v \<longleftrightarrow> (c, v) \<in> set old" for c v
    using assms by (simp add: wf_map_def map_of_eq_Some_iff)
  have "isClusterTriggerChanged new old \<longleftrightarrow> (\<exists>(c, v) \<in> set old. map_of new c \<noteq> Some v)"
    by (cases old) (auto simp: isClusterTriggerChanged_def list_ex_iff)
  then show ?thesis by (auto simp: hashesChanged_def mem)
qed

lemma compareStableTriggers_iff: "compareStableTriggers new old \<longleftrightarrow> stableChanged new old"
  by (cases "TAutoMigrationInfo new"; cases "TAutoMigrationInfo old")
    (auto simp: compareStableTriggers_def stableChanged_def)

lemma sameMap_sort: "wf_map m \<Longrightarrow> sameMap x (sort_key fst m) \<longleftrightarrow> sameMap x m"
  by (simp add: sameMap_def map_of_sort_key mkeys_def list_all_iff)

lemma stableChanged_sort:
  assumes "wf_triggers old"
  shows "stableChanged new (sortTriggers old) \<longleftrightarrow> stableChanged new old"
  using assms by (auto simp: stableChanged_def sortTriggers_def sameResource_def wf_triggers_def sameMap_sort
    split: option.splits)

lemma deferredChecks_None:
  assumes "wf_triggers old"
  shows "deferredChecks tr new (sortTriggers old) = None \<longleftrightarrow> optionalChanged tr new old"
proof -
  have h: "isClusterTriggerChanged m (sort_key fst m') \<longleftrightarrow> hashesChanged m m'" if "wf_map m'" for m m'
    using that by (simp add: isClusterTriggerChanged_hashes wf_map_sort_key hashesChanged_def map_of_sort_key)
  have "set (TClusters old) \<subseteq> set (TClusters new) \<and> card (set (TClusters new)) \<noteq> card (set (TClusters old)) \<longleftrightarrow>
      set (TClusters old) \<subset> set (TClusters new)"
    using card_subset_eq [of "set (TClusters new)" "set (TClusters old)"] by auto
  then show ?thesis
    using assms by (simp add: deferredChecks_def Let_def sortTriggers_def h wf_triggers_def optionalChanged_def)
qed

lemma not_mustReschedule_same:
  assumes "wf_triggers new" "wf_triggers old" "Marshal new = Marshal old"
  shows "\<not> mustReschedule p new old"
proof -
  have eq: "sortTriggers new = sortTriggers old"
    using Unmarshal_Marshal [OF assms(1)] Unmarshal_Marshal [OF assms(2)] assms(3) by simp
  have "\<not> stableChanged new new"
    by (auto simp: stableChanged_def sameResource_def sameMap_def list_all_iff split: option.splits)
  then have "\<not> stableChanged new old"
    using stableChanged_sort [OF assms(1)] stableChanged_sort [OF assms(2)] eq by metis
  moreover have "\<not> optionalChanged tr new new" for tr by (simp add: optionalChanged_def hashesChanged_def)
  then have "\<not> optionalChanged tr new old" for tr
    using deferredChecks_None [OF assms(1)] deferredChecks_None [OF assms(2)] eq by metis
  ultimately show ?thesis by (simp add: mustReschedule_def)
qed

lemma Marshal_nonempty: "Marshal t \<noteq> []"
  by (simp add: Marshal_def encodeTriggers_def)

lemma keys_differ: "SchedulingTriggersAnnotation \<noteq> []" "SchedulingDeferredReasonsAnnotation \<noteq> []"
  "SchedulingTriggersAnnotation \<noteq> SchedulingDeferredReasonsAnnotation"
  by (simp_all add: SchedulingTriggersAnnotation_def SchedulingDeferredReasonsAnnotation_def DefaultPrefix_def)

text \<open>Writing the two annotations: what they are afterwards, and when nothing is written.\<close>

lemma updateSchedulingAnnotations_spec:
  "\<exists>obj' changed. updateSchedulingAnnotations tr rs obj = (obj', Inr changed) \<and>
     map_of (MAnnotations obj') SchedulingTriggersAnnotation = Some tr \<and>
     map_of (MAnnotations obj') SchedulingDeferredReasonsAnnotation = (if rs = [] then None else Some rs)"
  using keys_differ
  by (auto simp: updateSchedulingAnnotations_def AddAnnotation_def RemoveAnnotation_def HasAnnotationKey_def
    HasAnnotationKeyValue_def map_of_mput map_of_mdel split: option.splits)

lemma updateSchedulingAnnotations_id:
  assumes "map_of (MAnnotations obj) SchedulingTriggersAnnotation = Some tr"
    and "map_of (MAnnotations obj) SchedulingDeferredReasonsAnnotation = (if rs = [] then None else Some rs)"
  shows "updateSchedulingAnnotations tr rs obj = (obj, Inr False)"
  using assms keys_differ
  by (auto simp: updateSchedulingAnnotations_def AddAnnotation_def RemoveAnnotation_def HasAnnotationKey_def
    HasAnnotationKeyValue_def split: option.splits if_splits)

text \<open>The decision depends on the trigger annotation only, and repeats itself.\<close>

lemma computeSchedulingAnnotations_cong:
  assumes "MAnnotations obj \<noteq> []" "MAnnotations obj' \<noteq> []"
    and "map_of (MAnnotations obj) SchedulingTriggersAnnotation = map_of (MAnnotations obj') SchedulingTriggersAnnotation"
  shows "computeSchedulingAnnotations new obj policy = computeSchedulingAnnotations new obj' policy"
  using assms(1,2) unfolding computeSchedulingAnnotations_def Let_def mget_def assms(3) by simp

lemma computeSchedulingAnnotations_again:
  assumes "computeSchedulingAnnotations new obj policy = (tr, rs, changed)"
    and "map_of (MAnnotations obj') SchedulingTriggersAnnotation = Some tr"
  shows "computeSchedulingAnnotations new obj' policy = (tr, rs, False)"
proof -
  have ne: "MAnnotations obj' \<noteq> []" using assms(2) by auto
  show ?thesis
  proof (cases "tr = Marshal new")
    case True
    then have "rs = []"
      using assms(1) by (auto simp: computeSchedulingAnnotations_def Let_def split: if_splits option.splits)
    then show ?thesis using True ne assms(2) Marshal_nonempty [of new]
      by (simp add: computeSchedulingAnnotations_def Let_def mget_def split: option.split)
  next
    case False
    then have "tr = mget [] (MAnnotations obj) SchedulingTriggersAnnotation" "changed = False" "MAnnotations obj \<noteq> []"
        "map_of (MAnnotations obj) SchedulingTriggersAnnotation \<noteq> None" "tr \<noteq> []"
      using assms(1) by (auto simp: computeSchedulingAnnotations_def Let_def split: if_splits option.splits)
    then show ?thesis using assms ne computeSchedulingAnnotations_cong [of obj obj' new policy]
      by (auto simp: mget_def)
  qed
qed


section \<open>Properties\<close>

text \<open>
  C24.  When an object is scheduled again: the annotation written for earlier triggers is compared
  field by field, and a new scheduling is triggered exactly when a trigger that cannot be turned off
  changed (scheduling annotations, replicas, resource request, policy, migration info), or when
  rescheduling is enabled and the taints of a known cluster changed or a change that the policy
  reacts to happened.  Otherwise the old annotation stays.
\<close>

theorem scheduling_decision:
  assumes "wf_triggers new" "wf_triggers old"
    and "map_of (MAnnotations obj) SchedulingTriggersAnnotation = Some (Marshal old)"
    and "computeSchedulingAnnotations new obj (Some p) = (text, reasons, changed)"
  shows "changed = mustReschedule p new old \<and> text = (if changed then Marshal new else Marshal old)"
proof (cases "Marshal old = Marshal new")
  case True
  then show ?thesis using assms(3,4) not_mustReschedule_same [OF assms(1,2), of p] Marshal_nonempty [of new]
    by (auto simp: computeSchedulingAnnotations_def Let_def mget_def split: if_splits)
next
  case False
  note dec = computeSchedulingAnnotations_def Let_def mget_def assms(3) Unmarshal_Marshal [OF assms(2)]
    compareStableTriggers_iff stableChanged_sort [OF assms(2)] Marshal_nonempty
  have ne: "MAnnotations obj \<noteq> []" using assms(3) by auto
  show ?thesis
  proof (cases "stableChanged new old")
    case True
    then show ?thesis using assms(4) ne False by (auto simp: dec mustReschedule_def)
  next
    case nostable: False
    show ?thesis
    proof (cases "PolReschedulePolicy p")
      case None
      then show ?thesis using assms(4) ne False nostable
        by (auto simp: dec mustReschedule_def getIsStickyClusterFromPolicy_def)
    next
      case (Some rp)
      then show ?thesis using assms(4) ne False nostable
        by (auto simp: dec mustReschedule_def getIsStickyClusterFromPolicy_def deferredChecks_None [OF assms(2), symmetric]
          split: if_splits option.splits)
    qed
  qed
qed

theorem scheduling_decision_witness:
  "mustReschedule policySample (triggerSample\<lparr>ClusterTaintsHashes := [(''A'', ''5''), (''B'', ''8'')]\<rparr>) triggerSample \<and>
   \<not> mustReschedule policySample (triggerSample\<lparr>TClusters := [''A'', ''B'', ''C'']\<rparr>) triggerSample"
proof
  let ?m = "\<lparr>MName = ''web'', MNamespace = ''ns'', MLabels = [],
    MAnnotations = [(SchedulingTriggersAnnotation, Marshal triggerSample)], MFinalizers = []\<rparr>"
  have a: "map_of (MAnnotations ?m) SchedulingTriggersAnnotation = Some (Marshal triggerSample)" by simp
  have t: "computeSchedulingAnnotations (triggerSample\<lparr>ClusterTaintsHashes := [(''A'', ''5''), (''B'', ''8'')]\<rparr>) ?m
      (Some policySample) = (Marshal (triggerSample\<lparr>ClusterTaintsHashes := [(''A'', ''5''), (''B'', ''8'')]\<rparr>), [], True)"
    by code_simp
  have j: "computeSchedulingAnnotations (triggerSample\<lparr>TClusters := [''A'', ''B'', ''C'']\<rparr>) ?m
      (Some policySample) = (Marshal triggerSample, ''clusterJoined:false'', False)"
    by code_simp
  have "wf_triggers triggerSample" "wf_triggers (triggerSample\<lparr>TClusters := [''A'', ''B'', ''C'']\<rparr>)"
    "wf_triggers (triggerSample\<lparr>ClusterTaintsHashes := [(''A'', ''5''), (''B'', ''8'')]\<rparr>)"
    by code_simp+
  then show "mustReschedule policySample (triggerSample\<lparr>ClusterTaintsHashes := [(''A'', ''5''), (''B'', ''8'')]\<rparr>) triggerSample"
    and "\<not> mustReschedule policySample (triggerSample\<lparr>TClusters := [''A'', ''B'', ''C'']\<rparr>) triggerSample"
    using scheduling_decision [OF _ _ a t] scheduling_decision [OF _ _ a j] by blast+
qed

text \<open>
  Refreshing the annotations is idempotent for every object, readable annotation or not:
  it never fails, and a second refresh with the same triggers and policy neither triggers a scheduling
  nor changes the object, so the scheduler does not chase its own updates.
\<close>

lemma triggers_idempotent:
  "case refreshTriggers new policy obj of (obj', r, changed) \<Rightarrow>
     \<not> isl r \<and> refreshTriggers new policy obj' = (obj', Inr False, False)"
proof -
  obtain tr rs ch where c: "computeSchedulingAnnotations new obj policy = (tr, rs, ch)" by (metis prod_cases3)
  obtain obj' b where u: "updateSchedulingAnnotations tr rs obj = (obj', Inr b)"
    "map_of (MAnnotations obj') SchedulingTriggersAnnotation = Some tr"
    "map_of (MAnnotations obj') SchedulingDeferredReasonsAnnotation = (if rs = [] then None else Some rs)"
    using updateSchedulingAnnotations_spec [of tr rs obj] by auto
  show ?thesis
    using computeSchedulingAnnotations_again [OF c u(2)] updateSchedulingAnnotations_id [OF u(2,3)] u(1) c
    by (simp add: refreshTriggers_def)
qed


end
