(* ===== verification/Scheduling_Unit.thy ===== *)
theory Scheduling_Unit
  imports Triggers
begin

text \<open>
  From a federated object and its policy to a scheduling unit,
  \<open>pkg/controllers/scheduler/schedulingunit.go\<close>, and the migration configuration and replica overrides of
  \<open>util.go\<close>.  Every scheduling parameter comes from the policy unless a valid annotation of the object
  overrides it; invalid annotations are logged and ignored.
\<close>


section \<open>Model: decoding the annotations\<close>

text \<open>\<open>metav1.Time\<close> in seconds since the epoch; its zero value is the first of January of year 1.\<close>

definition zeroTime :: int where
  "zeroTime = - 62135596800"

definition decodeTime :: "apimachinery \<Rightarrow> json \<Rightarrow> int option" where
  "decodeTime k8s j = (case j of JNull \<Rightarrow> Some zeroTime | JStr s \<Rightarrow> ParseTime k8s s | _ \<Rightarrow> None)"

definition encodeTime :: "apimachinery \<Rightarrow> int \<Rightarrow> json" where
  "encodeTime k8s t = (if t = zeroTime then JNull else JStr (FormatTime k8s t))"

definition decodeAutoMigrationInfo :: "json \<Rightarrow> AutoMigrationInfo option" where
  "decodeAutoMigrationInfo j = decodeObj
     [(''estimatedCapacity'', valField (decodeMap decodeInt64) (\<lambda>v r. r\<lparr>EstimatedCapacity := v\<rparr>)),
      (''scheduledReplicas'', valField (decodeMap decodeInt64) (\<lambda>v r. r\<lparr>ScheduledReplicas := v\<rparr>))]
     j \<lparr>EstimatedCapacity = [], ScheduledReplicas = []\<rparr>"

definition decodeUnavailableCluster :: "apimachinery \<Rightarrow> json \<Rightarrow> UnavailableCluster option" where
  "decodeUnavailableCluster k8s j = decodeObj
     [(''cluster'', strField (\<lambda>v r. r\<lparr>UCCluster := v\<rparr>)),
      (''validUntil'', valField (decodeTime k8s) (\<lambda>v r. r\<lparr>ValidUntil := v\<rparr>))]
     j \<lparr>UCCluster = [], ValidUntil = zeroTime\<rparr>"

definition decodeCustomMigrationInfo :: "apimachinery \<Rightarrow> json \<Rightarrow> CustomMigrationInfo option" where
  "decodeCustomMigrationInfo k8s j = decodeObj
     [(''limitedCapacity'', ptrField (decodeMap decodeInt64) (\<lambda>v r. r\<lparr>LimitedCapacity := v\<rparr>)),
      (''unavailableClusters'', valField (decodeList (decodeUnavailableCluster k8s)) (\<lambda>v r. r\<lparr>UnavailableClusters := v\<rparr>))]
     j \<lparr>LimitedCapacity = None, UnavailableClusters = []\<rparr>"

definition decodeRequirement :: "json \<Rightarrow> ClusterSelectorRequirement option" where
  "decodeRequirement j = decodeObj
     [(''key'', strField (\<lambda>v r. r\<lparr>CSKey := v\<rparr>)), (''operator'', strField (\<lambda>v r. r\<lparr>CSOperator := v\<rparr>)),
      (''values'', valField (decodeList decodeString) (\<lambda>v r. r\<lparr>CSValues := v\<rparr>))]
     j \<lparr>CSKey = [], CSOperator = [], CSValues = []\<rparr>"

definition decodeTerm :: "json \<Rightarrow> ClusterSelectorTerm option" where
  "decodeTerm j = decodeObj
     [(''matchExpressions'', valField (decodeList decodeRequirement) (\<lambda>v r. r\<lparr>MatchExpressions := v\<rparr>)),
      (''matchFields'', valField (decodeList decodeRequirement) (\<lambda>v r. r\<lparr>MatchFields := v\<rparr>))]
     j \<lparr>MatchExpressions = [], MatchFields = []\<rparr>"

definition decodeInt32 :: "json \<Rightarrow> int option" where
  "decodeInt32 j =
     Option.bind (decodeInt64 j) (\<lambda>v. if - (2 ^ 31) \<le> v \<and> v < 2 ^ 31 then Some v else None)"

definition decodePreferredTerm :: "json \<Rightarrow> PreferredSchedulingTerm option" where
  "decodePreferredTerm j = decodeObj
     [(''weight'', valField decodeInt32 (\<lambda>v r. r\<lparr>PWeight := v\<rparr>)),
      (''preference'', valField decodeTerm (\<lambda>v r. r\<lparr>PPreference := v\<rparr>))]
     j \<lparr>PWeight = 0, PPreference = \<lparr>MatchExpressions = [], MatchFields = []\<rparr>\<rparr>"

definition decodeClusterSelector :: "json \<Rightarrow> ClusterSelectorTerm list option" where
  "decodeClusterSelector j = decodeObj
     [(''clusterSelectorTerms'', valField (decodeList decodeTerm) (\<lambda>v r. v))] j []"

definition decodeClusterAffinity :: "json \<Rightarrow> ClusterAffinity option" where
  "decodeClusterAffinity j = decodeObj
     [(''requiredDuringSchedulingIgnoredDuringExecution'',
         ptrField decodeClusterSelector (\<lambda>v r. r\<lparr>RequiredTerms := v\<rparr>)),
      (''preferredDuringSchedulingIgnoredDuringExecution'',
         valField (decodeList decodePreferredTerm) (\<lambda>v r. r\<lparr>PreferredTerms := v\<rparr>))]
     j \<lparr>RequiredTerms = None, PreferredTerms = []\<rparr>"

text \<open>An \<open>Affinity\<close> is its only field, the \<open>ClusterAffinity\<close> pointer.\<close>

definition decodeAffinity :: "json \<Rightarrow> ClusterAffinity option option" where
  "decodeAffinity j = decodeObj [(''clusterAffinity'', ptrField decodeClusterAffinity (\<lambda>v r. v))] j None"

definition decodeToleration :: "json \<Rightarrow> Toleration option" where
  "decodeToleration j = decodeObj
     [(''key'', strField (\<lambda>v r. r\<lparr>TolerationKey := v\<rparr>)), (''operator'', strField (\<lambda>v r. r\<lparr>TolerationOperator := v\<rparr>)),
      (''value'', strField (\<lambda>v r. r\<lparr>TolerationValue := v\<rparr>)), (''effect'', strField (\<lambda>v r. r\<lparr>TolerationEffect := v\<rparr>)),
      (''tolerationSeconds'', ptrField decodeInt64 (\<lambda>v r. r\<lparr>TolerationSeconds := v\<rparr>))]
     j \<lparr>TolerationKey = [], TolerationOperator = [], TolerationValue = [], TolerationEffect = [],
        TolerationSeconds = None\<rparr>"

definition decodePreferences :: "json \<Rightarrow> Preferences option" where
  "decodePreferences j = decodeObj
     [(''minReplicas'', intField (\<lambda>v r. r\<lparr>PrefMinReplicas := v\<rparr>)),
      (''maxReplicas'', ptrField decodeInt64 (\<lambda>v r. r\<lparr>PrefMaxReplicas := v\<rparr>)),
      (''weight'', ptrField decodeInt64 (\<lambda>v r. r\<lparr>PrefWeight := v\<rparr>)),
      (''priority'', ptrField decodeInt64 (\<lambda>v r. r\<lparr>PrefPriority := v\<rparr>))]
     j \<lparr>PrefMinReplicas = 0, PrefMaxReplicas = None, PrefWeight = None, PrefPriority = None\<rparr>"

definition decodePlacement :: "json \<Rightarrow> DesiredPlacement option" where
  "decodePlacement j = decodeObj
     [(''cluster'', strField (\<lambda>v r. r\<lparr>DPCluster := v\<rparr>)),
      (''preferences'', valField decodePreferences (\<lambda>v r. r\<lparr>DPPreferences := v\<rparr>))]
     j \<lparr>DPCluster = [], DPPreferences = \<lparr>PrefMinReplicas = 0, PrefMaxReplicas = None, PrefWeight = None,
        PrefPriority = None\<rparr>\<rparr>"

definition decodeClusterReference :: "json \<Rightarrow> string option" where
  "decodeClusterReference j = decodeObj [(''cluster'', strField (\<lambda>v r. v))] j []"

definition annotationJson :: "'a ObjectMeta_scheme \<Rightarrow> string \<Rightarrow> (json \<Rightarrow> 'b option) \<Rightarrow> 'b option" where
  "annotationJson obj key dec =
     Option.bind (map_of (MAnnotations obj) (DefaultPrefix @ key)) (\<lambda>v. Option.bind (parseJson v) dec)"


section \<open>Model: parameters of the policy and of the object\<close>

definition getSchedulingModeFromPolicy :: "PropagationPolicy \<Rightarrow> SchedulingMode" where
  "getSchedulingModeFromPolicy policy =
     (if PolSchedulingMode policy = ''Duplicate'' then Duplicate
      else if PolSchedulingMode policy = ''Divide'' then Divide
      else Duplicate)"

definition getReplicasStrategyFromPolicy :: "PropagationPolicy \<Rightarrow> ReplicasStrategy" where
  "getReplicasStrategyFromPolicy policy =
     (case PolReplicasStrategy policy of
        None \<Rightarrow> Spread
      | Some s \<Rightarrow> if s = ''Binpack'' then Binpack else Spread)"

definition getSchedulingModeFromObject :: "'a ObjectMeta_scheme \<Rightarrow> SchedulingMode option" where
  "getSchedulingModeFromObject fedObject =
     (case map_of (MAnnotations fedObject) (DefaultPrefix @ ''scheduling-mode'') of
        None \<Rightarrow> None
      | Some annotation \<Rightarrow>
          if annotation = ''Duplicate'' then Some Duplicate
          else if annotation = ''Divide'' then Some Divide
          else None)"

definition getAutoMigrationInfo :: "'a ObjectMeta_scheme \<Rightarrow> string + AutoMigrationInfo option" where
  "getAutoMigrationInfo fedObject =
     (case map_of (MAnnotations fedObject) AutoMigrationInfoAnnotation of
        None \<Rightarrow> Inr None
      | Some val \<Rightarrow>
          (case Option.bind (parseJson val) decodeAutoMigrationInfo of
             None \<Rightarrow> Inl ''invalid auto migration info''
           | Some info \<Rightarrow> Inr (Some info)))"

definition getCustomMigrationInfo :: "apimachinery \<Rightarrow> 'a ObjectMeta_scheme \<Rightarrow> string + CustomMigrationInfo option" where
  "getCustomMigrationInfo k8s fedObject =
     (case map_of (MAnnotations fedObject) AppliedMigrationConfigurationAnnotation of
        None \<Rightarrow> Inr None
      | Some val \<Rightarrow>
          (case Option.bind (parseJson val) (decodeCustomMigrationInfo k8s) of
             None \<Rightarrow> Inl ''invalid custom migration info''
           | Some info \<Rightarrow> Inr (Some info)))"

definition getAvoidDisruptionFromPolicy :: "PropagationPolicy \<Rightarrow> bool" where
  "getAvoidDisruptionFromPolicy policy =
     (case PolReschedulePolicy policy of
        None \<Rightarrow> False
      | Some rp \<Rightarrow> (case ReplicaRescheduling rp of None \<Rightarrow> False | Some b \<Rightarrow> b))"

definition getIsStickyClusterFromObject :: "'a ObjectMeta_scheme \<Rightarrow> bool option" where
  "getIsStickyClusterFromObject object =
     (case map_of (MAnnotations object) (DefaultPrefix @ ''sticky-cluster'') of
        None \<Rightarrow> None
      | Some annotation \<Rightarrow>
          if annotation = ''true'' then Some True else if annotation = ''false'' then Some False else None)"

definition getClusterSelectorFromPolicy :: "PropagationPolicy \<Rightarrow> (string, string) gomap" where
  "getClusterSelectorFromPolicy policy = PolClusterSelector policy"

definition getClusterSelectorFromObject :: "'a ObjectMeta_scheme \<Rightarrow> (string, string) gomap option" where
  "getClusterSelectorFromObject object = annotationJson object ''clusterSelector'' (decodeMap decodeString)"

definition getAffinityFromPolicy :: "PropagationPolicy \<Rightarrow> ClusterAffinity option" where
  "getAffinityFromPolicy policy =
     (if PolClusterAffinity policy = [] then None
      else Some \<lparr>RequiredTerms = Some (PolClusterAffinity policy), PreferredTerms = []\<rparr>)"

definition getAffinityFromObject :: "'a ObjectMeta_scheme \<Rightarrow> ClusterAffinity option option" where
  "getAffinityFromObject object = annotationJson object ''affinity'' decodeAffinity"

definition getTolerationsFromPolicy :: "PropagationPolicy \<Rightarrow> Toleration list" where
  "getTolerationsFromPolicy policy = PolTolerations policy"

definition getTolerationsFromObject :: "'a ObjectMeta_scheme \<Rightarrow> Toleration list option" where
  "getTolerationsFromObject object = annotationJson object ''tolerations'' (decodeList decodeToleration)"

definition getMaxClustersFromPolicy :: "PropagationPolicy \<Rightarrow> int64 option" where
  "getMaxClustersFromPolicy policy = PolMaxClusters policy"

definition getMaxClustersFromObject :: "'a ObjectMeta_scheme \<Rightarrow> int64 option option" where
  "getMaxClustersFromObject object =
     (case map_of (MAnnotations object) (DefaultPrefix @ ''maxClusters'') of
        None \<Rightarrow> None
      | Some annotation \<Rightarrow>
          (case parseInt annotation of
             None \<Rightarrow> None
           | Some maxClusters \<Rightarrow> if maxClusters < 0 then None else Some (Some maxClusters)))"

text \<open>The loops over the placements, and the validation of what an annotation gives.\<close>

definition placementMap :: "(Preferences \<Rightarrow> int64 option) \<Rightarrow> DesiredPlacement list \<Rightarrow> replicas" where
  "placementMap pref placements =
     fold (\<lambda>p m. case pref (DPPreferences p) of None \<Rightarrow> m | Some v \<Rightarrow> mput (DPCluster p) v m) placements []"

definition placementsFromObject :: "(Preferences \<Rightarrow> int64 option) \<Rightarrow> 'a ObjectMeta_scheme \<Rightarrow> replicas option" where
  "placementsFromObject pref object =
     (case annotationJson object ''placements'' (decodeList decodePlacement) of
        None \<Rightarrow> None
      | Some placements \<Rightarrow>
          let m = placementMap pref placements in
          if list_ex (\<lambda>v. v < 0) (mvals m) then None else Some m)"

definition getWeightsFromPolicy :: "PropagationPolicy \<Rightarrow> replicas" where
  "getWeightsFromPolicy policy = placementMap PrefWeight (PolPlacements policy)"

definition getWeightsFromObject :: "'a ObjectMeta_scheme \<Rightarrow> replicas option" where
  "getWeightsFromObject object = placementsFromObject PrefWeight object"

definition getPrioritiesFromPolicy :: "PropagationPolicy \<Rightarrow> replicas" where
  "getPrioritiesFromPolicy policy = placementMap PrefPriority (PolPlacements policy)"

definition getPrioritiesFromObject :: "'a ObjectMeta_scheme \<Rightarrow> replicas option" where
  "getPrioritiesFromObject object = placementsFromObject PrefPriority object"

definition getMinReplicasFromPolicy :: "PropagationPolicy \<Rightarrow> replicas" where
  "getMinReplicasFromPolicy policy = placementMap (\<lambda>p. Some (PrefMinReplicas p)) (PolPlacements policy)"

definition getMinReplicasFromObject :: "'a ObjectMeta_scheme \<Rightarrow> replicas option" where
  "getMinReplicasFromObject object = placementsFromObject (\<lambda>p. Some (PrefMinReplicas p)) object"

definition getMaxReplicasFromPolicy :: "PropagationPolicy \<Rightarrow> replicas" where
  "getMaxReplicasFromPolicy policy = placementMap PrefMaxReplicas (PolPlacements policy)"

definition getMaxReplicasFromObject :: "'a ObjectMeta_scheme \<Rightarrow> replicas option" where
  "getMaxReplicasFromObject object = placementsFromObject PrefMaxReplicas object"

definition getClusterNamesFromPolicy :: "PropagationPolicy \<Rightarrow> string list" where
  "getClusterNamesFromPolicy policy = fold (\<lambda>p m. List.insert (DPCluster p) m) (PolPlacements policy) []"

definition getClusterNamesFromObject :: "'a ObjectMeta_scheme \<Rightarrow> string list option" where
  "getClusterNamesFromObject object =
     map_option (\<lambda>cs. fold List.insert cs [])
       (annotationJson object ''placements'' (decodeList decodeClusterReference))"


section \<open>Model: current replicas and replica overrides\<close>

definition overridePatchOpReplace :: string where
  "overridePatchOpReplace = ''replace''"

definition UpdateReplicasOverride ::
    "FederatedTypeConfig \<Rightarrow> 'a FedObject_scheme \<Rightarrow> replicas \<Rightarrow> 'a FedObject_scheme \<times> bool" where
  "UpdateReplicasOverride ftc fedObject result =
     (let replicasPath = ToSlashPath (FTCReplicasSpec ftc);
          newOverrides = map (\<lambda>(cluster, replicas). \<lparr>OCluster = cluster,
            Patches = [\<lparr>POp = overridePatchOpReplace, PPath = replicasPath, PValue = encodeInt replicas\<rparr>]\<rparr>) result
      in case SetControllerOverrides PrefixedGlobalSchedulerName newOverrides (Overrides fedObject) of
        (overrides, updated) \<Rightarrow> (fedObject\<lparr>Overrides := overrides\<rparr>, updated))"

text \<open>The inner loop: the first replicas patch whose value is an integer.\<close>

fun replicasPatch :: "string \<Rightarrow> OverridePatch list \<Rightarrow> int64 option" where
  "replicasPatch replicasPath [] = None"
| "replicasPatch replicasPath (patch # patches) =
     (if PPath patch = replicasPath \<and> (POp patch = overridePatchOpReplace \<or> POp patch = []) then
        (case decodeInt64 (PValue patch) of
           None \<Rightarrow> replicasPatch replicasPath patches
         | Some n \<Rightarrow> Some n)
      else replicasPatch replicasPath patches)"

definition getCurrentReplicasFromObject ::
    "FederatedTypeConfig \<Rightarrow> 'a FedObject_scheme \<Rightarrow> (string, int64 option) gomap" where
  "getCurrentReplicasFromObject ftc fedObject =
     (let placements = GetControllerPlacement (Placements fedObject) PrefixedGlobalSchedulerName;
          overrides = GetControllerOverrides (Overrides fedObject) PrefixedGlobalSchedulerName;
          res = fold (\<lambda>cluster m. mput cluster None m) placements [];
          replicasPath = ToSlashPath (FTCReplicasSpec ftc)
      in fold (\<lambda>override m.
                 if map_of m (OCluster override) = None then m
                 else case replicasPatch replicasPath (Patches override) of
                   None \<Rightarrow> m
                 | Some n \<Rightarrow> mput (OCluster override) (Some n) m) overrides res)"


section \<open>Model: migration configuration\<close>

record ReplicasMigration =
  RMCluster :: string
  RMLimitedCapacity :: "int64 option"

record WorkloadMigration =
  WMCluster :: string
  WMValidUntil :: "int option"

record MigrationConfig =
  ReplicasMigrations :: "ReplicasMigration list"
  WorkloadMigrations :: "WorkloadMigration list"

definition decodeMigrationConfig :: "apimachinery \<Rightarrow> json \<Rightarrow> MigrationConfig option" where
  "decodeMigrationConfig k8s j = decodeObj
     [(''replicasMigrations'', valField (decodeList (\<lambda>e. decodeObj
         [(''cluster'', strField (\<lambda>v r. r\<lparr>RMCluster := v\<rparr>)),
          (''limitedCapacity'', ptrField decodeInt64 (\<lambda>v r. r\<lparr>RMLimitedCapacity := v\<rparr>))]
         e \<lparr>RMCluster = [], RMLimitedCapacity = None\<rparr>)) (\<lambda>v r. r\<lparr>ReplicasMigrations := v\<rparr>)),
      (''workloadMigrations'', valField (decodeList (\<lambda>e. decodeObj
         [(''cluster'', strField (\<lambda>v r. r\<lparr>WMCluster := v\<rparr>)),
          (''validUntil'', ptrField (decodeTime k8s) (\<lambda>v r. r\<lparr>WMValidUntil := v\<rparr>))]
         e \<lparr>WMCluster = [], WMValidUntil = None\<rparr>)) (\<lambda>v r. r\<lparr>WorkloadMigrations := v\<rparr>))]
     j \<lparr>ReplicasMigrations = [], WorkloadMigrations = []\<rparr>"

fun validateReplicasMigrations :: "ReplicasMigration list \<Rightarrow> string set \<Rightarrow> string + string set" where
  "validateReplicasMigrations [] clusters = Inr clusters"
| "validateReplicasMigrations (m # ms) clusters =
     (if RMCluster m = [] then Inl ''cluster cannot be empty''
      else case RMLimitedCapacity m of
        None \<Rightarrow> Inl ''limitedCapacity cannot be empty''
      | Some n \<Rightarrow>
          if n < 0 then Inl ''limitedCapacity cannot be less than zero''
          else if RMCluster m \<in> clusters
            then Inl ''multiple migration configurations cannot be configured for the same cluster''
          else validateReplicasMigrations ms (insert (RMCluster m) clusters))"

fun validateWorkloadMigrations :: "WorkloadMigration list \<Rightarrow> string set \<Rightarrow> string option" where
  "validateWorkloadMigrations [] clusters = None"
| "validateWorkloadMigrations (m # ms) clusters =
     (if WMCluster m = [] then Some ''cluster cannot be empty''
      else if WMValidUntil m = None then Some ''validUntil cannot be empty''
      else if WMCluster m \<in> clusters
        then Some ''multiple migration configurations cannot be configured for the same cluster''
      else validateWorkloadMigrations ms (insert (WMCluster m) clusters))"

definition replicasMigrationSupported ::
    "apimachinery \<Rightarrow> MigrationConfig \<Rightarrow> 'a FedObject_scheme \<Rightarrow> FederatedTypeConfig \<Rightarrow> string option" where
  "replicasMigrationSupported k8s migrationConfig fedObj ftc =
     (if ReplicasMigrations migrationConfig = [] then None
      else case GetTemplateAsUnstructured k8s fedObj of
        Inl err \<Rightarrow> Some err
      | Inr sourceObj \<Rightarrow>
          (case GetInt64FromPath k8s sourceObj (FTCReplicasSpec ftc) [] of
             Inr (Some _) \<Rightarrow> None
           | _ \<Rightarrow> Some ''workload does not support the replica migration configurations''))"

definition validateMigrationConfig ::
    "apimachinery \<Rightarrow> MigrationConfig \<Rightarrow> 'a FedObject_scheme \<Rightarrow> FederatedTypeConfig \<Rightarrow> string option" where
  "validateMigrationConfig k8s migrationConfig fedObj ftc =
     (case replicasMigrationSupported k8s migrationConfig fedObj ftc of
        Some err \<Rightarrow> Some err
      | None \<Rightarrow>
          (case validateReplicasMigrations (ReplicasMigrations migrationConfig) {} of
             Inl err \<Rightarrow> Some err
           | Inr clusters \<Rightarrow> validateWorkloadMigrations (WorkloadMigrations migrationConfig) clusters))"

definition convertToCustomMigrationInfo :: "MigrationConfig \<Rightarrow> CustomMigrationInfo" where
  "convertToCustomMigrationInfo migrationConfig =
     \<lparr>LimitedCapacity =
        (if ReplicasMigrations migrationConfig = [] then None
         else Some (fold (\<lambda>m acc. mput (RMCluster m) (the (RMLimitedCapacity m)) acc)
                      (ReplicasMigrations migrationConfig) [])),
      UnavailableClusters = sort_key UCCluster
        (map (\<lambda>m. \<lparr>UCCluster = WMCluster m, ValidUntil = the (WMValidUntil m)\<rparr>) (WorkloadMigrations migrationConfig))\<rparr>"

definition encodeCustomMigrationInfo :: "apimachinery \<Rightarrow> CustomMigrationInfo \<Rightarrow> json" where
  "encodeCustomMigrationInfo k8s info = JObj (
     (case LimitedCapacity info of
        None \<Rightarrow> [] | Some m \<Rightarrow> omitEmpty (m = []) ''limitedCapacity'' (encodeMap encodeInt m)) @
     omitEmpty (UnavailableClusters info = []) ''unavailableClusters''
       (JArr (map (\<lambda>u. JObj [(''cluster'', JStr (UCCluster u)), (''validUntil'', encodeTime k8s (ValidUntil u))])
         (UnavailableClusters info))))"

definition getCustomMigrationInfoBytes ::
    "apimachinery \<Rightarrow> string \<Rightarrow> 'a FedObject_scheme \<Rightarrow> FederatedTypeConfig \<Rightarrow> string + string" where
  "getCustomMigrationInfoBytes k8s existingMigrationConfigBytes fedObj ftc =
     (case Option.bind (parseJson existingMigrationConfigBytes) (decodeMigrationConfig k8s) of
        None \<Rightarrow> Inl ''invalid migration configuration''
      | Some existingMigrationConfig \<Rightarrow>
          (case validateMigrationConfig k8s existingMigrationConfig fedObj ftc of
             Some err \<Rightarrow> Inl err
           | None \<Rightarrow>
               Inr (printJson (encodeCustomMigrationInfo k8s (convertToCustomMigrationInfo existingMigrationConfig)))))"


section \<open>Model: the scheduling unit\<close>

definition unitMode :: "FederatedTypeConfig \<Rightarrow> 'a ObjectMeta_scheme \<Rightarrow> PropagationPolicy \<Rightarrow> SchedulingMode" where
  "unitMode typeConfig fedObject policy =
     (let schedulingMode = (case getSchedulingModeFromObject fedObject of
            Some m \<Rightarrow> m | None \<Rightarrow> getSchedulingModeFromPolicy policy)
      in if schedulingMode = Divide \<and> FTCReplicasSpec typeConfig = [] then Duplicate else schedulingMode)"

definition unitDesiredReplicas ::
    "apimachinery \<Rightarrow> FederatedTypeConfig \<Rightarrow> json \<Rightarrow> SchedulingMode \<Rightarrow> string + int64 option" where
  "unitDesiredReplicas k8s typeConfig template schedulingMode =
     (if schedulingMode = Divide then
        (case GetInt64FromPath k8s template (FTCReplicasSpec typeConfig) [] of
           Inl err \<Rightarrow> Inl err
         | Inr None \<Rightarrow> Inl (''replicas path '' @ quoteStr (FTCReplicasSpec typeConfig) @ '' does not exist for FederatedObject'')
         | Inr (Some v) \<Rightarrow> Inr (Some v))
      else Inr None)"

definition unitAutoMigration :: "'a ObjectMeta_scheme \<Rightarrow> PropagationPolicy \<Rightarrow> string + AutoMigrationSpec option" where
  "unitAutoMigration fedObject policy =
     (case PolAutoMigration policy of
        None \<Rightarrow> Inr None
      | Some am \<Rightarrow>
          (case getAutoMigrationInfo fedObject of
             Inl err \<Rightarrow> Inl err
           | Inr info \<Rightarrow> Inr (Some \<lparr>AMInfo = info, KeepUnschedulableReplicas = PAMKeepUnschedulableReplicas am\<rparr>)))"

text \<open>Only GPU and Katalyst resources are requested.\<close>

definition unitResourceRequest :: "externs \<Rightarrow> bool \<Rightarrow> Resource \<Rightarrow> Resource" where
  "unitResourceRequest ext enableKatalystSupport resourceRequest =
     (let r1 = (if HasScalarResource resourceRequest ''nvidia.com/gpu''
                then SetScalar ''nvidia.com/gpu'' (scalarOf resourceRequest ''nvidia.com/gpu'') zeroResource
                else zeroResource)
      in if enableKatalystSupport
         then fold (\<lambda>(name, quantity) r. SetScalar name quantity r) (GetKatalystResources ext resourceRequest) r1
         else r1)"

definition overrideOr :: "'b option \<Rightarrow> 'b \<Rightarrow> 'b" where
  "overrideOr override policyValue = (case override of Some v \<Rightarrow> v | None \<Rightarrow> policyValue)"

definition buildUnit ::
    "FederatedTypeConfig \<Rightarrow> 'a FedObject_scheme \<Rightarrow> PropagationPolicy \<Rightarrow> ObjectMeta \<Rightarrow> int64 option \<Rightarrow> AutoMigrationSpec option
     \<Rightarrow> CustomMigrationInfo option \<Rightarrow> Resource \<Rightarrow> bool \<Rightarrow> SchedulingUnit" where
  "buildUnit typeConfig fedObject policy meta desiredReplicas autoMigration customMigration request enableKatalystSupport =
     (let sourceType = GetSourceType typeConfig in
      \<lparr>SUGroup = MetaGroup sourceType, SUVersion = MetaVersion sourceType, SUKind = MetaKind sourceType,
       SUResource = MetaResource sourceType, SUNamespace = MNamespace meta, SUName = MName meta,
       SULabels = MLabels meta, SUAnnotations = MAnnotations meta,
       DesiredReplicas = desiredReplicas, ResourceRequest = request,
       CurrentClusters = getCurrentReplicasFromObject typeConfig fedObject,
       AutoMigration = autoMigration, CustomMigration = customMigration,
       SUSchedulingMode = unitMode typeConfig fedObject policy,
       SUReplicasStrategy = getReplicasStrategyFromPolicy policy,
       StickyCluster = overrideOr (getIsStickyClusterFromObject fedObject) (getIsStickyClusterFromPolicy policy),
       AvoidDisruption = getAvoidDisruptionFromPolicy policy,
       ClusterSelector = overrideOr (getClusterSelectorFromObject fedObject) (getClusterSelectorFromPolicy policy),
       ClusterNames = overrideOr (getClusterNamesFromObject fedObject) (getClusterNamesFromPolicy policy),
       SUAffinity = overrideOr (getAffinityFromObject fedObject) (getAffinityFromPolicy policy),
       Tolerations = overrideOr (getTolerationsFromObject fedObject) (getTolerationsFromPolicy policy),
       MaxClusters = overrideOr (getMaxClustersFromObject fedObject) (getMaxClustersFromPolicy policy),
       SUMinReplicas = overrideOr (getMinReplicasFromObject fedObject) (getMinReplicasFromPolicy policy),
       SUMaxReplicas = overrideOr (getMaxReplicasFromObject fedObject) (getMaxReplicasFromPolicy policy),
       Weights = overrideOr (getWeightsFromObject fedObject) (getWeightsFromPolicy policy),
       Priorities = overrideOr (getPrioritiesFromObject fedObject) (getPrioritiesFromPolicy policy),
       EnableKatalystSupport = enableKatalystSupport\<rparr>)"

definition schedulingUnitForFedObject ::
    "apimachinery \<Rightarrow> externs \<Rightarrow> FederatedTypeConfig \<Rightarrow> 'a FedObject_scheme \<Rightarrow> PropagationPolicy \<Rightarrow> bool
     \<Rightarrow> string + SchedulingUnit" where
  "schedulingUnitForFedObject k8s ext typeConfig fedObject policy enableKatalystSupport =
     (case GetTemplateAsUnstructured k8s fedObject of
        Inl err \<Rightarrow> Inl (''error retrieving template from FederatedObject: '' @ err)
      | Inr template \<Rightarrow>
     (case unitDesiredReplicas k8s typeConfig template (unitMode typeConfig fedObject policy) of
        Inl err \<Rightarrow> Inl err
      | Inr desiredReplicas \<Rightarrow>
     (case unitAutoMigration fedObject policy of
        Inl err \<Rightarrow> Inl err
      | Inr autoMigration \<Rightarrow>
     (case getCustomMigrationInfo k8s fedObject of
        Inl err \<Rightarrow> Inl err
      | Inr customMigration \<Rightarrow>
     (case getResourceRequest k8s ext typeConfig fedObject of
        Inl err \<Rightarrow> Inl err
      | Inr request \<Rightarrow>
          Inr (buildUnit typeConfig fedObject policy (UnsMeta k8s template) desiredReplicas autoMigration
                 customMigration (unitResourceRequest ext enableKatalystSupport request) enableKatalystSupport))))))"


section \<open>Statement vocabulary\<close>

text \<open>What the validation of the custom resource guarantees of a policy.\<close>

definition nonneg_opt :: "int64 option \<Rightarrow> bool" where
  "nonneg_opt v = (case v of None \<Rightarrow> True | Some n \<Rightarrow> 0 \<le> n)"

definition prefs_valid :: "Preferences \<Rightarrow> bool" where
  "prefs_valid p \<longleftrightarrow> 0 \<le> PrefMinReplicas p \<and> nonneg_opt (PrefMaxReplicas p) \<and> nonneg_opt (PrefWeight p) \<and>
     nonneg_opt (PrefPriority p)"

definition policy_valid :: "PropagationPolicy \<Rightarrow> bool" where
  "policy_valid policy \<longleftrightarrow>
     list_all (\<lambda>p. prefs_valid (DPPreferences p)) (PolPlacements policy) \<and> nonneg_opt (PolMaxClusters policy)"

definition natural_map :: "replicas \<Rightarrow> bool" where
  "natural_map m \<longleftrightarrow> wf_map m \<and> list_all (\<lambda>v. 0 \<le> v) (mvals m)"


section \<open>Placements\<close>

lemma natural_map_Nil [simp]: "natural_map []"
  by (simp add: natural_map_def mvals_def)

lemma mvals_mput_subset: "set (mvals (mput k v m)) \<subseteq> insert v (set (mvals m))"
  by (induction m) (auto simp: mvals_def mput_def)

lemma natural_map_mput: "natural_map m \<Longrightarrow> 0 \<le> v \<Longrightarrow> natural_map (mput k v m)"
  using mvals_mput_subset [of k v m] by (auto simp: natural_map_def list_all_iff)

lemma wf_placementMap: "wf_map (placementMap pref ps)"
proof -
  have "wf_map m \<Longrightarrow> wf_map (fold (\<lambda>p m. case pref (DPPreferences p) of None \<Rightarrow> m | Some v \<Rightarrow> mput (DPCluster p) v m) ps m)"
    for m by (induction ps arbitrary: m) (auto split: option.split)
  then show ?thesis by (simp add: placementMap_def)
qed

lemma natural_placementMap:
  assumes "\<forall>p \<in> set ps. \<forall>v. pref (DPPreferences p) = Some v \<longrightarrow> 0 \<le> v"
  shows "natural_map (placementMap pref ps)"
proof -
  have "natural_map m \<Longrightarrow> natural_map (fold (\<lambda>p m. case pref (DPPreferences p) of None \<Rightarrow> m | Some v \<Rightarrow> mput (DPCluster p) v m) ps m)"
    for m using assms
  proof (induction ps arbitrary: m)
    case (Cons p ps)
    have "natural_map (case pref (DPPreferences p) of None \<Rightarrow> m | Some v \<Rightarrow> mput (DPCluster p) v m)"
      using Cons.prems by (auto intro: natural_map_mput split: option.split)
    then show ?case using Cons.IH Cons.prems(2) by simp
  qed simp
  then show ?thesis by (simp add: placementMap_def)
qed

lemma natural_placementsFromObject: "placementsFromObject pref obj = Some m \<Longrightarrow> natural_map m"
  using wf_placementMap
  by (auto simp: placementsFromObject_def natural_map_def Let_def list_all_iff list_ex_iff not_less
    split: option.splits if_splits)

lemma natural_overrideOr:
  assumes "policy_valid policy" and "\<And>p v. prefs_valid p \<Longrightarrow> pref p = Some v \<Longrightarrow> 0 \<le> v"
  shows "natural_map (overrideOr (placementsFromObject pref obj) (placementMap pref (PolPlacements policy)))"
proof -
  have "natural_map (placementMap pref (PolPlacements policy))"
    using assms by (intro natural_placementMap) (auto simp: policy_valid_def list_all_iff)
  then show ?thesis
    using natural_placementsFromObject by (auto simp: overrideOr_def split: option.split)
qed

lemmas unit_getters = getMinReplicasFromObject_def getMinReplicasFromPolicy_def getMaxReplicasFromObject_def
  getMaxReplicasFromPolicy_def getWeightsFromObject_def getWeightsFromPolicy_def getPrioritiesFromObject_def
  getPrioritiesFromPolicy_def

lemma unitResourceRequest_base:
  "MilliCPU (unitResourceRequest ext b r) = 0 \<and> Memory (unitResourceRequest ext b r) = 0 \<and>
   EphemeralStorage (unitResourceRequest ext b r) = 0"
proof -
  have "MilliCPU (fold (\<lambda>(name, q) r. SetScalar name q r) xs r0) = MilliCPU r0 \<and>
      Memory (fold (\<lambda>(name, q) r. SetScalar name q r) xs r0) = Memory r0 \<and>
      EphemeralStorage (fold (\<lambda>(name, q) r. SetScalar name q r) xs r0) = EphemeralStorage r0" for xs r0
    by (induction xs arbitrary: r0) auto
  then show ?thesis by (simp add: unitResourceRequest_def Let_def zeroResource_def)
qed


section \<open>Properties\<close>



end
