(* ===== verification/Planner.thy ===== *)
theory Planner
  imports Go_Prelude
begin

text \<open>
  The replica planner, \<open>pkg/controllers/scheduler/planner/planner.go\<close>: it distributes the replicas
  of a federated workload over clusters by minimum, maximum and weight, under the limited and the
  estimated capacity of each cluster, and optionally without moving replicas that already run.

  The Go structs are records (\<open>namedClusterPreferences\<close> embeds \<open>ClusterPreferences\<close> by record
  extension), each loop body is a definition (\<open>minStep\<close>, \<open>distStep\<close>) folded over the preferences,
  and the outer \<open>for\<close> loop of \<open>getDesiredPlan\<close> is a partial function in the option monad:
  \<open>None\<close> would be a loop that never ends, and \<open>distLoop_correct\<close> shows it returns.
  \<open>hash/fnv\<close> writes never fail, so the error results of the Go functions are never produced.
\<close>


section \<open>Model\<close>

record ClusterPreferences =
  MinReplicas :: int64
  MaxReplicas :: "int64 option"
  Weight :: int64

record namedClusterPreferences = ClusterPreferences +
  clusterName :: string
  hash :: "32 word"

record ReplicaSchedulingPreference =
  Clusters :: "(string, ClusterPreferences) gomap"

definition byWeight_Less :: "namedClusterPreferences \<Rightarrow> namedClusterPreferences \<Rightarrow> bool" where
  "byWeight_Less p q \<longleftrightarrow> Weight p > Weight q \<or> (Weight p = Weight q \<and> hash p < hash q)"

definition named :: "string \<Rightarrow> string \<Rightarrow> ClusterPreferences \<Rightarrow> namedClusterPreferences" where
  "named key name pref =
     \<lparr>MinReplicas = MinReplicas pref, MaxReplicas = MaxReplicas pref, Weight = Weight pref,
      clusterName = name, hash = fnv32 (name @ key)\<rparr>"

text \<open>\<open>sort.Sort(byWeight(..))\<close>, as a sort by the key that \<open>byWeight_Less\<close> compares.\<close>

definition byWeight_key :: "namedClusterPreferences \<Rightarrow> int \<times> int" where
  "byWeight_key p = (- Weight p, uint (hash p))"

definition getNamedPreferences ::
    "(string, ClusterPreferences) gomap \<Rightarrow> string \<Rightarrow> namedClusterPreferences list" where
  "getNamedPreferences preferences key =
     sort_key byWeight_key (map (\<lambda>(name, pref). named key name pref) preferences)"

type_synonym minState = "int64 \<times> replicas \<times> replicas"

definition minStep ::
    "replicas \<Rightarrow> replicas \<Rightarrow> namedClusterPreferences \<Rightarrow> minState \<Rightarrow> minState" where
  "minStep estimatedCapacity limitedCapacity preference = (\<lambda>(remaining, plan, overflow).
     let name = clusterName preference;
         min0 = minInt64 (MinReplicas preference) remaining;
         min1 = capTo (map_of limitedCapacity name) min0;
         overflow' = (if exceeds (map_of estimatedCapacity name) min1
                      then mput name (sub64 min1 (mget 0 estimatedCapacity name)) overflow
                      else overflow);
         min2 = capTo (map_of estimatedCapacity name) min1
     in (sub64 remaining min2, mput name min2 plan, overflow'))"

type_synonym distState =
  "int64 \<times> replicas \<times> replicas \<times> namedClusterPreferences list \<times> bool"

definition distStep ::
    "replicas \<Rightarrow> replicas \<Rightarrow> int64 \<Rightarrow> int64 \<Rightarrow> namedClusterPreferences \<Rightarrow> distState \<Rightarrow> distState" where
  "distStep estimatedCapacity limitedCapacity distributeInThisLoop weightSum preference =
    (\<lambda>(remaining, plan, overflow, newPreferences, modified).
     let name = clusterName preference;
         start = mget 0 plan name;
         extra0 = div64 (sub64 (add64 (mul64 distributeInThisLoop (Weight preference)) weightSum) 1)
                        weightSum;
         extra = minInt64 extra0 remaining;
         total0 = add64 start extra;
         full0 = exceeds (MaxReplicas preference) total0;
         total1 = capTo (MaxReplicas preference) total0;
         full1 = exceeds (map_of limitedCapacity name) total1;
         total2 = capTo (map_of limitedCapacity name) total1;
         full2 = exceeds (map_of estimatedCapacity name) total2;
         overflow' = (if full2
                      then mput name (add64 (mget 0 overflow name)
                                            (sub64 total2 (mget 0 estimatedCapacity name))) overflow
                      else overflow);
         total = capTo (map_of estimatedCapacity name) total2;
         full = (full0 \<or> full1 \<or> full2)
     in (sub64 remaining (sub64 total start), mput name total plan, overflow',
         (if full then newPreferences else newPreferences @ [preference]),
         modified \<or> total > start))"

partial_function (option) distLoop ::
    "replicas \<Rightarrow> replicas \<Rightarrow> namedClusterPreferences list \<Rightarrow> bool \<Rightarrow> int64 \<Rightarrow> replicas \<Rightarrow> replicas
     \<Rightarrow> (int64 \<times> replicas \<times> replicas) option" where
  "distLoop estimatedCapacity limitedCapacity preferences modified remaining plan overflow =
    (if modified \<and> remaining > 0 then
       let weightSum = sum64 (map Weight preferences) in
       if weightSum \<le> 0 then Some (remaining, plan, overflow)
       else
         case fold (distStep estimatedCapacity limitedCapacity remaining weightSum) preferences
                (remaining, plan, overflow, [], False) of
           (remaining', plan', overflow', newPreferences, modified') \<Rightarrow>
             distLoop estimatedCapacity limitedCapacity newPreferences modified'
               remaining' plan' overflow'
     else Some (remaining, plan, overflow))"

declare distLoop.simps [code]

definition trimOverflow :: "int64 \<Rightarrow> replicas \<Rightarrow> replicas" where
  "trimOverflow remaining overflow =
     filter (\<lambda>(key, value). value > 0)
       (map (\<lambda>(key, value). (key, minInt64 value remaining)) overflow)"

definition getDesiredPlan ::
    "namedClusterPreferences list \<Rightarrow> replicas \<Rightarrow> replicas \<Rightarrow> int64 \<Rightarrow> bool
     \<Rightarrow> (replicas \<times> replicas) option" where
  "getDesiredPlan preferences estimatedCapacity limitedCapacity totalReplicas keepUnschedulable =
     (case fold (minStep estimatedCapacity limitedCapacity) preferences (totalReplicas, [], []) of
        (remaining, plan, overflow) \<Rightarrow>
          (case distLoop estimatedCapacity limitedCapacity preferences True remaining plan overflow of
             None \<Rightarrow> None
           | Some (remaining', plan', overflow') \<Rightarrow>
               if keepUnschedulable then Some (plan', overflow')
               else Some (plan', trimOverflow remaining' overflow')))"

text \<open>The final loops of \<open>scaleUp\<close> and \<open>scaleDown\<close> write into \<open>currentReplicaCount\<close>.\<close>

definition addReplicas :: "replicas \<Rightarrow> replicas \<Rightarrow> replicas" where
  "addReplicas current extra = fold (\<lambda>(c, n) m. mput c (add64 (mget 0 m c) n) m) extra current"

definition subReplicas :: "replicas \<Rightarrow> replicas \<Rightarrow> replicas" where
  "subReplicas current fewer = fold (\<lambda>(c, n) m. mput c (sub64 (mget 0 m c) n) m) fewer current"

definition scaleUpPreferences ::
    "ReplicaSchedulingPreference \<Rightarrow> replicas \<Rightarrow> replicas \<Rightarrow> (string, ClusterPreferences) gomap" where
  "scaleUpPreferences rsp current desired =
     map (\<lambda>(cluster, d).
            (cluster,
             \<lparr>MinReplicas = 0,
              MaxReplicas =
                (case map_of (Clusters rsp) cluster of
                   None \<Rightarrow> None
                 | Some pref \<Rightarrow> (case MaxReplicas pref of
                                 None \<Rightarrow> None
                               | Some m \<Rightarrow> Some (sub64 m (mget 0 current cluster)))),
              Weight = sub64 d (mget 0 current cluster)\<rparr>))
         (filter (\<lambda>(cluster, d). d > mget 0 current cluster) desired)"

definition scaleUp ::
    "ReplicaSchedulingPreference \<Rightarrow> replicas \<Rightarrow> replicas \<Rightarrow> int64 \<Rightarrow> string \<Rightarrow> replicas option" where
  "scaleUp rsp current desired scaleUpCount key =
     (case getDesiredPlan (getNamedPreferences (scaleUpPreferences rsp current desired) key)
             [] [] scaleUpCount False of
        None \<Rightarrow> None
      | Some (replicasToScaleUp, _) \<Rightarrow> Some (addReplicas current replicasToScaleUp))"

definition scaleDownPreferences ::
    "replicas \<Rightarrow> replicas \<Rightarrow> (string, ClusterPreferences) gomap" where
  "scaleDownPreferences current desired =
     map (\<lambda>(cluster, d).
            (cluster,
             \<lparr>MinReplicas = 0,
              MaxReplicas = Some (mget 0 current cluster),
              Weight = sub64 (mget 0 current cluster) d\<rparr>))
         (filter (\<lambda>(cluster, d). d < mget 0 current cluster) desired)"

definition scaleDown :: "replicas \<Rightarrow> replicas \<Rightarrow> int64 \<Rightarrow> string \<Rightarrow> replicas option" where
  "scaleDown current desired scaleDownCount key =
     (case getDesiredPlan (getNamedPreferences (scaleDownPreferences current desired) key)
             [] [] scaleDownCount False of
        None \<Rightarrow> None
      | Some (replicasToScaleDown, _) \<Rightarrow> Some (subReplicas current replicasToScaleDown))"

text \<open>The first loop of \<open>Plan\<close>: an explicit preference, or the one of \<open>"*"\<close>, or none.\<close>

definition planPreferences ::
    "ReplicaSchedulingPreference \<Rightarrow> string list \<Rightarrow> (string, ClusterPreferences) gomap" where
  "planPreferences rsp availableClusters =
     fold (\<lambda>cluster m.
             (case map_of (Clusters rsp) cluster of
                Some pref \<Rightarrow> mput cluster pref m
              | None \<Rightarrow> (case map_of (Clusters rsp) ''*'' of
                          Some pref \<Rightarrow> mput cluster pref m
                        | None \<Rightarrow> m)))
          availableClusters []"

definition currentPlanOf ::
    "namedClusterPreferences list \<Rightarrow> replicas \<Rightarrow> replicas \<Rightarrow> replicas \<Rightarrow> replicas" where
  "currentPlanOf namedPreferences currentReplicaCount estimatedCapacity limitedCapacity =
     fold (\<lambda>p m.
             let name = clusterName p in
             mput name (capTo (map_of estimatedCapacity name)
                          (capTo (map_of limitedCapacity name) (mget 0 currentReplicaCount name))) m)
          namedPreferences []"

definition Plan ::
    "ReplicaSchedulingPreference \<Rightarrow> int64 \<Rightarrow> string list \<Rightarrow> replicas \<Rightarrow> replicas \<Rightarrow> replicas \<Rightarrow> string
     \<Rightarrow> bool \<Rightarrow> bool \<Rightarrow> (replicas \<times> replicas) option" where
  "Plan rsp totalReplicas availableClusters currentReplicaCount estimatedCapacity limitedCapacity
        key avoidDisruption keepUnschedulableReplicas =
     (let namedPreferences = getNamedPreferences (planPreferences rsp availableClusters) key;
          keep = (if \<not> avoidDisruption then True else keepUnschedulableReplicas) in
      case getDesiredPlan namedPreferences estimatedCapacity limitedCapacity totalReplicas keep of
        None \<Rightarrow> None
      | Some (desiredPlan, desiredOverflow) \<Rightarrow>
          if \<not> avoidDisruption then Some (desiredPlan, desiredOverflow)
          else
            let currentPlan = currentPlanOf namedPreferences currentReplicaCount
                                estimatedCapacity limitedCapacity;
                currentTotal = sum64 (mvals currentPlan);
                desiredTotal = sum64 (mvals desiredPlan) in
            if currentTotal = desiredTotal then Some (currentPlan, desiredOverflow)
            else if currentTotal > desiredTotal then
              map_option (\<lambda>plan. (plan, desiredOverflow))
                (scaleDown currentPlan desiredPlan (sub64 currentTotal desiredTotal) key)
            else
              map_option (\<lambda>plan. (plan, desiredOverflow))
                (scaleUp rsp currentPlan desiredPlan (sub64 desiredTotal currentTotal) key))"

text \<open>
  Vocabulary of the statements: what an input must satisfy for the arithmetic to stay inside
  \<open>int64\<close> (\<open>prefs_ok\<close>, \<open>caps_ok\<close>, \<open>plan_fits\<close>), what the loops preserve (\<open>plan_inv\<close>), and when a
  cluster cannot take one more replica (\<open>saturated\<close>).
\<close>

definition pref_ok :: "('a) ClusterPreferences_scheme \<Rightarrow> bool" where
  "pref_ok p \<longleftrightarrow> 0 \<le> MinReplicas p \<and> 0 \<le> Weight p \<and>
     (case MaxReplicas p of None \<Rightarrow> True | Some m \<Rightarrow> 0 \<le> m)"

definition min_le_max :: "('a) ClusterPreferences_scheme \<Rightarrow> bool" where
  "min_le_max p \<longleftrightarrow> (case MaxReplicas p of None \<Rightarrow> True | Some m \<Rightarrow> MinReplicas p \<le> m)"

definition plan_fits :: "int \<Rightarrow> int \<Rightarrow> bool" where
  "plan_fits T W \<longleftrightarrow> 0 \<le> T \<and> 0 \<le> W \<and> (T + 1) * (W + 1) < 2 ^ 62"

definition prefs_ok :: "namedClusterPreferences list \<Rightarrow> bool" where
  "prefs_ok ps \<longleftrightarrow> list_all pref_ok ps \<and> distinct (map clusterName ps)"

definition total_weight :: "('a) ClusterPreferences_scheme list \<Rightarrow> int" where
  "total_weight ps = sum_list (map Weight ps)"

definition capAll :: "replicas \<Rightarrow> replicas \<Rightarrow> namedClusterPreferences \<Rightarrow> int \<Rightarrow> int" where
  "capAll est lim p x =
     cap3 (map_of est (clusterName p)) (map_of lim (clusterName p)) (MaxReplicas p) x"

definition saturated :: "replicas \<Rightarrow> replicas \<Rightarrow> namedClusterPreferences \<Rightarrow> int \<Rightarrow> bool" where
  "saturated est lim p v \<longleftrightarrow>
     MaxReplicas p = Some v \<or> map_of lim (clusterName p) = Some v \<or> map_of est (clusterName p) = Some v"

definition ceilShare :: "int \<Rightarrow> int \<Rightarrow> int \<Rightarrow> int" where
  "ceilShare D W w = (D * w + W - 1) div W"

definition minShare :: "replicas \<Rightarrow> replicas \<Rightarrow> namedClusterPreferences \<Rightarrow> int \<Rightarrow> int" where
  "minShare est lim p remaining =
     capTo (map_of est (clusterName p)) (capTo (map_of lim (clusterName p)) (min (MinReplicas p) remaining))"

definition minOverflow ::
    "replicas \<Rightarrow> replicas \<Rightarrow> namedClusterPreferences \<Rightarrow> int \<Rightarrow> replicas \<Rightarrow> replicas" where
  "minOverflow est lim p remaining ov =
     (let m1 = capTo (map_of lim (clusterName p)) (min (MinReplicas p) remaining);
          m = minShare est lim p remaining
      in if m < m1 then mput (clusterName p) (m1 - m) ov else ov)"

text \<open>\<open>distStep\<close> in exact arithmetic, with the three caps composed.\<close>

definition distStepX ::
    "replicas \<Rightarrow> replicas \<Rightarrow> int \<Rightarrow> int \<Rightarrow> namedClusterPreferences \<Rightarrow> distState \<Rightarrow> distState" where
  "distStepX est lim D V p = (\<lambda>(r, plan, ov, new, md).
     let n = clusterName p; s = mget 0 plan n; x = s + min (ceilShare D V (Weight p)) r;
         t2 = capTo (map_of lim n) (capTo (MaxReplicas p) x); t = capAll est lim p x
     in (r - (t - s), mput n t plan,
         (if t < t2 then mput n (mget 0 ov n + (t2 - t)) ov else ov),
         (if t < x then new else new @ [p]), md \<or> t > s))"

definition overflowAfter ::
    "replicas \<Rightarrow> replicas \<Rightarrow> namedClusterPreferences \<Rightarrow> int \<Rightarrow> int option \<Rightarrow> int option" where
  "overflowAfter est lim p x old =
     (let t2 = capTo (map_of lim (clusterName p)) (capTo (MaxReplicas p) x); t = capAll est lim p x in
      if t < t2 then Some ((case old of None \<Rightarrow> 0 | Some v \<Rightarrow> v) + (t2 - t)) else old)"

text \<open>The effect of a pass, given the extra amount \<open>e p\<close> that each cluster is offered in it.\<close>

definition passSpec ::
    "replicas \<Rightarrow> replicas \<Rightarrow> int \<Rightarrow> int \<Rightarrow> namedClusterPreferences list \<Rightarrow> distState \<Rightarrow> distState
     \<Rightarrow> (namedClusterPreferences \<Rightarrow> int) \<Rightarrow> bool" where
  "passSpec est lim D V ps = (\<lambda>(r, plan, ov, new, md) (r', plan', ov', new', md') e.
     0 \<le> r' \<and>
     (\<forall>n. n \<notin> clusterName ` set ps \<longrightarrow>
        map_of plan' n = map_of plan n \<and> map_of ov' n = map_of ov n) \<and>
     (\<forall>p \<in> set ps.
        0 \<le> e p \<and> e p \<le> ceilShare D V (Weight p) \<and>
        map_of plan' (clusterName p) = Some (capAll est lim p (mget 0 plan (clusterName p) + e p)) \<and>
        map_of ov' (clusterName p) = overflowAfter est lim p (mget 0 plan (clusterName p) + e p)
          (map_of ov (clusterName p))) \<and>
     new' = new @ filter (\<lambda>p. mget 0 plan (clusterName p) + e p \<le> mget 0 plan' (clusterName p)) ps \<and>
     (md' \<longleftrightarrow> md \<or> (\<exists>p \<in> set ps. mget 0 plan (clusterName p) < mget 0 plan' (clusterName p))) \<and>
     ((\<forall>p \<in> set ps. mget 0 plan' (clusterName p) = mget 0 plan (clusterName p) + e p) \<longrightarrow>
        r' = max 0 (r - (\<Sum>p\<leftarrow>ps. ceilShare D V (Weight p)))) \<and>
     (0 < r \<longrightarrow> (\<forall>p \<in> set ps. mget 0 plan' (clusterName p) \<le> mget 0 plan (clusterName p)) \<longrightarrow>
        (\<forall>p \<in> set ps. 0 < ceilShare D V (Weight p) \<longrightarrow> 0 < e p)))"

text \<open>
  The invariant of the outer loop: \<open>ps0\<close> and \<open>plan0\<close> are the preferences and the plan it starts
  with, \<open>ps\<close> the preferences that are not yet full.
\<close>

definition loopInv ::
    "replicas \<Rightarrow> replicas \<Rightarrow> string list \<Rightarrow> int \<Rightarrow> int \<Rightarrow> namedClusterPreferences list \<Rightarrow> replicas
     \<Rightarrow> namedClusterPreferences list \<Rightarrow> int \<Rightarrow> replicas \<Rightarrow> replicas \<Rightarrow> bool" where
  "loopInv est lim ns T W ps0 plan0 ps r plan ov \<longleftrightarrow>
     plan_inv ns T r plan \<and> mkeys plan = ns \<and> wf_map ov \<and>
     prefs_ok ps \<and> set ps \<subseteq> set ps0 \<and> total_weight ps \<le> W \<and>
     (\<forall>p \<in> set ps0. p \<in> set ps \<or> saturated est lim p (mget 0 plan (clusterName p))) \<and>
     (\<forall>p \<in> set ps0. min_le_max p \<longrightarrow>
        capAll est lim p (mget 0 plan (clusterName p)) = mget 0 plan (clusterName p) \<and>
        mget 0 plan0 (clusterName p) \<le> mget 0 plan (clusterName p)) \<and>
     (\<forall>p \<in> set ps. 0 \<le> mget 0 ov (clusterName p) \<and> mget 0 ov (clusterName p) \<le> T) \<and>
     (\<forall>p \<in> set ps0. \<forall>v. map_of ov (clusterName p) = Some v \<longrightarrow>
        0 < v \<and> (min_le_max p \<longrightarrow> map_of est (clusterName p) = Some (mget 0 plan (clusterName p))))"

definition settled :: "replicas \<Rightarrow> replicas \<Rightarrow> namedClusterPreferences list \<Rightarrow> replicas \<Rightarrow> bool" where
  "settled est lim ps0 plan \<longleftrightarrow>
     list_all (\<lambda>p. 0 < Weight p \<longrightarrow> saturated est lim p (mget 0 plan (clusterName p))) ps0"

text \<open>What \<open>Plan\<close> expects of its caller, and the value of a cluster in the plan of running replicas.\<close>

definition rsp_ok :: "ReplicaSchedulingPreference \<Rightarrow> bool" where
  "rsp_ok rsp \<longleftrightarrow> list_all (\<lambda>(c, p). pref_ok p \<and> min_le_max p \<and>
     (case MaxReplicas p of None \<Rightarrow> True | Some m \<Rightarrow> in64 m)) (Clusters rsp)"

definition prefOf :: "ReplicaSchedulingPreference \<Rightarrow> string \<Rightarrow> ClusterPreferences option" where
  "prefOf rsp c = (case map_of (Clusters rsp) c of
     Some p \<Rightarrow> Some p | None \<Rightarrow> map_of (Clusters rsp) ''*'')"

definition planNames :: "ReplicaSchedulingPreference \<Rightarrow> string list \<Rightarrow> string list" where
  "planNames rsp cs = mkeys (planPreferences rsp cs)"

definition currentOk :: "replicas \<Rightarrow> replicas \<Rightarrow> replicas \<Rightarrow> string \<Rightarrow> int" where
  "currentOk cur est lim c = capTo (map_of est c) (capTo (map_of lim c) (mget 0 cur c))"

definition between :: "int \<Rightarrow> int \<Rightarrow> int \<Rightarrow> bool" where
  "between a x b \<longleftrightarrow> min a b \<le> x \<and> x \<le> max a b"

definition plan_input_ok ::
    "ReplicaSchedulingPreference \<Rightarrow> int \<Rightarrow> string list \<Rightarrow> replicas \<Rightarrow> replicas \<Rightarrow> replicas \<Rightarrow> bool" where
  "plan_input_ok rsp T cs cur est lim \<longleftrightarrow>
     rsp_ok rsp \<and> caps_ok cur \<and> caps_ok est \<and> caps_ok lim \<and>
     plan_fits T (total_weight (mvals (planPreferences rsp cs))) \<and> plan_fits T T \<and>
     plan_fits (planTotal (planNames rsp cs) cur) (planTotal (planNames rsp cs) cur)"

text \<open>The example input the witnesses evaluate.\<close>

definition sampleRsp :: ReplicaSchedulingPreference where
  "sampleRsp = \<lparr>Clusters = [(''A'', \<lparr>MinReplicas = 1, MaxReplicas = Some 4, Weight = 2\<rparr>),
     (''*'', \<lparr>MinReplicas = 0, MaxReplicas = Some 3, Weight = 1\<rparr>)]\<rparr>"

definition sampleClusters :: "string list" where
  "sampleClusters = [''A'', ''B'', ''C'']"

definition sampleCurrent :: replicas where
  "sampleCurrent = [(''A'', 5), (''B'', 0)]"

definition sampleEstimated :: replicas where
  "sampleEstimated = [(''B'', 2)]"

definition sampleLimited :: replicas where
  "sampleLimited = [(''C'', 3)]"


section \<open>Sorting of the preferences\<close>

lemma byWeight_Less_key: "byWeight_Less p q \<longleftrightarrow> byWeight_key p < byWeight_key q"
  by (auto simp: byWeight_Less_def byWeight_key_def less_prod_def word_less_def)

lemma mset_getNamedPreferences:
  "mset (getNamedPreferences prefs key) = mset (map (\<lambda>(name, pref). named key name pref) prefs)"
  by (simp add: getNamedPreferences_def)

lemma set_getNamedPreferences:
  "set (getNamedPreferences prefs key) = (\<lambda>(name, pref). named key name pref) ` set prefs"
  by (simp add: getNamedPreferences_def)

lemma clusterName_named [simp]: "clusterName (named key name pref) = name"
  and Weight_named [simp]: "Weight (named key name pref) = Weight pref"
  and MinReplicas_named [simp]: "MinReplicas (named key name pref) = MinReplicas pref"
  and MaxReplicas_named [simp]: "MaxReplicas (named key name pref) = MaxReplicas pref"
  by (simp_all add: named_def)

lemma min_le_max_named [simp]: "min_le_max (named key name pref) = min_le_max pref"
  by (simp add: min_le_max_def split: option.splits)

lemma names_getNamedPreferences:
  "mset (map clusterName (getNamedPreferences prefs key)) = mset (mkeys prefs)"
  by (simp add: mset_getNamedPreferences mkeys_def multiset.map_comp comp_def case_prod_unfold)

lemma distinct_names_getNamedPreferences:
  "wf_map prefs \<Longrightarrow> distinct (map clusterName (getNamedPreferences prefs key))"
  using mset_eq_imp_distinct_iff [OF names_getNamedPreferences [of prefs key]]
  by (simp add: wf_map_def mkeys_def)

lemma sum_getNamedPreferences:
  assumes "\<And>name pref. f (named key name pref) = (g pref :: int)"
  shows "sum_list (map f (getNamedPreferences prefs key)) = sum_list (map g (mvals prefs))"
proof -
  have "mset (map f (getNamedPreferences prefs key)) = mset (map g (mvals prefs))"
    by (simp add: mset_getNamedPreferences mvals_def multiset.map_comp comp_def case_prod_unfold assms)
  then show ?thesis by (metis sum_mset_sum_list)
qed

lemma total_weight_getNamedPreferences:
  "total_weight (getNamedPreferences prefs key) = total_weight (mvals prefs)"
  unfolding total_weight_def by (rule sum_getNamedPreferences) simp

lemma prefs_ok_getNamedPreferences:
  "wf_map prefs \<Longrightarrow> list_all pref_ok (mvals prefs) \<Longrightarrow> prefs_ok (getNamedPreferences prefs key)"
  by (auto simp: prefs_ok_def distinct_names_getNamedPreferences list_all_iff
      set_getNamedPreferences mvals_def pref_ok_def)


section \<open>Exact arithmetic of one step\<close>

lemma capAll_le: "capAll est lim p x \<le> x"
  by (simp add: capAll_def cap3_le)

lemma capAll_mono: "x \<le> y \<Longrightarrow> capAll est lim p x \<le> capAll est lim p y"
  by (simp add: capAll_def cap3_mono)

lemma capAll_nonneg:
  "pref_ok p \<Longrightarrow> caps_ok est \<Longrightarrow> caps_ok lim \<Longrightarrow> 0 \<le> x \<Longrightarrow> 0 \<le> capAll est lim p x"
  unfolding capAll_def
  by (intro cap3_nonneg) (auto simp: pref_ok_def dest: caps_okD)

lemma capAll_saturated: "capAll est lim p x < x \<Longrightarrow> saturated est lim p (capAll est lim p x)"
  using cap3_less [of "map_of est (clusterName p)" "map_of lim (clusterName p)" "MaxReplicas p" x]
  by (auto simp: capAll_def saturated_def)

lemma capAll_bounds:
  shows "MaxReplicas p = Some v \<Longrightarrow> capAll est lim p x \<le> v"
    and "map_of lim (clusterName p) = Some v \<Longrightarrow> capAll est lim p x \<le> v"
    and "map_of est (clusterName p) = Some v \<Longrightarrow> capAll est lim p x \<le> v"
  unfolding capAll_def by (simp_all add: cap3_bounds)

lemma plan_fits_in64: "plan_fits T W \<Longrightarrow> 0 \<le> x \<Longrightarrow> x \<le> 2 * T \<Longrightarrow> in64 x"
proof -
  assume f: "plan_fits T W" and x: "0 \<le> x" "x \<le> 2 * T"
  from f have "(T + 1) * 1 \<le> (T + 1) * (W + 1)"
    unfolding plan_fits_def by (intro mult_left_mono) auto
  also have "\<dots> < 2 ^ 62" using f by (simp add: plan_fits_def)
  finally have "x < 2 ^ 63" using x by simp
  with x(1) show "in64 x" by (rule in64I)
qed

lemma plan_fits_mul:
  assumes "plan_fits T W" and "0 \<le> D" "D \<le> T" and "0 \<le> w" "w \<le> V" "V \<le> W" "0 < V"
  shows "mul64 D w = D * w" and "div64 (sub64 (add64 (D * w) V) 1) V = ceilShare D V w"
proof -
  have dw: "0 \<le> D * w" "D * w \<le> T * W"
    using assms by (auto intro!: mult_mono)
  have "T * W + W \<le> (T + 1) * (W + 1)"
    using assms(1) by (simp add: plan_fits_def algebra_simps)
  also have "\<dots> < 2 ^ 63"
    using assms(1) by (simp add: plan_fits_def)
  finally have b: "T * W + W < 2 ^ 63" .
  then show "mul64 D w = D * w"
    using dw assms by (intro mul64_exact in64I) linarith+
  have "add64 (D * w) V = D * w + V"
    using dw b assms by (intro add64_exact in64I) linarith+
  moreover have "sub64 (D * w + V) 1 = D * w + V - 1"
    using dw b assms by (intro sub64_exact in64I) linarith+
  moreover have "div64 (D * w + V - 1) V = (D * w + V - 1) div V"
    using dw b assms by (intro div64_exact in64I) linarith+
  ultimately show "div64 (sub64 (add64 (D * w) V) 1) V = ceilShare D V w"
    by (simp add: ceilShare_def)
qed


section \<open>The minimum phase\<close>

text \<open>What one step does when nothing overflows: the amount \<open>minShare\<close> goes to the cluster.\<close>

lemma minStep_exact:
  assumes "pref_ok p" "caps_ok est" "caps_ok lim" "plan_fits T W" "0 \<le> remaining" "remaining \<le> T"
    and m: "m = minShare est lim p remaining"
  shows "minStep est lim p (remaining, plan, ov) =
      (remaining - m, mput (clusterName p) m plan, minOverflow est lim p remaining ov)"
    and "0 \<le> m" and "m \<le> remaining" and "m \<le> MinReplicas p"
proof -
  let ?n = "clusterName p"
  let ?m1 = "capTo (map_of lim ?n) (min (MinReplicas p) remaining)"
  have m1: "m \<le> ?m1" "?m1 \<le> min (MinReplicas p) remaining"
    unfolding m minShare_def by (rule capTo_le)+
  show m0: "0 \<le> m"
    using assms(1-3,5) by (auto simp: m minShare_def pref_ok_def intro!: capTo_nonneg dest: caps_okD)
  show mr: "m \<le> remaining" and "m \<le> MinReplicas p" using m1 by auto
  have s1: "sub64 remaining m = remaining - m"
    using m0 mr assms(4-6) by (intro sub64_exact plan_fits_in64) auto
  have s2: "sub64 ?m1 m = ?m1 - m"
    using m0 m1 assms(4-6) by (intro sub64_exact plan_fits_in64) auto
  show "minStep est lim p (remaining, plan, ov) =
      (remaining - m, mput ?n m plan, minOverflow est lim p remaining ov)"
    using s1 s2 mget_caps [of est ?n ?m1]
    by (auto simp: minStep_def minOverflow_def m minShare_def minInt64_min Let_def exceeds_capTo)
qed


section \<open>One pass of the distribution loop\<close>

lemma distStep_saturate:
  assumes "t2 = capTo (map_of lim (clusterName p)) (capTo (MaxReplicas p) x)"
  shows "exceeds (MaxReplicas p) x \<or> exceeds (map_of lim (clusterName p)) (capTo (MaxReplicas p) x) \<or>
      exceeds (map_of est (clusterName p)) t2 \<longleftrightarrow> capAll est lim p x < x"
proof -
  have "capTo (map_of est (clusterName p)) t2 \<le> t2"
    and "t2 \<le> capTo (MaxReplicas p) x" and "capTo (MaxReplicas p) x \<le> x"
    using assms by (simp_all add: capTo_le)
  then show ?thesis
    unfolding exceeds_capTo capAll_def cap3_def assms by linarith
qed

lemma ceilShare_nonneg: "0 \<le> D \<Longrightarrow> 0 < W \<Longrightarrow> 0 \<le> w \<Longrightarrow> 0 \<le> ceilShare D W w"
  unfolding ceilShare_def
  by (simp add: pos_imp_zdiv_nonneg_iff add_nonneg_pos)

text \<open>With the inputs in range a step computes in exact arithmetic, and keeps the total.\<close>

lemma distStep_exact:
  assumes "pref_ok p" "caps_ok est" "caps_ok lim" "plan_fits T W" "0 \<le> D" "D \<le> T"
    and "0 < V" "V \<le> W" "Weight p \<le> V"
    and "plan_inv ns T r plan" "distinct ns" "clusterName p \<in> set ns"
    and "0 \<le> mget 0 ov (clusterName p)" "mget 0 ov (clusterName p) \<le> T"
  shows "distStep est lim D V p (r, plan, ov, new, md) = distStepX est lim D V p (r, plan, ov, new, md)"
    and "distStepX est lim D V p (r, plan, ov, new, md) = (r', plan', ov', new', md') \<Longrightarrow>
         plan_inv ns T r' plan'"
proof -
  let ?n = "clusterName p"
  let ?s = "mget 0 plan ?n"
  let ?x = "?s + min (ceilShare D V (Weight p)) r"
  let ?t = "capAll est lim p ?x"
  let ?t2 = "capTo (map_of lim ?n) (capTo (MaxReplicas p) ?x)"
  have w: "0 \<le> Weight p" using assms(1) by (simp add: pref_ok_def)
  have s: "0 \<le> ?s" "?s + r \<le> T" and r: "0 \<le> r"
    using planTotal_bound [OF assms(10,12)] assms(10) by (auto simp: plan_inv_def)
  have c: "0 \<le> ceilShare D V (Weight p)"
    using assms w by (intro ceilShare_nonneg) auto
  have x: "0 \<le> ?x" "?x \<le> T" using s r c by auto
  have t: "0 \<le> ?t" "?t \<le> ?x" using assms x by (auto intro: capAll_nonneg capAll_le)
  have t2: "?t2 \<le> ?x" by (meson capTo_le order_trans)
  have t3: "?t \<le> ?t2" by (simp add: capAll_def cap3_def capTo_le)
  have fits: "in64 y" if "0 \<le> y" "y \<le> 2 * T" for y
    using that assms(4) by (rule_tac plan_fits_in64)
  have a1: "div64 (sub64 (add64 (mul64 D (Weight p)) V) 1) V = ceilShare D V (Weight p)"
    using plan_fits_mul [OF assms(4,5,6) w assms(9,8,7)] by simp
  have a2: "add64 ?s (min (ceilShare D V (Weight p)) r) = ?x"
    using x by (intro add64_exact fits) auto
  have a3: "sub64 ?t ?s = ?t - ?s"
    using t s x r assms(4) plan_fits_in64 [OF assms(4), of T]
    by (intro sub64_exact) (auto simp: in64_def)
  have a4: "sub64 r (?t - ?s) = r - (?t - ?s)"
    using t s x r by (intro sub64_exact fits) auto
  have a5: "add64 (mget 0 ov ?n) (sub64 ?t2 (mget 0 est ?n)) = mget 0 ov ?n + (?t2 - ?t)"
    if "exceeds (map_of est ?n) ?t2"
  proof -
    have e: "mget 0 est ?n = ?t" using mget_caps [OF that] by (simp add: capAll_def cap3_def)
    have "sub64 ?t2 ?t = ?t2 - ?t" using t t2 t3 x by (intro sub64_exact fits) auto
    moreover have "add64 (mget 0 ov ?n) (?t2 - ?t) = mget 0 ov ?n + (?t2 - ?t)"
      using t t2 t3 x assms by (intro add64_exact fits) auto
    ultimately show ?thesis by (simp add: e)
  qed
  have full: "exceeds (map_of est ?n) ?t2 \<longleftrightarrow> ?t < ?t2"
    by (simp add: exceeds_capTo capAll_def cap3_def)
  show "distStep est lim D V p (r, plan, ov, new, md) = distStepX est lim D V p (r, plan, ov, new, md)"
    using a3 a4 a5 full distStep_saturate [OF refl, of p ?x lim est]
    unfolding distStep_def distStepX_def Let_def split minInt64_min a1 a2
    by (auto simp: capAll_def cap3_def)
  assume "distStepX est lim D V p (r, plan, ov, new, md) = (r', plan', ov', new', md')"
  then show "plan_inv ns T r' plan'"
    using assms(10-12) t x s
    by (auto simp: distStepX_def Let_def plan_inv_def planTotal_mput list_all_iff mget_mput)
qed


text \<open>The whole pass in exact arithmetic.\<close>

lemma distPass_exact:
  assumes "caps_ok est" "caps_ok lim" "plan_fits T W" "0 \<le> D" "D \<le> T" "0 < V" "V \<le> W" "distinct ns"
    and "list_all pref_ok ps" "distinct (map clusterName ps)" "set (map clusterName ps) \<subseteq> set ns"
    and "\<forall>p \<in> set ps. Weight p \<le> V"
    and "\<forall>p \<in> set ps. 0 \<le> mget 0 ov (clusterName p) \<and> mget 0 ov (clusterName p) \<le> T"
    and "plan_inv ns T r plan"
  shows "fold (distStep est lim D V) ps (r, plan, ov, new, md) =
         fold (distStepX est lim D V) ps (r, plan, ov, new, md) \<and>
         (\<forall>r' plan' ov' new' md'.
            fold (distStepX est lim D V) ps (r, plan, ov, new, md) = (r', plan', ov', new', md') \<longrightarrow>
            plan_inv ns T r' plan')"
  using assms(9-14)
proof (induction ps arbitrary: r plan ov new md)
  case Nil
  then show ?case by simp
next
  case (Cons p ps)
  obtain r1 plan1 ov1 new1 md1
    where st: "distStepX est lim D V p (r, plan, ov, new, md) = (r1, plan1, ov1, new1, md1)"
    by (cases "distStepX est lim D V p (r, plan, ov, new, md)")
  have ex: "distStep est lim D V p (r, plan, ov, new, md) = (r1, plan1, ov1, new1, md1)"
    and inv: "plan_inv ns T r1 plan1"
    using distStep_exact [of p est lim T W D V ns r plan ov] Cons.prems assms(1-8) st by auto
  have "ov1 = ov \<or> (\<exists>v. ov1 = mput (clusterName p) v ov)"
    using st by (auto simp: distStepX_def Let_def split: if_splits)
  moreover have "clusterName q \<noteq> clusterName p" if "q \<in> set ps" for q
    using Cons.prems(2) that by (auto simp: image_iff)
  ultimately have "\<forall>q \<in> set ps. mget 0 ov1 (clusterName q) = mget 0 ov (clusterName q)"
    by (auto simp: mget_mput)
  with Cons.prems inv show ?case
    using Cons.IH [of ov1 r1 plan1 new1 md1] by (simp add: ex st)
qed


text \<open>
  What a pass does to each cluster, independently of the order in which the step meets them:
  the extra amounts \<open>e\<close> and their caps describe the result completely.
\<close>

lemma distPassX_spec:
  assumes "distinct (map clusterName ps)" "\<forall>p \<in> set ps. 0 \<le> Weight p" "0 \<le> D" "0 < V" "0 \<le> r"
    and "fold (distStepX est lim D V) ps (r, plan, ov, new, md) = (r', plan', ov', new', md')"
  shows "\<exists>e. passSpec est lim D V ps (r, plan, ov, new, md) (r', plan', ov', new', md') e"
  using assms
proof (induction ps arbitrary: r plan ov new md)
  case Nil
  then show ?case by (simp add: passSpec_def)
next
  case (Cons p ps)
  let ?n = "clusterName p"
  let ?c = "ceilShare D V (Weight p)"
  let ?x = "mget 0 plan ?n + min ?c r"
  let ?t = "capAll est lim p ?x"
  have other: "clusterName q \<noteq> ?n" "q \<noteq> p" if "q \<in> set ps" for q
    using Cons.prems(1) that by (auto simp: image_iff)
  have ?case if st: "distStepX est lim D V p (r, plan, ov, new, md) = (r1, plan1, ov1, new1, md1)"
    for r1 plan1 ov1 new1 md1
  proof -
    have r1: "r1 = r - (?t - mget 0 plan ?n)" and plan1: "plan1 = mput ?n ?t plan"
      and new1: "new1 = (if ?t < ?x then new else new @ [p])"
      and md1: "md1 = (md \<or> mget 0 plan ?n < ?t)"
      and ov1: "ov1 = (if ?t < capTo (map_of lim ?n) (capTo (MaxReplicas p) ?x)
           then mput ?n (mget 0 ov ?n + (capTo (map_of lim ?n) (capTo (MaxReplicas p) ?x) - ?t)) ov else ov)"
      using st by (auto simp: distStepX_def Let_def)
    have c: "0 \<le> ?c" using Cons.prems by (intro ceilShare_nonneg) auto
    have tx: "?t \<le> ?x" by (rule capAll_le)
    then have r0: "0 \<le> r1" using Cons.prems(5) c unfolding r1 by linarith
    have f1: "fold (distStepX est lim D V) ps (r1, plan1, ov1, new1, md1) = (r', plan', ov', new', md')"
      using Cons.prems(6) st by simp
    have "\<exists>e. passSpec est lim D V ps (r1, plan1, ov1, new1, md1) (r', plan', ov', new', md') e"
      using Cons.prems by (intro Cons.IH [OF _ _ _ _ r0 f1]) simp_all
    then obtain e where e: "passSpec est lim D V ps (r1, plan1, ov1, new1, md1) (r', plan', ov', new', md') e" ..
    let ?e = "e(p := min ?c r)"
    note e' = e [unfolded passSpec_def split]
    have pn: "?n \<notin> clusterName ` set ps" using Cons.prems(1) by simp
    have plan1_eq: "mget 0 plan1 (clusterName q) = mget 0 plan (clusterName q)"
        "map_of ov1 (clusterName q) = map_of ov (clusterName q)" if "q \<in> set ps" for q
      using other [OF that] by (simp_all add: plan1 ov1 gomap_simps)
    have n: "map_of plan' ?n = Some ?t" "map_of ov' ?n = overflowAfter est lim p ?x (map_of ov ?n)"
      using e' pn by (simp_all add: plan1 ov1 gomap_simps overflowAfter_def Let_def mget_def)
    then have nt: "mget 0 plan' ?n = ?t" by (simp add: mget_def)
    have E: "?e q = e q" if "q \<in> set ps" for q using other [OF that] by simp
    have 1: "\<forall>n. n \<notin> clusterName ` set (p # ps) \<longrightarrow>
        map_of plan' n = map_of plan n \<and> map_of ov' n = map_of ov n"
      using e' by (auto simp: plan1 ov1 gomap_simps)
    have 2: "\<forall>q \<in> set (p # ps). 0 \<le> ?e q \<and> ?e q \<le> ceilShare D V (Weight q) \<and>
        map_of plan' (clusterName q) = Some (capAll est lim q (mget 0 plan (clusterName q) + ?e q)) \<and>
        map_of ov' (clusterName q) = overflowAfter est lim q (mget 0 plan (clusterName q) + ?e q)
          (map_of ov (clusterName q))"
      using e' n c Cons.prems(5) E plan1_eq by (simp del: fun_upd_apply) simp
    have 3: "new' = new @ filter (\<lambda>q. mget 0 plan (clusterName q) + ?e q \<le> mget 0 plan' (clusterName q)) (p # ps)"
    proof -
      have "filter (\<lambda>q. mget 0 plan1 (clusterName q) + e q \<le> mget 0 plan' (clusterName q)) ps =
            filter (\<lambda>q. mget 0 plan (clusterName q) + ?e q \<le> mget 0 plan' (clusterName q)) ps"
        using E plan1_eq by (intro filter_cong) simp_all
      then show ?thesis using e' tx by (simp add: new1 nt)
    qed
    have 4: "md' \<longleftrightarrow> md \<or> (\<exists>q \<in> set (p # ps). mget 0 plan (clusterName q) < mget 0 plan' (clusterName q))"
      using e' plan1_eq nt by (auto simp: md1)
    have 5: "r' = max 0 (r - (\<Sum>q\<leftarrow>p # ps. ceilShare D V (Weight q)))"
      if a: "\<forall>q \<in> set (p # ps). mget 0 plan' (clusterName q) = mget 0 plan (clusterName q) + ?e q"
    proof -
      have "\<forall>q \<in> set ps. mget 0 plan' (clusterName q) = mget 0 plan1 (clusterName q) + e q"
        using a E plan1_eq by auto
      then have "r' = max 0 (r1 - (\<Sum>q\<leftarrow>ps. ceilShare D V (Weight q)))" using e' by blast
      moreover have "0 \<le> (\<Sum>q\<leftarrow>ps. ceilShare D V (Weight q))"
        using Cons.prems by (auto intro!: sum_list_nonneg ceilShare_nonneg)
      moreover have "r1 = r - min ?c r" using a nt r1 by simp
      ultimately show ?thesis using Cons.prems(5) by simp
    qed
    have 6: "\<forall>q \<in> set (p # ps). 0 < ceilShare D V (Weight q) \<longrightarrow> 0 < ?e q"
      if "0 < r" and a: "\<forall>q \<in> set (p # ps). mget 0 plan' (clusterName q) \<le> mget 0 plan (clusterName q)"
    proof -
      have "0 < r1" using that nt r1 by simp
      moreover have "\<forall>q \<in> set ps. mget 0 plan' (clusterName q) \<le> mget 0 plan1 (clusterName q)"
        using a plan1_eq by auto
      ultimately have "\<forall>q \<in> set ps. 0 < ceilShare D V (Weight q) \<longrightarrow> 0 < e q" using e' by blast
      with that(1) show ?thesis using E by auto
    qed
    have "passSpec est lim D V (p # ps) (r, plan, ov, new, md) (r', plan', ov', new', md') ?e"
      unfolding passSpec_def split using e' 1 2 3 4 5 6 by blast
    then show ?thesis by blast
  qed
  then show ?case
    by (cases "distStepX est lim D V p (r, plan, ov, new, md)") blast
qed


lemma distPassX_keys:
  assumes "set (map clusterName ps) \<subseteq> set (mkeys plan)" "wf_map ov"
    and "fold (distStepX est lim D V) ps (r, plan, ov, new, md) = (r', plan', ov', new', md')"
  shows "mkeys plan' = mkeys plan \<and> wf_map ov'"
  using assms
proof (induction ps arbitrary: r plan ov new md)
  case Nil
  then show ?case by simp
next
  case (Cons p ps)
  obtain r1 plan1 ov1 new1 md1
    where st: "distStepX est lim D V p (r, plan, ov, new, md) = (r1, plan1, ov1, new1, md1)"
    by (cases "distStepX est lim D V p (r, plan, ov, new, md)")
  then have "mkeys plan1 = mkeys plan" "wf_map ov1"
    using Cons.prems(1,2) by (auto simp: distStepX_def Let_def mkeys_mput_in split: if_splits)
  with Cons.prems st show ?case
    using Cons.IH [of plan1 ov1 r1 new1 md1] by simp
qed


section \<open>The distribution loop\<close>

lemma capAll_idem: "capAll est lim p (capAll est lim p x) = capAll est lim p x"
  by (simp add: capAll_def cap3_idem)

lemma overflowAfter_cases:
  "overflowAfter est lim p x old = Some v \<Longrightarrow>
     (capAll est lim p x < x \<and> map_of est (clusterName p) = Some (capAll est lim p x) \<and>
      (case old of None \<Rightarrow> 0 | Some u \<Rightarrow> u) < v) \<or> old = Some v"
  by (auto simp: overflowAfter_def Let_def capAll_def cap3_def capTo_def split: option.splits if_splits)

lemma overflowAfter_id: "x \<le> capAll est lim p x \<Longrightarrow> overflowAfter est lim p x old = old"
  by (auto simp: overflowAfter_def Let_def capAll_def cap3_def capTo_def split: option.splits if_splits)

lemma ceilShare_sum:
  assumes "0 < V" "V = total_weight ps"
  shows "D \<le> (\<Sum>p\<leftarrow>ps. ceilShare D V (Weight p))"
proof -
  have "D * Weight p \<le> ceilShare D V (Weight p) * V" for p :: "'a ClusterPreferences_scheme"
    using ceil_div_bounds(1) [OF assms(1)] by (simp add: ceilShare_def)
  then have "(\<Sum>p\<leftarrow>ps. D * Weight p) \<le> (\<Sum>p\<leftarrow>ps. ceilShare D V (Weight p) * V)"
    by (intro sum_list_mono)
  then have "D * V \<le> (\<Sum>p\<leftarrow>ps. ceilShare D V (Weight p)) * V"
    by (simp add: assms(2) total_weight_def sum_list_const_mult sum_list_mult_const)
  then show ?thesis using assms(1) by simp
qed

lemma ceilShare_pos: "0 < D \<Longrightarrow> 0 < V \<Longrightarrow> 0 < w \<Longrightarrow> 0 < ceilShare D V w"
  unfolding ceilShare_def by (simp add: pos_imp_zdiv_pos_iff add_pos_nonneg zero_less_mult_iff)

lemma total_weight_filter: "list_all pref_ok ps \<Longrightarrow> total_weight (filter P ps) \<le> total_weight ps"
  by (induction ps) (auto simp: total_weight_def pref_ok_def)

lemma weight_le_total: "list_all pref_ok ps \<Longrightarrow> p \<in> set ps \<Longrightarrow> Weight p \<le> total_weight ps"
  unfolding total_weight_def
  by (intro member_le_sum_list) (auto simp: list_all_iff pref_ok_def)

text \<open>The ingredients of a pass started in an invariant state.\<close>

lemma loop_pass_spec:
  assumes inv: "loopInv est lim ns T W ps0 plan0 ps r plan ov"
    and ok: "caps_ok est" "caps_ok lim" "plan_fits T W" "distinct ns" "clusterName ` set ps0 \<subseteq> set ns"
    and r: "0 < r" and V: "0 < total_weight ps"
    and fold: "fold (distStep est lim r (total_weight ps)) ps (r, plan, ov, [], False) =
      (r', plan', ov', new, md')"
  shows "plan_inv ns T r' plan'" and "mkeys plan' = ns" and "wf_map ov'"
    and "\<exists>e. passSpec est lim r (total_weight ps) ps (r, plan, ov, [], False) (r', plan', ov', new, md') e"
proof -
  note I = inv [unfolded loopInv_def]
  have ps: "list_all pref_ok ps" "distinct (map clusterName ps)" "set (map clusterName ps) \<subseteq> set ns"
    using I ok(5) by (auto simp: prefs_ok_def)
  have rT: "0 \<le> r" "r \<le> T"
    using I by (auto simp: plan_inv_def planTotal_def list_all_iff intro!: sum_list_nonneg)
  have w: "\<forall>p \<in> set ps. Weight p \<le> total_weight ps" "\<forall>p \<in> set ps. 0 \<le> Weight p"
    using ps(1) by (auto simp: weight_le_total list_all_iff pref_ok_def)
  note P = distPass_exact [OF ok(1-3) rT V _ ok(4) ps w(1), of ov r plan "[]" False]
  have F: "fold (distStepX est lim r (total_weight ps)) ps (r, plan, ov, [], False) =
      (r', plan', ov', new, md')"
    using P I fold by simp
  then show "plan_inv ns T r' plan'"
    using P I by blast
  show "mkeys plan' = ns" "wf_map ov'"
    using distPassX_keys [OF _ _ F] I ps(3) by auto
  show "\<exists>e. passSpec est lim r (total_weight ps) ps (r, plan, ov, [], False) (r', plan', ov', new, md') e"
    using F by (rule distPassX_spec [OF ps(2) w(2) rT(1) V rT(1)])
qed

lemma names_inj: "prefs_ok ps0 \<Longrightarrow> p \<in> set ps0 \<Longrightarrow> set ps \<subseteq> set ps0 \<Longrightarrow> p \<notin> set ps \<Longrightarrow>
   clusterName p \<notin> clusterName ` set ps"
  by (auto simp: prefs_ok_def distinct_map inj_on_def)

lemma loop_pass:
  assumes inv: "loopInv est lim ns T W ps0 plan0 ps r plan ov"
    and ok: "prefs_ok ps0" "caps_ok est" "caps_ok lim" "plan_fits T W" "distinct ns"
      "clusterName ` set ps0 \<subseteq> set ns"
    and r: "0 < r" and V: "0 < total_weight ps"
    and fold: "fold (distStep est lim r (total_weight ps)) ps (r, plan, ov, [], False) =
      (r', plan', ov', new, md')"
  shows "loopInv est lim ns T W ps0 plan0 new r' plan' ov'"
    and "length new < length ps \<or> r' = 0"
    and "md' \<or> settled est lim ps0 plan'"
proof -
  note I = inv [unfolded loopInv_def]
  note L = loop_pass_spec [OF inv ok(2-6) r V fold]
  obtain e where e: "passSpec est lim r (total_weight ps) ps (r, plan, ov, [], False) (r', plan', ov', new, md') e"
    using L(4) ..
  note E = e [unfolded passSpec_def split]
  let ?a = "\<lambda>p. mget 0 plan (clusterName p)"
  let ?b = "\<lambda>p. mget 0 plan' (clusterName p)"
  have b: "?b p = capAll est lim p (?a p + e p)" "0 \<le> e p"
      "map_of ov' (clusterName p) = overflowAfter est lim p (?a p + e p) (map_of ov (clusterName p))"
    if "p \<in> set ps" for p
    using E that by (auto simp: mget_def)
  have same: "?b p = ?a p" "map_of ov' (clusterName p) = map_of ov (clusterName p)"
    if "p \<in> set ps0" "p \<notin> set ps" for p
    using names_inj [OF ok(1) that(1) _ that(2)] I E by (auto simp: mget_def)
  have new: "new = filter (\<lambda>p. ?a p + e p \<le> ?b p) ps" using E by simp
  have newD: "p \<in> set ps" "?a p + e p \<le> ?b p" if "p \<in> set new" for p using that new by auto
  have full: "saturated est lim p (?b p)" if "p \<in> set ps" "p \<notin> set new" for p
    using that new b [OF that(1)] capAll_saturated [of est lim p "?a p + e p"] by auto
  have sub: "set new \<subseteq> set ps0" "prefs_ok new" "total_weight new \<le> W"
    using I total_weight_filter [of ps] new
    by (auto simp: prefs_ok_def list_all_iff distinct_map inj_on_def intro: order_trans)
  have sat: "p \<in> set new \<or> saturated est lim p (?b p)" if "p \<in> set ps0" for p
    using that full same [OF that] I by (cases "p \<in> set ps") auto
  have keep: "capAll est lim p (?b p) = ?b p \<and> ?a p \<le> ?b p" if "p \<in> set ps0" "min_le_max p" for p
  proof (cases "p \<in> set ps")
    case True
    have "capAll est lim p (?a p) = ?a p" using I that by blast
    then show ?thesis
      using b [OF True] capAll_idem capAll_mono [of "?a p" "?a p + e p" est lim p] by simp
  next
    case False
    then show ?thesis using I that same [OF that(1) False] by simp
  qed
  have range: "0 \<le> mget 0 ov' (clusterName p) \<and> mget 0 ov' (clusterName p) \<le> T" if "p \<in> set new" for p
    using newD [OF that] b [OF newD(1) [OF that]] I overflowAfter_id [of "?a p + e p" est lim p]
    by (simp add: mget_def)
  have over: "0 < v \<and> (min_le_max p \<longrightarrow> map_of est (clusterName p) = Some (?b p))"
    if "p \<in> set ps0" "map_of ov' (clusterName p) = Some v" for p v
  proof (cases "p \<in> set ps")
    case True
    then have "capAll est lim p (?a p + e p) < ?a p + e p \<and> map_of est (clusterName p) = Some (?b p) \<and>
        (case map_of ov (clusterName p) of None \<Rightarrow> 0 | Some u \<Rightarrow> u) < v \<or> map_of ov (clusterName p) = Some v"
      using overflowAfter_cases that b by metis
    moreover have "0 < u \<and> (min_le_max p \<longrightarrow> map_of est (clusterName p) = Some (?a p))"
      if "map_of ov (clusterName p) = Some u" for u
      using I \<open>p \<in> set ps0\<close> that by blast
    moreover have "?b p = ?a p" if "min_le_max p" "map_of est (clusterName p) = Some (?a p)"
      using keep [OF \<open>p \<in> set ps0\<close> that(1)] b(1) [OF True] capAll_bounds(3) [OF that(2)]
      by (simp add: order_antisym)
    ultimately show ?thesis by (fastforce split: option.splits)
  next
    case False
    then show ?thesis using I that same [OF that(1) False] by simp
  qed
  show "loopInv est lim ns T W ps0 plan0 new r' plan' ov'"
    unfolding loopInv_def
    using L(1-3) sub sat keep range over I by (meson order_trans)
  show "length new < length ps \<or> r' = 0"
  proof (cases "\<forall>p \<in> set ps. ?b p = ?a p + e p")
    case True
    then have "r' = max 0 (r - (\<Sum>p\<leftarrow>ps. ceilShare r (total_weight ps) (Weight p)))" using E by blast
    then show ?thesis using ceilShare_sum [OF V refl, of r] by simp
  next
    case False
    then obtain p where "p \<in> set ps" "?b p < ?a p + e p"
      using b capAll_le [of est lim] by (metis order_less_le)
    then show ?thesis unfolding new by (auto intro!: length_filter_less)
  qed
  show "md' \<or> settled est lim ps0 plan'"
  proof (rule disjCI)
    assume "\<not> settled est lim ps0 plan'"
    then obtain p where p: "p \<in> set ps0" "0 < Weight p" "\<not> saturated est lim p (?b p)"
      by (auto simp: settled_def list_all_iff)
    then have "p \<in> set new" using sat by blast
    then have "\<not> (0 < e p \<and> ?b p \<le> ?a p)" "p \<in> set ps" using newD by force+
    with p(2) have "\<not> (\<forall>p \<in> set ps. ?b p \<le> ?a p)"
      using E r ceilShare_pos [OF r V p(2)] by blast
    then show md' using E by force
  qed
qed


lemma total_weight_zero:
  "list_all pref_ok ps \<Longrightarrow> total_weight ps \<le> 0 \<Longrightarrow> p \<in> set ps \<Longrightarrow> Weight p \<le> 0"
  using weight_le_total [of ps p] by simp

lemma sum64_weights:
  assumes "list_all pref_ok ps" "total_weight ps \<le> W" "plan_fits T W"
  shows "sum64 (map Weight ps) = total_weight ps"
proof -
  have "0 \<le> total_weight ps"
    using assms(1) by (auto simp: total_weight_def list_all_iff pref_ok_def intro!: sum_list_nonneg)
  moreover have "W < 2 ^ 63"
  proof -
    have "1 * (W + 1) \<le> (T + 1) * (W + 1)"
      using assms(3) by (intro mult_right_mono) (auto simp: plan_fits_def)
    also have "\<dots> < 2 ^ 62" using assms(3) by (simp add: plan_fits_def)
    finally show ?thesis by simp
  qed
  ultimately have "in64 (total_weight ps)"
    using assms(2) by (intro in64I) linarith+
  then show ?thesis
    using assms(1) unfolding total_weight_def
    by (intro sum64_exact) (auto simp: list_all_iff pref_ok_def)
qed

text \<open>The loop returns, with the invariant, and stops only when nothing is left or nothing fits.\<close>

lemma distLoop_correct:
  assumes "loopInv est lim ns T W ps0 plan0 ps r plan ov"
    and ok: "prefs_ok ps0" "caps_ok est" "caps_ok lim" "plan_fits T W" "distinct ns"
      "clusterName ` set ps0 \<subseteq> set ns"
    and "md \<or> settled est lim ps0 plan"
  shows "\<exists>ps' r' plan' ov'. distLoop est lim ps md r plan ov = Some (r', plan', ov') \<and>
      loopInv est lim ns T W ps0 plan0 ps' r' plan' ov' \<and> (r' = 0 \<or> settled est lim ps0 plan')"
  using assms(1,8)
proof (induction "length ps" arbitrary: ps r plan ov md rule: less_induct)
  case less
  note I = less.prems(1) [unfolded loopInv_def]
  have r0: "0 \<le> r" using I by (simp add: plan_inv_def)
  have ok_ps: "list_all pref_ok ps" using I by (simp add: prefs_ok_def)
  have W: "sum64 (map Weight ps) = total_weight ps"
    using sum64_weights [OF ok_ps _ ok(4)] I by blast
  consider (exit) "\<not> (md \<and> 0 < r)" | (weightless) "md" "0 < r" "total_weight ps \<le> 0"
    | (pass) "md" "0 < r" "0 < total_weight ps"
    by linarith
  then show ?case
  proof cases
    case exit
    with less.prems r0 show ?thesis by (subst distLoop.simps) auto
  next
    case weightless
    have "settled est lim ps0 plan"
      using I total_weight_zero [OF ok_ps weightless(3)] by (force simp: settled_def list_all_iff)
    with weightless less.prems W show ?thesis by (subst distLoop.simps) auto
  next
    case pass
    obtain r1 plan1 ov1 new md1 where f:
      "fold (distStep est lim r (total_weight ps)) ps (r, plan, ov, [], False) = (r1, plan1, ov1, new, md1)"
      by (cases "fold (distStep est lim r (total_weight ps)) ps (r, plan, ov, [], False)")
    note P = loop_pass [OF less.prems(1) ok pass(2,3) f]
    have step: "distLoop est lim ps md r plan ov = distLoop est lim new md1 r1 plan1 ov1"
      using pass W f by (subst distLoop.simps) simp
    show ?thesis
    proof (cases "r1 = 0")
      case True
      then have "distLoop est lim new md1 r1 plan1 ov1 = Some (r1, plan1, ov1)"
        by (subst distLoop.simps) simp
      then show ?thesis using True P(1) step by auto
    next
      case False
      then show ?thesis using less.hyps [OF _ P(1) P(3)] P(2) step by simp
    qed
  qed
qed


section \<open>The minimum phase establishes the invariant\<close>

lemma minPhase_run:
  assumes "caps_ok est" "caps_ok lim" "plan_fits T W" "distinct ns"
    and "list_all pref_ok ps" "distinct (map clusterName ps)" "set (map clusterName ps) \<subseteq> set ns"
    and "plan_inv ns T r plan" "wf_map ov"
    and "set (map clusterName ps) \<inter> set (mkeys plan) = {}"
  shows "\<exists>r' plan' ov'. fold (minStep est lim) ps (r, plan, ov) = (r', plan', ov') \<and>
      plan_inv ns T r' plan' \<and> mkeys plan' = mkeys plan @ map clusterName ps \<and> wf_map ov' \<and>
      (\<forall>n. n \<notin> clusterName ` set ps \<longrightarrow>
         mget 0 plan' n = mget 0 plan n \<and> map_of ov' n = map_of ov n) \<and>
      (\<forall>p \<in> set ps. \<exists>x. 0 \<le> x \<and> x \<le> T \<and>
         mget 0 plan' (clusterName p) = minShare est lim p x \<and>
         (sum_list (map MinReplicas ps) \<le> r \<longrightarrow> MinReplicas p \<le> x) \<and>
         map_of ov' (clusterName p) = map_of (minOverflow est lim p x ov) (clusterName p))"
  using assms(5-10)
proof (induction ps arbitrary: r plan ov)
  case Nil
  then show ?case by simp
next
  case (Cons p ps)
  let ?n = "clusterName p"
  let ?m = "minShare est lim p r"
  let ?ov = "minOverflow est lim p r ov"
  have p: "pref_ok p" "?n \<in> set ns" "?n \<notin> set (mkeys plan)" using Cons.prems by auto
  have r: "0 \<le> r" "r \<le> T"
    using Cons.prems(4) by (auto simp: plan_inv_def planTotal_def list_all_iff intro!: sum_list_nonneg)
  note M = minStep_exact [OF p(1) assms(1-3) r refl]
  have "plan_inv ns T (r - ?m) (mput ?n ?m plan)"
    using M(2,3) Cons.prems(4) p(2,3) assms(4)
    by (auto simp: plan_inv_def planTotal_mput list_all_iff mget_mput mget_notin)
  moreover have "set (map clusterName ps) \<inter> set (mkeys (mput ?n ?m plan)) = {}"
    using Cons.prems by (auto simp: set_mkeys_mput)
  moreover have "wf_map ?ov" using Cons.prems(5) by (simp add: minOverflow_def Let_def)
  ultimately obtain r' plan' ov' where F: "fold (minStep est lim) ps (r - ?m, mput ?n ?m plan, ?ov) = (r', plan', ov')"
    "plan_inv ns T r' plan'" "mkeys plan' = mkeys (mput ?n ?m plan) @ map clusterName ps" "wf_map ov'"
    and frame: "\<forall>n. n \<notin> clusterName ` set ps \<longrightarrow>
         mget 0 plan' n = mget 0 (mput ?n ?m plan) n \<and> map_of ov' n = map_of ?ov n"
    and each: "\<forall>q \<in> set ps. \<exists>x. 0 \<le> x \<and> x \<le> T \<and> mget 0 plan' (clusterName q) = minShare est lim q x \<and>
         (sum_list (map MinReplicas ps) \<le> r - ?m \<longrightarrow> MinReplicas q \<le> x) \<and>
         map_of ov' (clusterName q) = map_of (minOverflow est lim q x ?ov) (clusterName q)"
    using Cons.IH [of "r - ?m" "mput ?n ?m plan" ?ov] Cons.prems by auto
  have "\<exists>x. 0 \<le> x \<and> x \<le> T \<and> mget 0 plan' (clusterName q) = minShare est lim q x \<and>
         (sum_list (map MinReplicas (p # ps)) \<le> r \<longrightarrow> MinReplicas q \<le> x) \<and>
         map_of ov' (clusterName q) = map_of (minOverflow est lim q x ov) (clusterName q)"
    if q: "q \<in> set (p # ps)" for q
  proof (cases "q = p")
    case True
    have "0 \<le> sum_list (map MinReplicas ps)"
      using Cons.prems(1) by (auto simp: list_all_iff pref_ok_def intro!: sum_list_nonneg)
    then show ?thesis
      using r frame Cons.prems(2) by (intro exI [of _ r]) (auto simp: True mget_mput)
  next
    case False
    then have qs: "q \<in> set ps" "clusterName q \<noteq> ?n" using q Cons.prems(2) by (auto simp: image_iff)
    then have "map_of ?ov (clusterName q) = map_of ov (clusterName q)"
      by (simp add: minOverflow_def Let_def map_of_mput)
    then have "map_of (minOverflow est lim q x ?ov) (clusterName q) =
        map_of (minOverflow est lim q x ov) (clusterName q)" for x
      by (simp add: minOverflow_def [of est lim q] Let_def map_of_mput)
    then show ?thesis using each qs(1) M(4) by fastforce
  qed
  moreover have "\<forall>n. n \<notin> clusterName ` set (p # ps) \<longrightarrow>
      mget 0 plan' n = mget 0 plan n \<and> map_of ov' n = map_of ov n"
    using frame by (auto simp: mget_mput minOverflow_def Let_def map_of_mput)
  ultimately show ?case
    using F M(1) p(3) by (simp add: mkeys_mput_fresh)
qed


lemma minShare_capAll:
  assumes "min_le_max p"
  shows "capAll est lim p (minShare est lim p x) = minShare est lim p x"
  using assms
  by (auto simp: min_le_max_def minShare_def capAll_def cap3_def capTo_def split: option.splits)

lemma minOverflow_some:
  assumes "map_of (minOverflow est lim p x []) (clusterName p) = Some v" "pref_ok p" "caps_ok est" "caps_ok lim"
    "0 \<le> x" "x \<le> T"
  shows "0 < v \<and> v \<le> T \<and> map_of est (clusterName p) = Some (minShare est lim p x)"
proof -
  let ?m1 = "capTo (map_of lim (clusterName p)) (min (MinReplicas p) x)"
  have v: "minShare est lim p x < ?m1" "v = ?m1 - minShare est lim p x"
    using assms(1) by (auto simp: minOverflow_def Let_def gomap_simps split: if_splits)
  moreover have "?m1 \<le> x" using capTo_le [of "map_of lim (clusterName p)" "min (MinReplicas p) x"] by simp
  moreover have "0 \<le> minShare est lim p x"
    using assms unfolding minShare_def
    by (intro capTo_nonneg) (auto simp: pref_ok_def dest: caps_okD)
  moreover have "map_of est (clusterName p) = Some (minShare est lim p x)"
    using v(1) by (auto simp: minShare_def capTo_def split: option.splits if_splits)
  ultimately show ?thesis using assms(6) by auto
qed

lemma minPhase_loopInv:
  assumes "prefs_ok ps" "caps_ok est" "caps_ok lim" "plan_fits T W" "total_weight ps \<le> W"
  shows "\<exists>r plan ov. fold (minStep est lim) ps (T, [], []) = (r, plan, ov) \<and>
      loopInv est lim (map clusterName ps) T W ps plan ps r plan ov \<and>
      (sum_list (map MinReplicas ps) \<le> T \<longrightarrow>
        (\<forall>p \<in> set ps. mget 0 plan (clusterName p) =
           capTo (map_of est (clusterName p)) (capTo (map_of lim (clusterName p)) (MinReplicas p))))"
proof -
  let ?ns = "map clusterName ps"
  have T: "0 \<le> T" using assms(4) by (simp add: plan_fits_def)
  have "plan_inv ?ns T T []" using T by (simp add: plan_inv_def planTotal_def list_all_iff comp_def)
  then obtain r plan ov where F: "fold (minStep est lim) ps (T, [], []) = (r, plan, ov)"
      "plan_inv ?ns T r plan" "mkeys plan = ?ns" "wf_map ov"
    and each: "\<forall>p \<in> set ps. \<exists>x. 0 \<le> x \<and> x \<le> T \<and>
         mget 0 plan (clusterName p) = minShare est lim p x \<and>
         (sum_list (map MinReplicas ps) \<le> T \<longrightarrow> MinReplicas p \<le> x) \<and>
         map_of ov (clusterName p) = map_of (minOverflow est lim p x []) (clusterName p)"
    using minPhase_run [OF assms(2-4), of ?ns ps T "[]" "[]"] assms(1) by (auto simp: prefs_ok_def)
  have sum: "capAll est lim p (mget 0 plan (clusterName p)) = mget 0 plan (clusterName p)"
    if "p \<in> set ps" "min_le_max p" for p
    using each that(1) minShare_capAll [OF that(2), of est lim] by metis
  have ov: "0 < v \<and> v \<le> T \<and> map_of est (clusterName p) = Some (mget 0 plan (clusterName p))"
    if "p \<in> set ps" "map_of ov (clusterName p) = Some v" for p v
  proof -
    have "pref_ok p" using assms(1) that(1) by (simp add: prefs_ok_def list_all_iff)
    then show ?thesis
      using each that minOverflow_some [of est lim p _ v T] assms(2,3) by metis
  qed
  then have "\<forall>p \<in> set ps. 0 \<le> mget 0 ov (clusterName p) \<and> mget 0 ov (clusterName p) \<le> T"
    using T by (force simp: mget_def split: option.splits)
  then have "loopInv est lim ?ns T W ps plan ps r plan ov"
    unfolding loopInv_def using F assms(1,5) sum ov by blast
  moreover have "\<forall>p \<in> set ps. mget 0 plan (clusterName p) =
      capTo (map_of est (clusterName p)) (capTo (map_of lim (clusterName p)) (MinReplicas p))"
    if "sum_list (map MinReplicas ps) \<le> T"
    using each that by (fastforce simp: minShare_def)
  ultimately show ?thesis using F(1) by blast
qed


section \<open>The desired plan\<close>

lemma getDesiredPlan_loopInv:
  assumes "prefs_ok ps" "caps_ok est" "caps_ok lim" "plan_fits T (total_weight ps)"
  shows "\<exists>plan0 ps' r plan ov.
      getDesiredPlan ps est lim T keep = Some (plan, if keep then ov else trimOverflow r ov) \<and>
      loopInv est lim (map clusterName ps) T (total_weight ps) ps plan0 ps' r plan ov \<and>
      (r = 0 \<or> settled est lim ps plan) \<and>
      (sum_list (map MinReplicas ps) \<le> T \<longrightarrow>
        (\<forall>p \<in> set ps. mget 0 plan0 (clusterName p) =
           capTo (map_of est (clusterName p)) (capTo (map_of lim (clusterName p)) (MinReplicas p))))"
proof -
  let ?ns = "map clusterName ps"
  obtain r0 plan0 ov0 where M: "fold (minStep est lim) ps (T, [], []) = (r0, plan0, ov0)"
      "loopInv est lim ?ns T (total_weight ps) ps plan0 ps r0 plan0 ov0"
      "sum_list (map MinReplicas ps) \<le> T \<longrightarrow>
        (\<forall>p \<in> set ps. mget 0 plan0 (clusterName p) =
           capTo (map_of est (clusterName p)) (capTo (map_of lim (clusterName p)) (MinReplicas p)))"
    using minPhase_loopInv [OF assms order_refl] by blast
  have "distinct ?ns" "clusterName ` set ps \<subseteq> set ?ns" using assms(1) by (auto simp: prefs_ok_def)
  then obtain ps' r plan ov where L: "distLoop est lim ps True r0 plan0 ov0 = Some (r, plan, ov)"
      "loopInv est lim ?ns T (total_weight ps) ps plan0 ps' r plan ov" "r = 0 \<or> settled est lim ps plan"
    using distLoop_correct [OF M(2) assms, of True] by blast
  then have "getDesiredPlan ps est lim T keep = Some (plan, if keep then ov else trimOverflow r ov)"
    by (simp add: getDesiredPlan_def M(1))
  then show ?thesis using L M(3) by blast
qed


section \<open>Scaling by gaps\<close>

text \<open>
  \<open>scaleUp\<close> and \<open>scaleDown\<close> call \<open>getDesiredPlan\<close> with the gaps as weights.  When the count does
  not exceed the sum of the gaps no share exceeds its gap, so no cluster overshoots.
\<close>

lemma plan_fits_mono:
  assumes "plan_fits T W" "0 \<le> T'" "T' \<le> T" "0 \<le> W'" "W' \<le> W"
  shows "plan_fits T' W'"
proof -
  have "(T' + 1) * (W' + 1) \<le> (T + 1) * (W + 1)"
    using assms by (intro mult_mono) (auto simp: plan_fits_def)
  with assms show ?thesis unfolding plan_fits_def by linarith
qed

lemma ceilShare_le: "0 < V \<Longrightarrow> 0 \<le> w \<Longrightarrow> D \<le> V \<Longrightarrow> ceilShare D V w \<le> w"
proof -
  assume V: "0 < V" and "0 \<le> w" "D \<le> V"
  then have "D * w \<le> V * w" by (simp add: mult_right_mono)
  then have "D * w + V - 1 \<le> (V - 1) + w * V" by (simp add: algebra_simps)
  then have "ceilShare D V w \<le> ((V - 1) + w * V) div V"
    unfolding ceilShare_def using V by (intro zdiv_mono1) auto
  then show "ceilShare D V w \<le> w" using V by simp
qed

lemma getDesiredPlan_gaps:
  assumes ok: "prefs_ok ps" "plan_fits T (total_weight ps)"
    and zero: "\<forall>p \<in> set ps. MinReplicas p = 0"
    and max: "\<forall>p \<in> set ps. \<forall>m. MaxReplicas p = Some m \<longrightarrow> Weight p \<le> m"
    and T: "T \<le> total_weight ps"
  shows "\<exists>plan ov. getDesiredPlan ps [] [] T False = Some (plan, ov) \<and>
      mkeys plan = map clusterName ps \<and> planTotal (map clusterName ps) plan = T \<and>
      (\<forall>p \<in> set ps. 0 \<le> mget 0 plan (clusterName p) \<and> mget 0 plan (clusterName p) \<le> Weight p)"
proof -
  let ?ns = "map clusterName ps"
  let ?W = "total_weight ps"
  have caps: "caps_ok []" by (simp add: caps_ok_def)
  have T0: "0 \<le> T" using ok(2) by (simp add: plan_fits_def)
  have w: "0 \<le> Weight p" if "p \<in> set ps" for p
    using ok(1) that by (auto simp: prefs_ok_def list_all_iff pref_ok_def)
  have ns: "distinct ?ns" "clusterName ` set ps \<subseteq> set ?ns" using ok(1) by (auto simp: prefs_ok_def)
  have sumMin: "sum_list (map MinReplicas ps) \<le> T"
    using zero T0 by (simp cong: map_cong)
  obtain r0 plan0 ov0 where M: "fold (minStep [] []) ps (T, [], []) = (r0, plan0, ov0)"
      "loopInv [] [] ?ns T ?W ps plan0 ps r0 plan0 ov0"
      "\<forall>p \<in> set ps. mget 0 plan0 (clusterName p) = 0"
    using minPhase_loopInv [OF ok(1) caps caps ok(2) order_refl] sumMin zero
    by (auto simp: capTo_def)
  note I0 = M(2) [unfolded loopInv_def]
  have "planTotal ?ns plan0 = 0" using M(3) by (simp add: planTotal_def comp_def cong: map_cong)
  then have r0: "r0 = T" using I0 by (simp add: plan_inv_def)
  have sum: "sum64 (map Weight ps) = ?W"
    using sum64_weights [OF _ order_refl ok(2)] ok(1) by (simp add: prefs_ok_def)
  show ?thesis
  proof (cases "T = 0")
    case True
    then have "distLoop [] [] ps True r0 plan0 ov0 = Some (r0, plan0, ov0)"
      by (subst distLoop.simps) (simp add: r0)
    then have "getDesiredPlan ps [] [] T False = Some (plan0, trimOverflow r0 ov0)"
      by (simp add: getDesiredPlan_def M(1))
    then show ?thesis using I0 M(3) w True r0 by (auto simp: plan_inv_def)
  next
    case False
    then have Tp: "0 < T" "0 < r0" using T0 r0 by auto
    have V: "0 < ?W" using T Tp by linarith
    obtain r plan ov new md where f:
      "fold (distStep [] [] r0 ?W) ps (r0, plan0, ov0, [], False) = (r, plan, ov, new, md)"
      by (cases "fold (distStep [] [] r0 ?W) ps (r0, plan0, ov0, [], False)")
    note L = loop_pass_spec [OF M(2) caps caps ok(2) ns Tp(2) V f]
    obtain e where E: "passSpec [] [] r0 ?W ps (r0, plan0, ov0, [], False) (r, plan, ov, new, md) e"
      using L(4) ..
    have e: "0 \<le> e p" "e p \<le> Weight p" "mget 0 plan (clusterName p) = e p" if p: "p \<in> set ps" for p
    proof -
      have b: "0 \<le> e p" "e p \<le> ceilShare r0 ?W (Weight p)"
          "map_of plan (clusterName p) = Some (capAll [] [] p (e p))"
        using E p M(3) by (auto simp: passSpec_def)
      then show "0 \<le> e p" "e p \<le> Weight p"
        using ceilShare_le [OF V w [OF p] T] r0 by auto
      moreover have "capAll [] [] p (e p) = e p"
        using max p \<open>e p \<le> Weight p\<close> by (force simp: capAll_def cap3_def capTo_def split: option.splits)
      ultimately show "mget 0 plan (clusterName p) = e p" using b by (simp add: mget_def)
    qed
    have "r = max 0 (r0 - (\<Sum>p\<leftarrow>ps. ceilShare r0 ?W (Weight p)))"
      using E e M(3) by (simp add: passSpec_def)
    then have "r = 0" using ceilShare_sum [OF V refl, of r0] by simp
    then have "distLoop [] [] ps True r0 plan0 ov0 = Some (r, plan, ov)"
      using Tp V sum f distLoop.simps [of "[]" "[]" new md] by (subst distLoop.simps) simp
    then have "getDesiredPlan ps [] [] T False = Some (plan, trimOverflow r ov)"
      by (simp add: getDesiredPlan_def M(1))
    then show ?thesis using L(1,2) e \<open>r = 0\<close> by (auto simp: plan_inv_def)
  qed
qed


text \<open>The result of a scaling step, for any gap preferences.\<close>

lemma gap_plan:
  assumes wf: "wf_map gaps" and T: "0 \<le> T" "T \<le> total_weight (mvals gaps)"
    and fits: "plan_fits T (total_weight (mvals gaps))"
    and gaps: "\<forall>(c, g) \<in> set gaps. MinReplicas g = 0 \<and> 0 \<le> Weight g \<and>
      (\<forall>m. MaxReplicas g = Some m \<longrightarrow> Weight g \<le> m)"
  shows "\<exists>inc ov. getDesiredPlan (getNamedPreferences gaps key) [] [] T False = Some (inc, ov) \<and>
      wf_map inc \<and> set (mkeys inc) = set (mkeys gaps) \<and> planTotal (mkeys gaps) inc = T \<and>
      (\<forall>(c, g) \<in> set gaps. 0 \<le> mget 0 inc c \<and> mget 0 inc c \<le> Weight g)"
proof -
  let ?ps = "getNamedPreferences gaps key"
  have "list_all pref_ok (mvals gaps)"
    using gaps by (force simp: list_all_iff pref_ok_def mvals_def split: option.splits)
  then have ok: "prefs_ok ?ps" using prefs_ok_getNamedPreferences wf by blast
  have tw: "total_weight ?ps = total_weight (mvals gaps)" by (rule total_weight_getNamedPreferences)
  obtain inc ov where P: "getDesiredPlan ?ps [] [] T False = Some (inc, ov)"
      "mkeys inc = map clusterName ?ps" "planTotal (map clusterName ?ps) inc = T"
      "\<forall>p \<in> set ?ps. 0 \<le> mget 0 inc (clusterName p) \<and> mget 0 inc (clusterName p) \<le> Weight p"
    using getDesiredPlan_gaps [OF ok, of T] fits T gaps
    by (force simp: tw set_getNamedPreferences)
  have ms: "mset (map clusterName ?ps) = mset (mkeys gaps)" by (rule names_getNamedPreferences)
  then have "planTotal (mkeys gaps) inc = T"
    using P(3) unfolding planTotal_def by (metis mset_map sum_mset_sum_list)
  moreover have "set (mkeys inc) = set (mkeys gaps)" using P(2) ms mset_eq_setD by metis
  moreover have "wf_map inc"
    using distinct_names_getNamedPreferences [OF wf, of key] P(2) by (simp add: wf_map_def mkeys_def)
  moreover have "\<forall>(c, g) \<in> set gaps. 0 \<le> mget 0 inc c \<and> mget 0 inc c \<le> Weight g"
    using P(4) by (force simp: set_getNamedPreferences)
  ultimately show ?thesis using P(1) by blast
qed


lemma mkeys_scaleUpPreferences:
  "mkeys (scaleUpPreferences rsp cur desired) =
     map fst (filter (\<lambda>(c, d). d > mget 0 cur c) desired)"
  by (simp add: mkeys_def scaleUpPreferences_def comp_def case_prod_unfold)

lemma mkeys_scaleDownPreferences:
  "mkeys (scaleDownPreferences cur desired) =
     map fst (filter (\<lambda>(c, d). d < mget 0 cur c) desired)"
  by (simp add: mkeys_def scaleDownPreferences_def comp_def case_prod_unfold)

lemma scalePreferences_keys:
  "set (mkeys (scaleUpPreferences rsp cur desired)) \<subseteq> set (mkeys desired)"
  "set (mkeys (scaleDownPreferences cur desired)) \<subseteq> set (mkeys desired)"
  unfolding mkeys_scaleUpPreferences mkeys_scaleDownPreferences by (auto simp: mkeys_def)

lemma wf_map_scalePreferences:
  "wf_map desired \<Longrightarrow> wf_map (scaleUpPreferences rsp cur desired)"
  "wf_map desired \<Longrightarrow> wf_map (scaleDownPreferences cur desired)"
  using mkeys_scaleUpPreferences [of rsp cur desired] mkeys_scaleDownPreferences [of cur desired]
  by (auto simp: wf_map_def mkeys_def distinct_map_filter)

lemma total_weight_scaleUp:
  "\<forall>(c, d) \<in> set desired. 0 \<le> mget 0 cur c \<and> in64 d \<Longrightarrow>
   total_weight (mvals (scaleUpPreferences rsp cur desired)) =
     (\<Sum>(c, d)\<leftarrow>desired. max 0 (d - mget 0 cur c))"
  by (induction desired)
    (auto simp: total_weight_def mvals_def scaleUpPreferences_def sub64_exact in64_def)

lemma total_weight_scaleDown:
  "\<forall>(c, d) \<in> set desired. 0 \<le> d \<and> in64 (mget 0 cur c) \<Longrightarrow>
   total_weight (mvals (scaleDownPreferences cur desired)) =
     (\<Sum>(c, d)\<leftarrow>desired. max 0 (mget 0 cur c - d))"
  by (induction desired)
    (auto simp: total_weight_def mvals_def scaleDownPreferences_def sub64_exact in64_def)

lemma planTotal_filter:
  "wf_map m \<Longrightarrow> set (mkeys inc) \<subseteq> fst ` set (filter P m) \<Longrightarrow>
   planTotal (mkeys m) inc = planTotal (map fst (filter P m)) inc"
proof -
  assume wf: "wf_map m" and k: "set (mkeys inc) \<subseteq> fst ` set (filter P m)"
  have "sum_list (map (\<lambda>x. mget 0 inc (fst x)) (filter P m)) = sum_list (map (\<lambda>x. mget 0 inc (fst x)) m)"
  proof (rule sum_list_map_filter)
    fix x assume x: "x \<in> set m" "\<not> P x"
    then have "fst x \<notin> fst ` set (filter P m)"
      using wf by (auto simp: wf_map_def distinct_map inj_on_def)
    then show "mget 0 inc (fst x) = 0" using k by (intro mget_notin) auto
  qed
  then show ?thesis by (simp add: planTotal_def mkeys_def comp_def)
qed


lemma scaleUpPreferences_entry:
  assumes "\<forall>(c, d) \<in> set desired. 0 \<le> mget 0 cur c \<and> in64 d \<and>
      (\<forall>pref m. map_of (Clusters rsp) c = Some pref \<longrightarrow> MaxReplicas pref = Some m \<longrightarrow> d \<le> m \<and> in64 m)"
    and "(c, g) \<in> set (scaleUpPreferences rsp cur desired)"
  shows "\<exists>d. (c, d) \<in> set desired \<and> d > mget 0 cur c \<and> MinReplicas g = 0 \<and>
      Weight g = d - mget 0 cur c \<and> (\<forall>m. MaxReplicas g = Some m \<longrightarrow> Weight g \<le> m)"
proof -
  obtain d where d: "(c, d) \<in> set desired" "mget 0 cur c < d"
    and g: "MinReplicas g = 0" "Weight g = sub64 d (mget 0 cur c)"
      "MaxReplicas g = (case map_of (Clusters rsp) c of None \<Rightarrow> None
         | Some pref \<Rightarrow> (case MaxReplicas pref of None \<Rightarrow> None
                       | Some m \<Rightarrow> Some (sub64 m (mget 0 cur c))))"
    using assms(2) by (auto simp: scaleUpPreferences_def)
  have w: "Weight g = d - mget 0 cur c"
    using assms(1) d g(2) by (fastforce simp: sub64_exact in64_def)
  have "Weight g \<le> m" if m: "MaxReplicas g = Some m" for m
  proof -
    obtain pref k where k: "map_of (Clusters rsp) c = Some pref" "MaxReplicas pref = Some k"
        "m = sub64 k (mget 0 cur c)"
      using m g(3) by (auto split: option.splits)
    then have "d \<le> k" "in64 k" "0 \<le> mget 0 cur c" using assms(1) d(1) by auto
    then show ?thesis using k(3) w d(2) by (simp add: sub64_exact in64_def)
  qed
  then show ?thesis using d g(1) w by blast
qed

lemma mget_filter_keys:
  assumes "wf_map desired" "set (mkeys inc) = fst ` set (filter P desired)" "(c, d) \<in> set desired" "\<not> P (c, d)"
  shows "mget 0 inc c = (0 :: int)"
proof (rule mget_notin, rule notI)
  assume "c \<in> set (mkeys inc)"
  then obtain b where "(c, b) \<in> set desired" "P (c, b)" using assms(2) by auto
  then show False using wf_map_unique [OF assms(1,3)] assms(4) by metis
qed

lemma scaleUp_correct:
  assumes wf: "wf_map desired"
    and cur: "\<forall>(c, d) \<in> set desired. 0 \<le> mget 0 cur c \<and> 0 \<le> d"
    and S: "S = planTotal (mkeys desired) desired" and C: "C = planTotal (mkeys desired) cur" "C \<le> S"
    and fits: "plan_fits S S"
    and max: "\<forall>(c, d) \<in> set desired. \<forall>pref m. map_of (Clusters rsp) c = Some pref \<longrightarrow>
      MaxReplicas pref = Some m \<longrightarrow> d \<le> m \<and> in64 m"
  shows "\<exists>res. scaleUp rsp cur desired (S - C) key = Some res \<and>
      (\<forall>(c, d) \<in> set desired. mget 0 cur c \<le> mget 0 res c \<and> mget 0 res c \<le> max (mget 0 cur c) d) \<and>
      planTotal (mkeys desired) res = S \<and>
      (set (mkeys desired) \<subseteq> set (mkeys cur) \<longrightarrow> mkeys res = mkeys cur)"
proof -
  let ?gaps = "scaleUpPreferences rsp cur desired"
  let ?G = "\<Sum>(c, d)\<leftarrow>desired. max 0 (d - mget 0 cur c)"
  have dS: "d \<le> S" if "(c, d) \<in> set desired" for c d
    unfolding S planTotal_desired [OF wf] using entry_le_sum [OF that, of "\<lambda>_ d. d"] cur by auto
  have in64d: "in64 d" if "(c, d) \<in> set desired" for c d
    using dS [OF that] cur that fits by (intro plan_fits_in64 [OF fits]) (auto simp: plan_fits_def)
  have in64c: "in64 (mget 0 cur c)" if "(c, d) \<in> set desired" for c d
  proof -
    have "mget 0 cur c \<le> C" unfolding C(1) planTotal_pairs
      using entry_le_sum [OF that, of "\<lambda>c _. mget 0 cur c"] cur by auto
    then show ?thesis using cur that C(2) fits by (intro plan_fits_in64 [OF fits]) (auto simp: plan_fits_def)
  qed
  have G: "total_weight (mvals ?gaps) = ?G"
    using total_weight_scaleUp cur in64d by fastforce
  have "S - C = (\<Sum>(c, d)\<leftarrow>desired. d - mget 0 cur c)"
    unfolding S C(1) planTotal_desired [OF wf] unfolding planTotal_pairs
    by (simp add: case_prod_unfold sum_list_subtractf)
  also have "\<dots> \<le> ?G" by (intro sum_list_mono) auto
  finally have SG: "S - C \<le> ?G" .
  have GS: "?G \<le> S"
    unfolding S planTotal_desired [OF wf] using cur by (intro sum_list_mono) auto
  have C0: "0 \<le> C" unfolding C(1) planTotal_pairs using cur by (intro sum_list_nonneg) auto
  have fits': "plan_fits (S - C) ?G"
    using fits by (rule plan_fits_mono) (use SG GS C C0 in auto)
  have up: "(c, g) \<in> set ?gaps \<Longrightarrow> \<exists>d. (c, d) \<in> set desired \<and> d > mget 0 cur c \<and> MinReplicas g = 0 \<and>
      Weight g = d - mget 0 cur c \<and> (\<forall>m. MaxReplicas g = Some m \<longrightarrow> Weight g \<le> m)" for c g
    using cur in64d max by (intro scaleUpPreferences_entry) auto
  obtain inc ov where P: "getDesiredPlan (getNamedPreferences ?gaps key) [] [] (S - C) False = Some (inc, ov)"
      "wf_map inc" "set (mkeys inc) = set (mkeys ?gaps)" "planTotal (mkeys ?gaps) inc = S - C"
      "\<forall>(c, g) \<in> set ?gaps. 0 \<le> mget 0 inc c \<and> mget 0 inc c \<le> Weight g"
    using gap_plan [OF wf_map_scalePreferences(1) [OF wf], of "S - C" rsp cur key] SG C(2) fits' up
    by (force simp: G)
  let ?res = "addReplicas cur inc"
  have inc: "0 \<le> mget 0 inc c \<and> mget 0 inc c \<le> max 0 (d - mget 0 cur c)" if d: "(c, d) \<in> set desired" for c d
  proof (cases "d > mget 0 cur c")
    case True
    then obtain g where "(c, g) \<in> set ?gaps" using d by (force simp: scaleUpPreferences_def)
    moreover then have "Weight g = d - mget 0 cur c" using up wf_map_unique [OF wf d] by blast
    ultimately show ?thesis using P(5) by fastforce
  next
    case False
    then show ?thesis using mget_filter_keys [OF wf _ d, of inc "\<lambda>(c, d). d > mget 0 cur c"] P(3)
      by (simp add: mkeys_scaleUpPreferences)
  qed
  have res: "mget 0 ?res c = mget 0 cur c + mget 0 inc c" if "(c, d) \<in> set desired" for c d
  proof -
    have "in64 (mget 0 cur c + mget 0 inc c)"
      using inc [OF that] in64d [OF that] cur in64c [OF that] that by (auto simp: in64_def max_def split: if_splits)
    then show ?thesis
      using mget_fold_mput [OF P(2), of 0 add64 cur c]
      by (auto simp: addReplicas_def mget_def [of 0 inc] add64_exact split: option.splits)
  qed
  have "planTotal (mkeys desired) ?res = C + planTotal (mkeys desired) inc"
    unfolding C(1) planTotal_pairs using res
    by (auto simp: case_prod_unfold simp flip: sum_list_addf intro!: arg_cong [where f = sum_list] map_cong)
  also have "planTotal (mkeys desired) inc = S - C"
    using planTotal_filter [OF wf, of inc "\<lambda>(c, d). d > mget 0 cur c"] P(3,4)
    by (simp add: mkeys_scaleUpPreferences)
  finally have "planTotal (mkeys desired) ?res = S" by simp
  moreover have "\<forall>(c, d) \<in> set desired. mget 0 cur c \<le> mget 0 ?res c \<and> mget 0 ?res c \<le> max (mget 0 cur c) d"
    using inc res by fastforce
  moreover have "mkeys ?res = mkeys cur" if "set (mkeys desired) \<subseteq> set (mkeys cur)"
    unfolding addReplicas_def using that P(3)
    by (intro mkeys_fold_mput) (use scalePreferences_keys in blast)
  ultimately show ?thesis using P(1) by (simp add: scaleUp_def)
qed


lemma scaleDownPreferences_entry:
  assumes "\<forall>(c, d) \<in> set desired. 0 \<le> d \<and> in64 (mget 0 cur c)"
    and "(c, g) \<in> set (scaleDownPreferences cur desired)"
  shows "\<exists>d. (c, d) \<in> set desired \<and> d < mget 0 cur c \<and> MinReplicas g = 0 \<and>
      Weight g = mget 0 cur c - d \<and> MaxReplicas g = Some (mget 0 cur c)"
  using assms by (fastforce simp: scaleDownPreferences_def sub64_exact in64_def)

lemma scaleDown_correct:
  assumes wf: "wf_map desired"
    and cur: "\<forall>(c, d) \<in> set desired. 0 \<le> mget 0 cur c \<and> 0 \<le> d"
    and S: "S = planTotal (mkeys desired) desired" and C: "C = planTotal (mkeys desired) cur" "S \<le> C"
    and fits: "plan_fits C C"
  shows "\<exists>res. scaleDown cur desired (C - S) key = Some res \<and>
      (\<forall>(c, d) \<in> set desired. min (mget 0 cur c) d \<le> mget 0 res c \<and> mget 0 res c \<le> mget 0 cur c) \<and>
      planTotal (mkeys desired) res = S \<and>
      (set (mkeys desired) \<subseteq> set (mkeys cur) \<longrightarrow> mkeys res = mkeys cur)"
proof -
  let ?gaps = "scaleDownPreferences cur desired"
  let ?G = "\<Sum>(c, d)\<leftarrow>desired. max 0 (mget 0 cur c - d)"
  have in64c: "in64 (mget 0 cur c)" if "(c, d) \<in> set desired" for c d
  proof -
    have "mget 0 cur c \<le> C" unfolding C(1) planTotal_pairs
      using entry_le_sum [OF that, of "\<lambda>c _. mget 0 cur c"] cur by auto
    then show ?thesis using cur that fits by (intro plan_fits_in64 [OF fits]) (auto simp: plan_fits_def)
  qed
  have G: "total_weight (mvals ?gaps) = ?G"
    using total_weight_scaleDown cur in64c by fastforce
  have "C - S = (\<Sum>(c, d)\<leftarrow>desired. mget 0 cur c - d)"
    unfolding S C(1) planTotal_desired [OF wf] unfolding planTotal_pairs
    by (simp add: case_prod_unfold sum_list_subtractf)
  also have "\<dots> \<le> ?G" by (intro sum_list_mono) auto
  finally have SG: "C - S \<le> ?G" .
  have GS: "?G \<le> C"
    unfolding C(1) planTotal_pairs using cur by (intro sum_list_mono) auto
  have S0: "0 \<le> S" unfolding S planTotal_desired [OF wf] using cur by (intro sum_list_nonneg) auto
  have fits': "plan_fits (C - S) ?G"
    using fits by (rule plan_fits_mono) (use SG GS C S0 in auto)
  have down: "(c, g) \<in> set ?gaps \<Longrightarrow> \<exists>d. (c, d) \<in> set desired \<and> d < mget 0 cur c \<and> MinReplicas g = 0 \<and>
      Weight g = mget 0 cur c - d \<and> MaxReplicas g = Some (mget 0 cur c)" for c g
    using cur in64c by (intro scaleDownPreferences_entry) auto
  have gaps: "\<forall>(c, g) \<in> set ?gaps. MinReplicas g = 0 \<and> 0 \<le> Weight g \<and>
      (\<forall>m. MaxReplicas g = Some m \<longrightarrow> Weight g \<le> m)"
    using down cur by fastforce
  obtain dec ov where P: "getDesiredPlan (getNamedPreferences ?gaps key) [] [] (C - S) False = Some (dec, ov)"
      "wf_map dec" "set (mkeys dec) = set (mkeys ?gaps)" "planTotal (mkeys ?gaps) dec = C - S"
      "\<forall>(c, g) \<in> set ?gaps. 0 \<le> mget 0 dec c \<and> mget 0 dec c \<le> Weight g"
    using gap_plan [OF wf_map_scalePreferences(2) [OF wf], of "C - S" cur key] SG C(2) fits' gaps
    by (force simp: G)
  let ?res = "subReplicas cur dec"
  have dec: "0 \<le> mget 0 dec c \<and> mget 0 dec c \<le> max 0 (mget 0 cur c - d)" if d: "(c, d) \<in> set desired" for c d
  proof (cases "d < mget 0 cur c")
    case True
    then obtain g where "(c, g) \<in> set ?gaps" using d by (force simp: scaleDownPreferences_def)
    moreover then have "Weight g = mget 0 cur c - d" using down wf_map_unique [OF wf d] by blast
    ultimately show ?thesis using P(5) by fastforce
  next
    case False
    then show ?thesis using mget_filter_keys [OF wf _ d, of dec "\<lambda>(c, d). d < mget 0 cur c"] P(3)
      by (simp add: mkeys_scaleDownPreferences)
  qed
  have res: "mget 0 ?res c = mget 0 cur c - mget 0 dec c" if "(c, d) \<in> set desired" for c d
  proof -
    have "in64 (mget 0 cur c - mget 0 dec c)"
      using dec [OF that] cur in64c [OF that] that by (auto simp: in64_def max_def split: if_splits)
    then show ?thesis
      using mget_fold_mput [OF P(2), of 0 sub64 cur c]
      by (auto simp: subReplicas_def mget_def [of 0 dec] sub64_exact split: option.splits)
  qed
  have "planTotal (mkeys desired) ?res = C - planTotal (mkeys desired) dec"
    unfolding C(1) planTotal_pairs using res
    by (auto simp: case_prod_unfold simp flip: sum_list_subtractf intro!: arg_cong [where f = sum_list] map_cong)
  also have "planTotal (mkeys desired) dec = C - S"
    using planTotal_filter [OF wf, of dec "\<lambda>(c, d). d < mget 0 cur c"] P(3,4)
    by (simp add: mkeys_scaleDownPreferences)
  finally have "planTotal (mkeys desired) ?res = S" by simp
  moreover have "\<forall>(c, d) \<in> set desired. min (mget 0 cur c) d \<le> mget 0 ?res c \<and> mget 0 ?res c \<le> mget 0 cur c"
    using dec res by fastforce
  moreover have "mkeys ?res = mkeys cur" if "set (mkeys desired) \<subseteq> set (mkeys cur)"
    unfolding subReplicas_def using that P(3)
    by (intro mkeys_fold_mput) (use scalePreferences_keys in blast)
  ultimately show ?thesis using P(1) by (simp add: scaleDown_def)
qed


section \<open>The exported function\<close>

lemma planPreferences_fold:
  "wf_map m \<Longrightarrow>
   wf_map (fold (\<lambda>c m. (case map_of (Clusters rsp) c of Some p \<Rightarrow> mput c p m
      | None \<Rightarrow> (case map_of (Clusters rsp) ''*'' of Some p \<Rightarrow> mput c p m | None \<Rightarrow> m))) cs m) \<and>
   map_of (fold (\<lambda>c m. (case map_of (Clusters rsp) c of Some p \<Rightarrow> mput c p m
      | None \<Rightarrow> (case map_of (Clusters rsp) ''*'' of Some p \<Rightarrow> mput c p m | None \<Rightarrow> m))) cs m) c =
   (if c \<in> set cs \<and> prefOf rsp c \<noteq> None then prefOf rsp c else map_of m c)"
  by (induction cs arbitrary: m) (auto simp: prefOf_def map_of_mput split: option.splits)

lemma wf_map_planPreferences: "wf_map (planPreferences rsp cs)"
  and map_of_planPreferences:
    "map_of (planPreferences rsp cs) c = (if c \<in> set cs then prefOf rsp c else None)"
  using planPreferences_fold [of "[]" rsp cs c] by (auto simp: planPreferences_def)

lemma set_planNames: "set (planNames rsp cs) = {c \<in> set cs. prefOf rsp c \<noteq> None}"
  using map_of_planPreferences [of rsp cs]
  by (auto simp: planNames_def mkeys_def dom_map_of_conv_image_fst [symmetric] dom_def split: if_splits)

lemma prefOf_ok: "rsp_ok rsp \<Longrightarrow> prefOf rsp c = Some p \<Longrightarrow> pref_ok p \<and> min_le_max p"
  by (auto simp: rsp_ok_def prefOf_def list_all_iff split: option.splits dest!: map_of_SomeD)

lemma planPreferences_ok:
  assumes "rsp_ok rsp"
  shows "prefs_ok (getNamedPreferences (planPreferences rsp cs) key)"
    and "p \<in> set (getNamedPreferences (planPreferences rsp cs) key) \<Longrightarrow> min_le_max p"
proof -
  have entry: "prefOf rsp c = Some q" if "(c, q) \<in> set (planPreferences rsp cs)" for c q
    using map_of_planPreferences [of rsp cs c] that wf_map_planPreferences [of rsp cs]
    by (auto simp: wf_map_def dest!: map_of_is_SomeI split: if_splits)
  then have "list_all pref_ok (mvals (planPreferences rsp cs))"
    using prefOf_ok [OF assms] by (auto simp: list_all_iff mvals_def) blast
  then show "prefs_ok (getNamedPreferences (planPreferences rsp cs) key)"
    using prefs_ok_getNamedPreferences wf_map_planPreferences by blast
  show "p \<in> set (getNamedPreferences (planPreferences rsp cs) key) \<Longrightarrow> min_le_max p"
    using entry prefOf_ok [OF assms] by (auto simp: set_getNamedPreferences) blast
qed

lemma currentPlan_run:
  assumes "distinct (map clusterName ps)" "set (map clusterName ps) \<inter> set (mkeys m) = {}"
  shows "fold (\<lambda>p m. let name = clusterName p in
           mput name (capTo (map_of est name) (capTo (map_of lim name) (mget 0 cur name))) m) ps m =
         m @ map (\<lambda>p. (clusterName p, currentOk cur est lim (clusterName p))) ps"
  using assms
proof (induction ps arbitrary: m)
  case Nil
  then show ?case by simp
next
  case (Cons p ps)
  have "mput (clusterName p) v m = m @ [(clusterName p, v)]" for v
    using Cons.prems(2) by (simp add: mput_fresh)
  with Cons show ?case by (auto simp: currentOk_def Let_def)
qed


lemma currentOk_nonneg: "caps_ok cur \<Longrightarrow> caps_ok est \<Longrightarrow> caps_ok lim \<Longrightarrow> 0 \<le> currentOk cur est lim c"
  unfolding currentOk_def
  by (intro capTo_nonneg) (auto simp: mget_def dest: caps_okD split: option.splits)

lemma currentOk_le: "currentOk cur est lim c \<le> mget 0 cur c"
  unfolding currentOk_def by (meson capTo_le order_trans)

lemma currentOk_bounds:
  shows "map_of lim c = Some v \<Longrightarrow> currentOk cur est lim c \<le> v"
    and "map_of est c = Some v \<Longrightarrow> currentOk cur est lim c \<le> v"
  unfolding currentOk_def
  by (rule order_trans [OF capTo_le capTo_bound], assumption) (rule capTo_bound)

lemma sum64_planTotal:
  assumes "mkeys m = ns" "distinct ns" "\<forall>c \<in> set ns. 0 \<le> mget 0 m c" "plan_fits (planTotal ns m) W"
  shows "sum64 (mvals m) = planTotal ns m"
proof -
  have v: "mvals m = map (mget 0 m) ns"
    using assms(1,2) mvals_mget [of m 0] by (simp add: wf_map_def mkeys_def)
  have "in64 (planTotal ns m)" using assms(4) by (intro plan_fits_in64 [OF assms(4)]) (auto simp: plan_fits_def)
  then show ?thesis unfolding v planTotal_def using assms(3) by (intro sum64_exact) auto
qed

text \<open>The \<open>switch\<close> of \<open>Plan\<close>.\<close>

lemma rebalance_correct:
  assumes keys: "mkeys now = ns" "mkeys desired = ns" "distinct ns"
    and nonneg: "\<forall>c \<in> set ns. 0 \<le> mget 0 now c \<and> 0 \<le> mget 0 desired c"
    and C: "C = planTotal ns now" "plan_fits C C" and S: "S = planTotal ns desired" "plan_fits S S"
    and max: "\<forall>c \<in> set ns. \<forall>pref m. map_of (Clusters rsp) c = Some pref \<longrightarrow>
      MaxReplicas pref = Some m \<longrightarrow> mget 0 desired c \<le> m \<and> in64 m"
  shows "\<exists>plan. (if sum64 (mvals now) = sum64 (mvals desired) then Some now
           else if sum64 (mvals now) > sum64 (mvals desired)
           then scaleDown now desired (sub64 (sum64 (mvals now)) (sum64 (mvals desired))) key
           else scaleUp rsp now desired (sub64 (sum64 (mvals desired)) (sum64 (mvals now))) key) = Some plan \<and>
      mkeys plan = ns \<and> planTotal ns plan = S \<and>
      (\<forall>c \<in> set ns. between (mget 0 now c) (mget 0 plan c) (mget 0 desired c)) \<and>
      (C \<le> S \<longrightarrow> (\<forall>c \<in> set ns. mget 0 now c \<le> mget 0 plan c)) \<and>
      (S \<le> C \<longrightarrow> (\<forall>c \<in> set ns. mget 0 plan c \<le> mget 0 now c))"
proof -
  have wf: "wf_map desired" using keys by (simp add: wf_map_def mkeys_def)
  have val: "mget 0 desired c = d" "c \<in> set ns" if "(c, d) \<in> set desired" for c d
    using that keys(2) by (auto intro: mget_entry [OF wf] in_mkeys)
  have entry: "(c, mget 0 desired c) \<in> set desired" if "c \<in> set ns" for c
    using that keys(2) val by (force simp: mkeys_def)
  have nn: "\<forall>(c, d) \<in> set desired. 0 \<le> mget 0 now c \<and> 0 \<le> d" using val nonneg by fastforce
  have sums: "sum64 (mvals now) = C" "sum64 (mvals desired) = S"
    unfolding C(1) S(1)
    by (rule sum64_planTotal [OF keys(1,3) _ C(2) [unfolded C(1)]], use nonneg in blast)
      (rule sum64_planTotal [OF keys(2,3) _ S(2) [unfolded S(1)]], use nonneg in blast)
  have pos: "0 \<le> C" "0 \<le> S" using C(2) S(2) by (auto simp: plan_fits_def)
  have in64: "in64 C" "in64 S" using pos by (auto intro: plan_fits_in64 [OF C(2)] plan_fits_in64 [OF S(2)])
  consider (eq) "C = S" | (down) "S < C" | (up) "C < S" by linarith
  then show ?thesis
  proof cases
    case eq
    then show ?thesis using sums keys C(1) by (auto simp: between_def)
  next
    case down
    have "sub64 C S = C - S" using in64 pos by (intro sub64_exact) (auto simp: in64_def)
    moreover obtain res where "scaleDown now desired (C - S) key = Some res"
      "\<forall>(c, d) \<in> set desired. min (mget 0 now c) d \<le> mget 0 res c \<and> mget 0 res c \<le> mget 0 now c"
      "planTotal (mkeys desired) res = S" "mkeys res = mkeys now"
      using scaleDown_correct [OF wf nn, of S C key] down C S keys by auto
    ultimately show ?thesis using sums down keys entry by (fastforce simp: between_def)
  next
    case up
    have "sub64 S C = S - C" using in64 pos by (intro sub64_exact) (auto simp: in64_def)
    moreover have "\<forall>(c, d) \<in> set desired. \<forall>pref m. map_of (Clusters rsp) c = Some pref \<longrightarrow>
        MaxReplicas pref = Some m \<longrightarrow> d \<le> m \<and> in64 m" using max val by fastforce
    then obtain res where "scaleUp rsp now desired (S - C) key = Some res"
      "\<forall>(c, d) \<in> set desired. mget 0 now c \<le> mget 0 res c \<and> mget 0 res c \<le> max (mget 0 now c) d"
      "planTotal (mkeys desired) res = S" "mkeys res = mkeys now"
      using scaleUp_correct [OF wf nn, of S C rsp key] up C S keys by auto
    ultimately show ?thesis using sums up keys entry by (fastforce simp: between_def)
  qed
qed


lemma currentPlanOf_facts:
  assumes "distinct (map clusterName ps)" "ns = map clusterName ps"
  shows "mkeys (currentPlanOf ps cur est lim) = ns"
    and "c \<in> set ns \<Longrightarrow> mget 0 (currentPlanOf ps cur est lim) c = currentOk cur est lim c"
proof -
  have cp: "currentPlanOf ps cur est lim = map (\<lambda>c. (c, currentOk cur est lim c)) ns"
    using currentPlan_run [of ps "[]" est lim cur] assms unfolding currentPlanOf_def
    by (simp add: comp_def)
  show "mkeys (currentPlanOf ps cur est lim) = ns" unfolding cp by (simp add: mkeys_def comp_def)
  show "c \<in> set ns \<Longrightarrow> mget 0 (currentPlanOf ps cur est lim) c = currentOk cur est lim c"
    unfolding cp by (simp add: mget_def map_of_map_restrict)
qed

lemma plan_le_max:
  assumes inv: "loopInv est lim ns T W ps plan0 ps' r plan ov" and rok: "rsp_ok rsp"
    and ps: "ps = getNamedPreferences (planPreferences rsp cs) key" and ns: "ns = map clusterName ps"
    and c: "c \<in> set ns" "map_of (Clusters rsp) c = Some pref" "MaxReplicas pref = Some m"
  shows "mget 0 plan c \<le> m \<and> in64 m"
proof -
  obtain p where p: "p \<in> set ps" "clusterName p = c" using c(1) ns by auto
  then obtain q where q: "(c, q) \<in> set (planPreferences rsp cs)" "p = named key c q"
    unfolding ps by (auto simp: set_getNamedPreferences)
  then have "prefOf rsp c = Some q"
    using map_of_planPreferences [of rsp cs c] wf_map_planPreferences [of rsp cs]
    by (auto simp: wf_map_def dest!: map_of_is_SomeI split: if_splits)
  then have "MaxReplicas p = Some m" using c(2,3) q(2) by (simp add: prefOf_def)
  moreover have "capAll est lim p (mget 0 plan c) = mget 0 plan c"
    using inv p planPreferences_ok(2) [OF rok] unfolding loopInv_def ps by blast
  ultimately have "mget 0 plan c \<le> m" using capAll_bounds(1) by metis
  moreover have "in64 m"
    using rok c(2,3) by (fastforce simp: rsp_ok_def list_all_iff dest: map_of_SomeD)
  ultimately show ?thesis ..
qed

lemma rebalance_inputs:
  assumes "prefs_ok ps" and ns: "ns = map clusterName ps"
    and inv: "loopInv est lim ns T W ps plan0 ps' r desired ov"
    and rok: "rsp_ok rsp" and caps: "caps_ok cur" "caps_ok est" "caps_ok lim"
    and fits: "plan_fits T T" "plan_fits (planTotal ns cur) (planTotal ns cur)"
    and ps: "ps = getNamedPreferences (planPreferences rsp cs) key"
  defines "now \<equiv> currentPlanOf ps cur est lim"
  shows "\<forall>c \<in> set ns. 0 \<le> mget 0 now c \<and> 0 \<le> mget 0 desired c"
    and "plan_fits (planTotal ns now) (planTotal ns now)"
    and "plan_fits (planTotal ns desired) (planTotal ns desired)"
    and "\<forall>c \<in> set ns. \<forall>pref m. map_of (Clusters rsp) c = Some pref \<longrightarrow>
      MaxReplicas pref = Some m \<longrightarrow> mget 0 desired c \<le> m \<and> in64 m"
    and "planTotal ns now = sum_list (map (currentOk cur est lim) ns)"
proof -
  have dist: "distinct (map clusterName ps)" using assms(1) by (simp add: prefs_ok_def)
  have now: "mget 0 now c = currentOk cur est lim c" if "c \<in> set ns" for c
    unfolding now_def using that by (rule currentPlanOf_facts(2) [OF dist ns])
  show tot: "planTotal ns now = sum_list (map (currentOk cur est lim) ns)"
    unfolding planTotal_def by (simp add: now cong: map_cong)
  have D: "\<forall>c \<in> set ns. 0 \<le> mget 0 desired c" "planTotal ns desired \<le> T"
    using inv by (auto simp: loopInv_def plan_inv_def list_all_iff)
  show "\<forall>c \<in> set ns. 0 \<le> mget 0 now c \<and> 0 \<le> mget 0 desired c"
    using D now caps by (simp add: currentOk_nonneg)
  have "planTotal ns now \<le> planTotal ns cur"
    unfolding planTotal_def using now by (intro sum_list_mono) (simp add: currentOk_le)
  moreover have "0 \<le> planTotal ns now"
    unfolding tot using caps by (auto intro!: sum_list_nonneg currentOk_nonneg)
  ultimately show "plan_fits (planTotal ns now) (planTotal ns now)"
    by (intro plan_fits_mono [OF fits(2)]) auto
  have "0 \<le> planTotal ns desired"
    unfolding planTotal_def using D by (auto intro!: sum_list_nonneg)
  then show "plan_fits (planTotal ns desired) (planTotal ns desired)"
    using D by (intro plan_fits_mono [OF fits(1)]) auto
  show "\<forall>c \<in> set ns. \<forall>pref m. map_of (Clusters rsp) c = Some pref \<longrightarrow>
      MaxReplicas pref = Some m \<longrightarrow> mget 0 desired c \<le> m \<and> in64 m"
    using plan_le_max [OF inv rok ps ns] by blast
qed

text \<open>
  The whole of \<open>Plan\<close>: the desired plan and its overflow, and the plan returned, which is the
  desired one or lies between the running replicas and the desired plan with the same total.
\<close>

lemma Plan_run:
  assumes ok: "plan_input_ok rsp T cs cur est lim"
    and ps: "ps = getNamedPreferences (planPreferences rsp cs) key"
    and ns: "ns = map clusterName ps"
    and now: "now = currentOk cur est lim"
  shows "\<exists>plan0 ps' r desired ov plan.
      getDesiredPlan ps est lim T (\<not> avoid \<or> keep) =
        Some (desired, if \<not> avoid \<or> keep then ov else trimOverflow r ov) \<and>
      loopInv est lim ns T (total_weight ps) ps plan0 ps' r desired ov \<and>
      (r = 0 \<or> settled est lim ps desired) \<and>
      (sum_list (map MinReplicas ps) \<le> T \<longrightarrow>
        (\<forall>p \<in> set ps. mget 0 plan0 (clusterName p) =
           capTo (map_of est (clusterName p)) (capTo (map_of lim (clusterName p)) (MinReplicas p)))) \<and>
      Plan rsp T cs cur est lim key avoid keep =
        Some (plan, if \<not> avoid \<or> keep then ov else trimOverflow r ov) \<and>
      mkeys plan = ns \<and> (\<not> avoid \<longrightarrow> plan = desired) \<and>
      (avoid \<longrightarrow> planTotal ns plan = planTotal ns desired \<and>
         (\<forall>c \<in> set ns. between (now c) (mget 0 plan c) (mget 0 desired c)) \<and>
         (sum_list (map now ns) \<le> planTotal ns desired \<longrightarrow> (\<forall>c \<in> set ns. now c \<le> mget 0 plan c)) \<and>
         (planTotal ns desired \<le> sum_list (map now ns) \<longrightarrow> (\<forall>c \<in> set ns. mget 0 plan c \<le> now c)) \<and>
         (planTotal ns desired = sum_list (map now ns) \<longrightarrow> (\<forall>c \<in> set ns. mget 0 plan c = now c)))"
proof -
  have ms: "mset ns = mset (planNames rsp cs)"
    unfolding ns ps planNames_def by (rule names_getNamedPreferences)
  have rok: "rsp_ok rsp" and caps: "caps_ok cur" "caps_ok est" "caps_ok lim"
    and fits: "plan_fits T (total_weight ps)" "plan_fits T T"
    and fitsC: "plan_fits (planTotal ns cur) (planTotal ns cur)"
    using ok planTotal_mset [OF ms, of cur]
    by (simp_all add: plan_input_ok_def ps total_weight_getNamedPreferences)
  have pok: "prefs_ok ps" unfolding ps by (rule planPreferences_ok(1) [OF rok])
  then have dist: "distinct ns" using ns by (simp add: prefs_ok_def)
  obtain plan0 ps' r desired ov where D:
      "getDesiredPlan ps est lim T (\<not> avoid \<or> keep) =
         Some (desired, if \<not> avoid \<or> keep then ov else trimOverflow r ov)"
      "loopInv est lim ns T (total_weight ps) ps plan0 ps' r desired ov"
      "r = 0 \<or> settled est lim ps desired"
      "sum_list (map MinReplicas ps) \<le> T \<longrightarrow>
        (\<forall>p \<in> set ps. mget 0 plan0 (clusterName p) =
           capTo (map_of est (clusterName p)) (capTo (map_of lim (clusterName p)) (MinReplicas p)))"
    using getDesiredPlan_loopInv [OF pok caps(2,3) fits(1), of "\<not> avoid \<or> keep"] unfolding ns by blast
  let ?ov = "if \<not> avoid \<or> keep then ov else trimOverflow r ov"
  have keys: "mkeys desired = ns" using D(2) by (simp add: loopInv_def)
  show ?thesis
  proof (cases avoid)
    case False
    then have "Plan rsp T cs cur est lim key avoid keep = Some (desired, ?ov)"
      using D(1) by (simp add: Plan_def ps)
    then show ?thesis using D keys False by blast
  next
    case True
    let ?cp = "currentPlanOf ps cur est lim"
    note cp = currentPlanOf_facts [OF dist [unfolded ns] ns, where cur = cur and est = est and lim = lim]
    obtain plan where P: "(if sum64 (mvals ?cp) = sum64 (mvals desired) then Some ?cp
         else if sum64 (mvals ?cp) > sum64 (mvals desired)
         then scaleDown ?cp desired (sub64 (sum64 (mvals ?cp)) (sum64 (mvals desired))) key
         else scaleUp rsp ?cp desired (sub64 (sum64 (mvals desired)) (sum64 (mvals ?cp))) key) = Some plan"
      "mkeys plan = ns" "planTotal ns plan = planTotal ns desired"
      "\<forall>c \<in> set ns. between (now c) (mget 0 plan c) (mget 0 desired c)"
      "sum_list (map now ns) \<le> planTotal ns desired \<longrightarrow> (\<forall>c \<in> set ns. now c \<le> mget 0 plan c)"
      "planTotal ns desired \<le> sum_list (map now ns) \<longrightarrow> (\<forall>c \<in> set ns. mget 0 plan c \<le> now c)"
    proof -
      note R = rebalance_inputs [OF pok ns D(2) rok caps fits(2) fitsC ps]
      from rebalance_correct [OF cp(1) keys dist R(1) refl R(2) refl R(3,4), of key] that
      show ?thesis by (auto simp: now R(5) cp(2))
    qed
    have "Plan rsp T cs cur est lim key avoid keep = Some (plan, ?ov)"
      using D(1) P(1) True unfolding Plan_def Let_def ps by (simp split: if_splits)
    moreover have "planTotal ns desired = sum_list (map now ns) \<longrightarrow> (\<forall>c \<in> set ns. mget 0 plan c = now c)"
      using P(5,6) by (auto intro: order_antisym)
    ultimately show ?thesis using D P(2-6) True by blast
  qed
qed


lemma named_in_preferences:
  assumes "c \<in> set cs" "prefOf rsp c = Some q"
  shows "named key c q \<in> set (getNamedPreferences (planPreferences rsp cs) key)"
proof -
  have "(c, q) \<in> set (planPreferences rsp cs)"
    using map_of_planPreferences [of rsp cs c] assms by (intro map_of_SomeD) simp
  then show ?thesis by (force simp: set_getNamedPreferences)
qed

lemma saturated_named: "saturated est lim (named key c q) v \<longleftrightarrow>
   MaxReplicas q = Some v \<or> map_of lim c = Some v \<or> map_of est c = Some v"
  by (simp add: saturated_def)

lemma set_preference_names:
  "clusterName ` set (getNamedPreferences (planPreferences rsp cs) key) = {c \<in> set cs. prefOf rsp c \<noteq> None}"
  using mset_eq_setD [OF names_getNamedPreferences [of "planPreferences rsp cs" key]] set_planNames [of rsp cs]
  by (simp add: planNames_def)

lemma getDesiredPlan_keep:
  "map_option fst (getDesiredPlan ps est lim T keep) = map_option fst (getDesiredPlan ps est lim T keep')"
  by (auto simp: getDesiredPlan_def split: prod.splits option.splits)


lemma between_lower: "between a x b \<Longrightarrow> l \<le> a \<Longrightarrow> l \<le> b \<Longrightarrow> l \<le> x"
  and between_upper: "between a x b \<Longrightarrow> a \<le> u \<Longrightarrow> b \<le> u \<Longrightarrow> x \<le> u"
  by (auto simp: between_def min_def max_def split: if_splits)

lemma Plan_facts:
  assumes ok: "plan_input_ok rsp T cs cur est lim"
  obtains ps ns desired plan r ov where
    "ps = getNamedPreferences (planPreferences rsp cs) key"
    "distinct ns" "set ns = {c \<in> set cs. prefOf rsp c \<noteq> None}"
    "Plan rsp T cs cur est lim key avoid keep =
       Some (plan, if \<not> avoid \<or> keep then ov else trimOverflow r ov)"
    "mkeys plan = ns" "mkeys desired = ns"
    "\<forall>c \<in> set ns. 0 \<le> mget 0 desired c" "planTotal ns desired + r = T" "0 \<le> r"
    "r = 0 \<or> settled est lim ps desired"
    "\<forall>p \<in> set ps. capAll est lim p (mget 0 desired (clusterName p)) = mget 0 desired (clusterName p)"
    "sum_list (map MinReplicas ps) \<le> T \<longrightarrow> (\<forall>p \<in> set ps.
       capTo (map_of est (clusterName p)) (capTo (map_of lim (clusterName p)) (MinReplicas p))
         \<le> mget 0 desired (clusterName p))"
    "\<forall>c \<in> set ns. \<forall>v. map_of ov c = Some v \<longrightarrow> 0 < v \<and> map_of est c = Some (mget 0 desired c)"
    "\<not> avoid \<longrightarrow> plan = desired"
    "avoid \<longrightarrow> planTotal ns plan = planTotal ns desired \<and>
       (\<forall>c \<in> set ns. between (currentOk cur est lim c) (mget 0 plan c) (mget 0 desired c)) \<and>
       (sum_list (map (currentOk cur est lim) ns) \<le> planTotal ns desired \<longrightarrow>
          (\<forall>c \<in> set ns. currentOk cur est lim c \<le> mget 0 plan c)) \<and>
       (planTotal ns desired \<le> sum_list (map (currentOk cur est lim) ns) \<longrightarrow>
          (\<forall>c \<in> set ns. mget 0 plan c \<le> currentOk cur est lim c))"
    "map_option fst (getDesiredPlan ps est lim T True) = Some desired"
proof -
  let ?ps = "getNamedPreferences (planPreferences rsp cs) key"
  let ?ns = "map clusterName ?ps"
  from Plan_run [OF ok refl refl refl, of key avoid keep]
  obtain plan0 ps' r desired ov plan where P:
      "getDesiredPlan ?ps est lim T (\<not> avoid \<or> keep) =
        Some (desired, if \<not> avoid \<or> keep then ov else trimOverflow r ov)"
      "loopInv est lim ?ns T (total_weight ?ps) ?ps plan0 ps' r desired ov"
      "r = 0 \<or> settled est lim ?ps desired"
      "sum_list (map MinReplicas ?ps) \<le> T \<longrightarrow> (\<forall>p \<in> set ?ps. mget 0 plan0 (clusterName p) =
         capTo (map_of est (clusterName p)) (capTo (map_of lim (clusterName p)) (MinReplicas p)))"
      "Plan rsp T cs cur est lim key avoid keep =
        Some (plan, if \<not> avoid \<or> keep then ov else trimOverflow r ov)"
      "mkeys plan = ?ns" "\<not> avoid \<longrightarrow> plan = desired"
      "avoid \<longrightarrow> planTotal ?ns plan = planTotal ?ns desired \<and>
       (\<forall>c \<in> set ?ns. between (currentOk cur est lim c) (mget 0 plan c) (mget 0 desired c)) \<and>
       (sum_list (map (currentOk cur est lim) ?ns) \<le> planTotal ?ns desired \<longrightarrow>
          (\<forall>c \<in> set ?ns. currentOk cur est lim c \<le> mget 0 plan c)) \<and>
       (planTotal ?ns desired \<le> sum_list (map (currentOk cur est lim) ?ns) \<longrightarrow>
          (\<forall>c \<in> set ?ns. mget 0 plan c \<le> currentOk cur est lim c))"
    by blast
  note L = P(2) [unfolded loopInv_def plan_inv_def list_all_iff]
  have rok: "rsp_ok rsp" using ok by (simp add: plan_input_ok_def)
  have ml: "min_le_max p" if "p \<in> set ?ps" for p using planPreferences_ok(2) [OF rok that] .
  show ?thesis
  proof (rule that [of ?ps ?ns plan ov r desired, OF refl])
    show "distinct ?ns" using planPreferences_ok(1) [OF rok] by (simp add: prefs_ok_def)
    show "set ?ns = {c \<in> set cs. prefOf rsp c \<noteq> None}" by (simp add: set_preference_names)
    show "map_option fst (getDesiredPlan ?ps est lim T True) = Some desired"
      using getDesiredPlan_keep [of ?ps est lim T True "\<not> avoid \<or> keep"] P(1) by simp
    show "\<forall>c \<in> set ?ns. \<forall>v. map_of ov c = Some v \<longrightarrow> 0 < v \<and> map_of est c = Some (mget 0 desired c)"
      using L ml by auto
    show "sum_list (map MinReplicas ?ps) \<le> T \<longrightarrow> (\<forall>p \<in> set ?ps.
       capTo (map_of est (clusterName p)) (capTo (map_of lim (clusterName p)) (MinReplicas p))
         \<le> mget 0 desired (clusterName p))"
      using L ml P(4) by metis
  qed (use L P ml in blast)+
qed

lemma Plan_caps:
  assumes "plan_input_ok rsp T cs cur est lim"
    and "Plan rsp T cs cur est lim key avoid keep = Some (plan, overflow)"
    and "c \<in> set cs" "prefOf rsp c = Some p"
  shows "map_of lim c = Some v \<or> map_of est c = Some v \<Longrightarrow> mget 0 plan c \<le> v"
    and "\<not> avoid \<Longrightarrow> MaxReplicas p = Some v \<Longrightarrow> mget 0 plan c \<le> v"
proof -
  from assms(1) obtain ps ns desired plan' r ov where P:
    "ps = getNamedPreferences (planPreferences rsp cs) key"
    "set ns = {c \<in> set cs. prefOf rsp c \<noteq> None}"
    "Plan rsp T cs cur est lim key avoid keep =
       Some (plan', if \<not> avoid \<or> keep then ov else trimOverflow r ov)"
    "\<forall>p \<in> set ps. capAll est lim p (mget 0 desired (clusterName p)) = mget 0 desired (clusterName p)"
    "\<not> avoid \<longrightarrow> plan' = desired"
    "avoid \<longrightarrow> (\<forall>c \<in> set ns. between (currentOk cur est lim c) (mget 0 plan' c) (mget 0 desired c))"
    by (rule Plan_facts [where key = key and avoid = avoid and keep = keep]) blast
  have "capAll est lim (named key c p) (mget 0 desired c) = mget 0 desired c"
    using P(4) named_in_preferences [OF assms(3,4), of key] by (auto simp: P(1))
  then have D: "MaxReplicas p = Some v \<or> map_of lim c = Some v \<or> map_of est c = Some v \<Longrightarrow> mget 0 desired c \<le> v" for v
    using capAll_bounds [where p = "named key c p"] by (metis MaxReplicas_named clusterName_named)
  have c: "c \<in> set ns" and pl: "plan' = plan" using P(2,3) assms(2-4) by auto
  then show "map_of lim c = Some v \<or> map_of est c = Some v \<Longrightarrow> mget 0 plan c \<le> v"
    using P(5,6) D by (cases avoid) (auto intro: between_upper currentOk_bounds)
  show "\<not> avoid \<Longrightarrow> MaxReplicas p = Some v \<Longrightarrow> mget 0 plan c \<le> v"
    using P(5) D pl by auto
qed

lemma Plan_shape:
  assumes "plan_input_ok rsp T cs cur est lim"
  shows "\<exists>plan overflow. Plan rsp T cs cur est lim key avoid keep = Some (plan, overflow) \<and>
      wf_map plan \<and> set (mkeys plan) = {c \<in> set cs. prefOf rsp c \<noteq> None} \<and>
      (\<forall>c \<in> set (mkeys plan). 0 \<le> mget 0 plan c) \<and> sum_list (mvals plan) \<le> T \<and>
      (\<exists>desired. map_option fst (getDesiredPlan (getNamedPreferences (planPreferences rsp cs) key) est lim T True)
           = Some desired \<and> mkeys plan = mkeys desired \<and>
         planTotal (mkeys plan) plan = planTotal (mkeys plan) desired)"
proof -
  from assms obtain ps ns desired plan r ov where P:
    "ps = getNamedPreferences (planPreferences rsp cs) key"
    "distinct ns" "set ns = {c \<in> set cs. prefOf rsp c \<noteq> None}"
    "Plan rsp T cs cur est lim key avoid keep =
       Some (plan, if \<not> avoid \<or> keep then ov else trimOverflow r ov)"
    "mkeys plan = ns" "mkeys desired = ns"
    "\<forall>c \<in> set ns. 0 \<le> mget 0 desired c" "planTotal ns desired + r = T" "0 \<le> r"
    "\<not> avoid \<longrightarrow> plan = desired"
    "avoid \<longrightarrow> planTotal ns plan = planTotal ns desired \<and>
       (\<forall>c \<in> set ns. between (currentOk cur est lim c) (mget 0 plan c) (mget 0 desired c))"
    "map_option fst (getDesiredPlan ps est lim T True) = Some desired"
    by (rule Plan_facts [where key = key and avoid = avoid and keep = keep]) blast
  have "0 \<le> currentOk cur est lim c" for c
    using assms by (simp add: plan_input_ok_def currentOk_nonneg)
  then have "\<forall>c \<in> set ns. 0 \<le> mget 0 plan c"
    using P(7,10,11) by (cases avoid) (auto intro: between_lower)
  moreover have "planTotal ns plan = planTotal ns desired" using P(10,11) by (cases avoid) auto
  moreover have "sum_list (mvals plan) = planTotal ns plan" by (rule sum_mvals_planTotal [OF P(5,2)])
  moreover have "wf_map plan" using P(2,5) by (simp add: wf_map_def mkeys_def)
  ultimately show ?thesis using P by auto
qed

lemma plan_input_ok_replan:
  assumes "plan_input_ok rsp T cs cur est lim" "wf_map plan"
    and "set (mkeys plan) = {c \<in> set cs. prefOf rsp c \<noteq> None}"
    and "\<forall>c \<in> set (mkeys plan). 0 \<le> mget 0 plan c" "sum_list (mvals plan) \<le> T"
  shows "plan_input_ok rsp T cs plan est lim"
proof -
  have "mset (planNames rsp cs) = mset (mkeys plan)"
    using assms(2,3) wf_map_planPreferences [of rsp cs] set_planNames [of rsp cs]
    by (intro set_eq_iff_mset_eq_distinct [THEN iffD1]) (simp_all add: planNames_def mkeys_def wf_map_def)
  then have "planTotal (planNames rsp cs) plan = sum_list (mvals plan)"
    using planTotal_mset sum_mvals_planTotal [OF refl, of plan] assms(2) by (simp add: wf_map_def mkeys_def)
  moreover have "0 \<le> sum_list (mvals plan)"
    unfolding mvals_mget [OF assms(2), of 0] using assms(4) by (auto intro!: sum_list_nonneg)
  moreover have "plan_fits T T" using assms(1) by (simp add: plan_input_ok_def)
  ultimately have "plan_fits (planTotal (planNames rsp cs) plan) (planTotal (planNames rsp cs) plan)"
    using assms(5) by (auto intro: plan_fits_mono [of T T])
  then show ?thesis using assms(1) caps_okI [OF assms(2,4)] by (simp add: plan_input_ok_def)
qed

lemma currentOk_id:
  "(\<And>v. map_of lim c = Some v \<or> map_of est c = Some v \<Longrightarrow> mget 0 cur c \<le> v) \<Longrightarrow>
   currentOk cur est lim c = mget 0 cur c"
proof -
  assume a: "\<And>v. map_of lim c = Some v \<or> map_of est c = Some v \<Longrightarrow> mget 0 cur c \<le> v"
  have "\<not> exceeds (map_of lim c) (mget 0 cur c)" "\<not> exceeds (map_of est c) (mget 0 cur c)"
    using a by (fastforce simp: exceeds_def split: option.splits)+
  then show ?thesis by (simp add: currentOk_def capTo_id)
qed

lemma minStep_no_estimate: "snd (snd (minStep [] lim p (r, plan, ov))) = ov"
  by (simp add: minStep_def Let_def exceeds_def)

lemma minPhase_no_estimate: "snd (snd (fold (minStep [] lim) ps st)) = snd (snd st)"
proof (induction ps arbitrary: st)
  case (Cons p ps)
  then show ?case using minStep_no_estimate by (metis fold_simps(2) prod.collapse)
qed simp

lemma distStep_no_estimate: "fst (snd (snd (distStep [] lim D V p st))) = fst (snd (snd st))"
  by (cases st) (simp add: distStep_def Let_def exceeds_def)

lemma distPass_no_estimate: "fst (snd (snd (fold (distStep [] lim D V) ps st))) = fst (snd (snd st))"
  by (induction ps arbitrary: st) (simp_all add: distStep_no_estimate)

lemma distLoop_no_estimate:
  assumes "distLoop [] lim ps md r plan ov = Some res"
  shows "snd (snd res) = ov"
proof -
  have "[] = ([] :: replicas) \<longrightarrow> snd (snd res) = ov"
  proof (rule distLoop.raw_induct [of "\<lambda>est lim ps md r plan ov res. est = [] \<longrightarrow> snd (snd res) = ov", OF _ assms],
      rule impI)
    fix loop and est lim :: replicas and ps md r plan ov res
    assume IH: "\<And>est lim ps md r plan ov res. loop est lim ps md r plan ov = Some res \<Longrightarrow>
        est = [] \<longrightarrow> snd (snd res) = ov"
      and body: "(if md \<and> 0 < r then let weightSum = sum64 (map Weight ps) in
          if weightSum \<le> 0 then Some (r, plan, ov)
          else case fold (distStep est lim r weightSum) ps (r, plan, ov, [], False) of
            (r', plan', ov', new, md') \<Rightarrow> loop est lim new md' r' plan' ov'
        else Some (r, plan, ov)) = Some res"
      and e: "est = []"
    show "snd (snd res) = ov"
    proof (cases "md \<and> 0 < r \<and> \<not> sum64 (map Weight ps) \<le> 0")
      case True
      obtain r' plan' ov' new md'
        where f: "fold (distStep est lim r (sum64 (map Weight ps))) ps (r, plan, ov, [], False) = (r', plan', ov', new, md')"
        by (cases "fold (distStep est lim r (sum64 (map Weight ps))) ps (r, plan, ov, [], False)")
      then have "ov' = ov"
        using distPass_no_estimate [of lim r "sum64 (map Weight ps)" ps "(r, plan, ov, [], False)"] e by simp
      moreover have "loop est lim new md' r' plan' ov' = Some res" using body True f by (simp add: Let_def)
      ultimately show ?thesis using IH e by blast
    next
      case False
      then show ?thesis using body by (auto simp: Let_def split: if_splits)
    qed
  qed
  then show ?thesis by simp
qed

lemma getDesiredPlan_no_estimate:
  "getDesiredPlan ps [] lim T keep = Some (plan, ov) \<Longrightarrow> ov = []"
  using minPhase_no_estimate [of lim ps "(T, [], [])"]
  by (auto simp: getDesiredPlan_def trimOverflow_def split: prod.splits option.splits if_splits
      dest!: distLoop_no_estimate)

text \<open>Without estimates there is no overflow, whatever the mode.\<close>

lemma Plan_no_estimate: "Plan rsp T cs cur [] lim key avoid keep = Some (plan, ov) \<Longrightarrow> ov = []"
  by (auto simp: Plan_def Let_def split: option.splits if_splits dest!: getDesiredPlan_no_estimate)

text \<open>The total of a plan, and when everything is placed.\<close>

lemma Plan_places_all:
  assumes "plan_input_ok rsp T cs cur est lim"
    and "Plan rsp T cs cur est lim key avoid keep = Some (plan, overflow)"
    and "c \<in> set cs" "prefOf rsp c = Some p" "0 < Weight p" "MaxReplicas p = None"
    and "map_of lim c = None" "map_of est c = None"
  shows "sum_list (mvals plan) = T"
proof -
  from assms(1) obtain ps ns desired plan' r ov where P:
    "ps = getNamedPreferences (planPreferences rsp cs) key" "distinct ns"
    "Plan rsp T cs cur est lim key avoid keep =
       Some (plan', if \<not> avoid \<or> keep then ov else trimOverflow r ov)"
    "mkeys plan' = ns" "planTotal ns desired + r = T" "r = 0 \<or> settled est lim ps desired"
    "\<not> avoid \<longrightarrow> plan' = desired" "avoid \<longrightarrow> planTotal ns plan' = planTotal ns desired"
    by (rule Plan_facts [where key = key and avoid = avoid and keep = keep]) blast
  have "\<not> settled est lim ps desired"
    using named_in_preferences [OF assms(3,4), of key] assms(5-8)
    by (auto simp: settled_def list_all_iff P(1) saturated_named intro!: bexI [of _ "named key c p"])
  then have "r = 0" using P(6) by blast
  moreover have "planTotal ns plan' = planTotal ns desired" using P(7,8) by (cases avoid) auto
  ultimately show ?thesis using P assms(2) sum_mvals_planTotal [OF P(4,2)] by auto
qed

lemma sample_ok: "plan_input_ok sampleRsp 12 sampleClusters sampleCurrent sampleEstimated sampleLimited"
  by code_simp

lemma sample_plan:
  "Plan sampleRsp 12 sampleClusters sampleCurrent sampleEstimated sampleLimited ''k'' False False =
     Some ([(''A'', 4), (''C'', 3), (''B'', 2)], [(''B'', 1)])"
  by code_simp

lemma sample_plan_avoid:
  "Plan sampleRsp 12 sampleClusters sampleCurrent sampleEstimated sampleLimited ''k'' True False =
     Some ([(''A'', 5), (''C'', 3), (''B'', 1)], [(''B'', 1)])"
  by code_simp

lemma sample_prefs:
  "prefOf sampleRsp ''A'' = Some \<lparr>MinReplicas = 1, MaxReplicas = Some 4, Weight = 2\<rparr>"
  "prefOf sampleRsp ''B'' = Some \<lparr>MinReplicas = 0, MaxReplicas = Some 3, Weight = 1\<rparr>"
  by code_simp+


section \<open>Properties\<close>

text \<open>
  C1.  \<open>Plan\<close> returns: the distribution loop ends for every input in range, in both modes, and
  the plan names exactly the available clusters that have a preference (their own or the one of
  \<open>"*"\<close>), each once, with a non-negative number of replicas, and never more than the total.
\<close>

theorem Plan_total:
  assumes "plan_input_ok rsp T cs cur est lim"
  shows "\<exists>plan overflow. Plan rsp T cs cur est lim key avoid keep = Some (plan, overflow) \<and>
      distinct (mkeys plan) \<and> set (mkeys plan) = {c \<in> set cs. prefOf rsp c \<noteq> None} \<and>
      (\<forall>c \<in> set (mkeys plan). 0 \<le> mget 0 plan c) \<and> sum_list (mvals plan) \<le> T"
  using Plan_shape [OF assms, of key avoid keep] by (auto simp: wf_map_def mkeys_def)

theorem Plan_total_witness:
  "plan_input_ok sampleRsp 12 sampleClusters sampleCurrent sampleEstimated sampleLimited \<and>
   (\<exists>plan overflow. Plan sampleRsp 12 sampleClusters sampleCurrent sampleEstimated sampleLimited ''k'' True True =
      Some (plan, overflow) \<and> sum_list (mvals plan) \<le> 12)"
  using Plan_total [OF sample_ok, of "''k''" True True] sample_ok by blast



text \<open>
  C3.  Capacities are respected in both modes: a planned cluster never gets more than its limited
  nor more than its estimated capacity, and without disruption avoidance not more than its maximum.
\<close>

theorem Plan_bounds:
  assumes "plan_input_ok rsp T cs cur est lim"
    and "Plan rsp T cs cur est lim key avoid keep = Some (plan, overflow)"
    and "c \<in> set cs" "prefOf rsp c = Some p"
  shows "\<forall>v. (map_of lim c = Some v \<or> map_of est c = Some v \<or> (\<not> avoid \<and> MaxReplicas p = Some v)) \<longrightarrow>
      mget 0 plan c \<le> v"
  using Plan_caps [OF assms] by blast

theorem Plan_bounds_witness: "mget 0 [(''A'', 5), (''C'', 3), (''B'', 1)] ''B'' \<le> (2 :: int)"
proof -
  have "''B'' \<in> set sampleClusters" by code_simp
  from Plan_bounds [OF sample_ok sample_plan_avoid this sample_prefs(2)] show ?thesis
    by (simp add: sampleEstimated_def)
qed



text \<open>
  C5.  With disruption avoidance replicas are never moved between clusters: a scale-up takes no
  running (and still fitting) replica away, a scale-down adds none anywhere, every cluster ends
  between what runs and what the preferences ask for, and the total is the one of the desired plan.
\<close>

theorem Plan_no_migration:
  assumes "plan_input_ok rsp T cs cur est lim"
    and "Plan rsp T cs cur est lim key False keep = Some (desired, overflow)"
    and "ns = mkeys desired"
  shows "\<exists>plan overflow'. Plan rsp T cs cur est lim key True keep = Some (plan, overflow') \<and>
      mkeys plan = ns \<and> sum_list (mvals plan) = sum_list (mvals desired) \<and>
      (\<forall>c \<in> set ns. between (currentOk cur est lim c) (mget 0 plan c) (mget 0 desired c)) \<and>
      (sum_list (map (currentOk cur est lim) ns) \<le> sum_list (mvals desired) \<longrightarrow>
         (\<forall>c \<in> set ns. currentOk cur est lim c \<le> mget 0 plan c)) \<and>
      (sum_list (mvals desired) \<le> sum_list (map (currentOk cur est lim) ns) \<longrightarrow>
         (\<forall>c \<in> set ns. mget 0 plan c \<le> currentOk cur est lim c))"
proof -
  let ?ps = "getNamedPreferences (planPreferences rsp cs) key"
  from assms(1) obtain ps ns' d r ov where D: "ps = ?ps" "mkeys d = ns'"
    "Plan rsp T cs cur est lim key False keep = Some (d, ov)"
    "map_option fst (getDesiredPlan ps est lim T True) = Some d"
    by (rule Plan_facts [where key = key and avoid = False and keep = keep]) simp
  from assms(1) obtain ps2 ns2 d2 plan r2 ov2 where A: "ps2 = ?ps" "distinct ns2"
    "Plan rsp T cs cur est lim key True keep = Some (plan, if keep then ov2 else trimOverflow r2 ov2)"
    "mkeys plan = ns2" "mkeys d2 = ns2"
    "planTotal ns2 plan = planTotal ns2 d2 \<and>
       (\<forall>c \<in> set ns2. between (currentOk cur est lim c) (mget 0 plan c) (mget 0 d2 c)) \<and>
       (sum_list (map (currentOk cur est lim) ns2) \<le> planTotal ns2 d2 \<longrightarrow>
          (\<forall>c \<in> set ns2. currentOk cur est lim c \<le> mget 0 plan c)) \<and>
       (planTotal ns2 d2 \<le> sum_list (map (currentOk cur est lim) ns2) \<longrightarrow>
          (\<forall>c \<in> set ns2. mget 0 plan c \<le> currentOk cur est lim c))"
    "map_option fst (getDesiredPlan ps2 est lim T True) = Some d2"
    by (rule Plan_facts [where key = key and avoid = True and keep = keep]) simp
  have "d2 = desired" "ns2 = ns" using D A assms(2,3) by auto
  then show ?thesis
    using A sum_mvals_planTotal [OF A(4,2)] sum_mvals_planTotal [OF A(5,2)] by auto
qed


theorem Plan_no_migration_witness:
  "\<exists>plan overflow. Plan sampleRsp 12 sampleClusters sampleCurrent sampleEstimated sampleLimited ''k'' True False =
      Some (plan, overflow) \<and> sum_list (mvals plan) = 9"
  using Plan_no_migration [OF sample_ok sample_plan refl] by (auto simp: mvals_def)

text \<open>
  C6.  A plan is a fixed point of disruption-avoiding planning: feeding the planned replicas back
  as the running ones, with the same capacities, returns the same plan.
\<close>

theorem Plan_stable:
  assumes "plan_input_ok rsp T cs cur est lim"
    and "Plan rsp T cs cur est lim key avoid keep = Some (plan, overflow)"
  shows "\<exists>overflow'. Plan rsp T cs plan est lim key True keep = Some (plan, overflow')"
proof -
  let ?d = "getDesiredPlan (getNamedPreferences (planPreferences rsp cs) key) est lim T True"
  obtain desired where D: "wf_map plan" "set (mkeys plan) = {c \<in> set cs. prefOf rsp c \<noteq> None}"
    "\<forall>c \<in> set (mkeys plan). 0 \<le> mget 0 plan c" "sum_list (mvals plan) \<le> T"
    "map_option fst ?d = Some desired" "mkeys plan = mkeys desired"
    "planTotal (mkeys plan) plan = planTotal (mkeys plan) desired"
    using Plan_shape [OF assms(1), of key avoid keep] assms(2) by auto
  have fits: "currentOk plan est lim c = mget 0 plan c" if "c \<in> set (mkeys plan)" for c
    using that D(2) Plan_caps(1) [OF assms] by (intro currentOk_id) auto
  from plan_input_ok_replan [OF assms(1) D(1-4)]
  obtain ps2 ns2 d2 plan2 r2 ov2 where A: "ps2 = getNamedPreferences (planPreferences rsp cs) key"
    "Plan rsp T cs plan est lim key True keep = Some (plan2, if keep then ov2 else trimOverflow r2 ov2)"
    "mkeys plan2 = ns2" "mkeys d2 = ns2"
    "sum_list (map (currentOk plan est lim) ns2) \<le> planTotal ns2 d2 \<longrightarrow>
          (\<forall>c \<in> set ns2. currentOk plan est lim c \<le> mget 0 plan2 c)"
    "planTotal ns2 d2 \<le> sum_list (map (currentOk plan est lim) ns2) \<longrightarrow>
          (\<forall>c \<in> set ns2. mget 0 plan2 c \<le> currentOk plan est lim c)"
    "map_option fst (getDesiredPlan ps2 est lim T True) = Some d2"
    by (rule Plan_facts [where key = key and avoid = True and keep = keep]) simp
  have d2: "d2 = desired" "ns2 = mkeys plan" using D A by auto
  have "sum_list (map (currentOk plan est lim) (mkeys plan)) = planTotal (mkeys plan) desired"
    using D(7) fits by (simp add: planTotal_def cong: map_cong)
  then have "\<forall>c \<in> set (mkeys plan). mget 0 plan2 c = mget 0 plan c"
    using A(5,6) fits d2 by (auto intro: order_antisym)
  then have "plan2 = plan"
    using D(1) A(3) d2 by (intro gomap_eqI [of _ _ 0]) auto
  then show ?thesis using A(2) by blast
qed

theorem Plan_stable_witness:
  "\<exists>overflow'. Plan sampleRsp 12 sampleClusters [(''A'', 5), (''C'', 3), (''B'', 1)] sampleEstimated sampleLimited
      ''k'' True False = Some ([(''A'', 5), (''C'', 3), (''B'', 1)], overflow')"
  using Plan_stable [OF sample_ok sample_plan_avoid] .



text \<open>
  Overflow is reported only where the estimated capacity is exhausted: in a plan that keeps
  unschedulable replicas every overflow is positive and its cluster is planned at exactly its
  estimated capacity.
\<close>

lemma Plan_overflow:
  assumes "plan_input_ok rsp T cs cur est lim"
    and "Plan rsp T cs cur est lim key False keep = Some (plan, overflow)"
    and "c \<in> set cs" "prefOf rsp c = Some p" "map_of overflow c = Some v"
  shows "0 < v \<and> map_of est c = Some (mget 0 plan c)"
proof -
  from assms(1) obtain ns desired plan' ov where P:
    "set ns = {c \<in> set cs. prefOf rsp c \<noteq> None}"
    "Plan rsp T cs cur est lim key False keep = Some (plan', ov)"
    "\<forall>c \<in> set ns. \<forall>v. map_of ov c = Some v \<longrightarrow> 0 < v \<and> map_of est c = Some (mget 0 desired c)"
    "plan' = desired"
    by (rule Plan_facts [where key = key and avoid = False and keep = keep]) simp
  then show ?thesis using assms by auto
qed


end
