(* ===== verification/BinPack.thy ===== *)
theory BinPack
  imports Go_Prelude
begin

text \<open>
  The bin-packing replica planner of the \<open>PreferenceBinPack\<close> plugin,
  \<open>pkg/controllers/scheduler/framework/plugins/preferencebinpack/planner.go\<close>: clusters are filled
  one after the other in the order of preference, each up to its maximum and its capacities.
  Both loops of \<open>getDesiredPlan\<close> are folds over the preferences, so the planner is total.
\<close>


section \<open>Model\<close>

record ClusterPreferences =
  MinReplicas :: int64
  MaxReplicas :: "int64 option"

record namedClusterPreferences = ClusterPreferences +
  clusterName :: string

record ReplicaSchedulingPreference =
  Clusters :: "(string, ClusterPreferences) gomap"

definition noPreference :: ClusterPreferences where
  "noPreference = \<lparr>MinReplicas = 0, MaxReplicas = None\<rparr>"

definition maxInt64 :: "int64 \<Rightarrow> int64 \<Rightarrow> int64" where
  "maxInt64 a b = (if a > b then a else b)"

type_synonym packState = "int64 \<times> replicas \<times> replicas"

definition packMinStep ::
    "replicas \<Rightarrow> replicas \<Rightarrow> namedClusterPreferences \<Rightarrow> packState \<Rightarrow> packState" where
  "packMinStep estimatedCapacity limitedCapacity preference = (\<lambda>(remaining, plan, overflow).
     let name = clusterName preference;
         min0 = minInt64 (MinReplicas preference) remaining;
         min1 = capTo (map_of limitedCapacity name) min0;
         overflow' = (if exceeds (map_of estimatedCapacity name) min1
                      then mput name (sub64 min1 (mget 0 estimatedCapacity name)) overflow
                      else overflow);
         min2 = capTo (map_of estimatedCapacity name) min1
     in (sub64 remaining min2, mput name min2 plan, overflow'))"

definition packFillStep ::
    "replicas \<Rightarrow> replicas \<Rightarrow> namedClusterPreferences \<Rightarrow> packState \<Rightarrow> packState" where
  "packFillStep estimatedCapacity limitedCapacity preference = (\<lambda>(remaining, plan, overflow).
     let name = clusterName preference;
         start = mget 0 plan name;
         total0 = add64 start remaining;
         total1 = capTo (MaxReplicas preference) total0;
         total2 = capTo (map_of limitedCapacity name) total1;
         overflow' = (if exceeds (map_of estimatedCapacity name) total2
                      then mput name (maxInt64 (sub64 total2 (mget 0 estimatedCapacity name))
                                               (mget 0 overflow name)) overflow
                      else overflow);
         total = capTo (map_of estimatedCapacity name) total2
     in (sub64 remaining (sub64 total start), mput name total plan, overflow'))"

definition getDesiredPlan ::
    "namedClusterPreferences list \<Rightarrow> replicas \<Rightarrow> replicas \<Rightarrow> int64 \<Rightarrow> replicas \<times> replicas" where
  "getDesiredPlan preferences estimatedCapacity limitedCapacity totalReplicas =
     snd (fold (packFillStep estimatedCapacity limitedCapacity) preferences
            (fold (packMinStep estimatedCapacity limitedCapacity) preferences (totalReplicas, [], [])))"

definition scaleUp ::
    "ReplicaSchedulingPreference \<Rightarrow> replicas \<Rightarrow> replicas \<Rightarrow> replicas \<Rightarrow> int64 \<Rightarrow> string list \<Rightarrow> replicas" where
  "scaleUp rsp current desired limitedCapacity scaleUpCount availableClusters =
     (let namedPreferences =
            map (\<lambda>cluster.
                   \<lparr>MinReplicas = MinReplicas (mget noPreference (Clusters rsp) cluster),
                    MaxReplicas = map_option (\<lambda>m. sub64 m (mget 0 current cluster))
                                    (MaxReplicas (mget noPreference (Clusters rsp) cluster)),
                    clusterName = cluster\<rparr>)
                (filter (\<lambda>cluster. mget 0 desired cluster > mget 0 current cluster) availableClusters);
          replicasToScaleUp = fst (getDesiredPlan namedPreferences [] limitedCapacity scaleUpCount)
      in fold (\<lambda>(c, n) m. mput c (add64 (mget 0 m c) n) m) replicasToScaleUp current)"

definition scaleDown :: "replicas \<Rightarrow> replicas \<Rightarrow> int64 \<Rightarrow> string list \<Rightarrow> replicas" where
  "scaleDown current desired scaleDownCount availableClusters =
     (let namedPreferences =
            rev (map (\<lambda>cluster.
                        \<lparr>MinReplicas = 0, MaxReplicas = Some (mget 0 current cluster),
                         clusterName = cluster\<rparr>)
                     (filter (\<lambda>cluster. mget 0 desired cluster < mget 0 current cluster) availableClusters));
          replicasToScaleDown = fst (getDesiredPlan namedPreferences [] [] scaleDownCount)
      in fold (\<lambda>(c, n) m. mput c (sub64 (mget 0 m c) n) m) replicasToScaleDown current)"

definition isScheduledClustersRemoved :: "string list \<Rightarrow> replicas \<Rightarrow> bool" where
  "isScheduledClustersRemoved availableClusters current =
     list_ex (\<lambda>(cluster, _). cluster \<notin> set availableClusters) current"

definition isEstimatedCapacityAvailable :: "replicas \<Rightarrow> replicas \<Rightarrow> replicas \<Rightarrow> bool" where
  "isEstimatedCapacityAvailable current estimatedCapacity scheduledReplicas =
     list_all (\<lambda>(cluster, n).
         case map_of estimatedCapacity cluster of
           Some capacity \<Rightarrow> capacity = n
         | None \<Rightarrow> n = mget 0 current cluster) scheduledReplicas"

definition shouldPlan ::
    "string list \<Rightarrow> replicas \<Rightarrow> replicas \<Rightarrow> replicas \<Rightarrow> replicas \<Rightarrow> bool" where
  "shouldPlan availableClusters current limitedCapacity estimatedCapacity scheduledReplicas =
     (if isScheduledClustersRemoved availableClusters current then True
      else if list_ex (\<lambda>(cluster, n). exceeds (map_of limitedCapacity cluster) n) current then True
      else isEstimatedCapacityAvailable current estimatedCapacity scheduledReplicas)"

definition packPreferences ::
    "ReplicaSchedulingPreference \<Rightarrow> string list \<Rightarrow> namedClusterPreferences list" where
  "packPreferences rsp availableClusters =
     map (\<lambda>cluster. \<lparr>MinReplicas = MinReplicas (mget noPreference (Clusters rsp) cluster),
                      MaxReplicas = MaxReplicas (mget noPreference (Clusters rsp) cluster),
                      clusterName = cluster\<rparr>) availableClusters"

text \<open>The loop that collects the current plan and the totals of running and of scheduled replicas.\<close>

definition currentTotals ::
    "namedClusterPreferences list \<Rightarrow> replicas \<Rightarrow> replicas \<Rightarrow> replicas \<Rightarrow> replicas
     \<Rightarrow> replicas \<times> int64 \<times> int64" where
  "currentTotals preferences current estimatedCapacity limitedCapacity scheduledReplicas =
     fold (\<lambda>p (plan, ok, scheduled).
             let name = clusterName p;
                 n = capTo (map_of limitedCapacity name)
                       (capTo (map_of estimatedCapacity name) (mget 0 current name))
             in (mput name n plan, add64 ok n,
                 (case map_of scheduledReplicas name of
                    None \<Rightarrow> scheduled
                  | Some s \<Rightarrow> add64 scheduled (capTo (map_of limitedCapacity name) s))))
          preferences ([], 0, 0)"

definition Plan ::
    "ReplicaSchedulingPreference \<Rightarrow> int64 \<Rightarrow> string list \<Rightarrow> replicas \<Rightarrow> replicas \<Rightarrow> replicas
     \<Rightarrow> bool \<Rightarrow> bool \<Rightarrow> replicas \<Rightarrow> replicas \<times> replicas" where
  "Plan rsp totalReplicas availableClusters current estimatedCapacity limitedCapacity
        avoidDisruption keepUnschedulableReplicas scheduledReplicas =
     (if \<not> shouldPlan availableClusters current limitedCapacity estimatedCapacity scheduledReplicas
      then (current, [])
      else
        let preferences = packPreferences rsp availableClusters;
            keep = (if \<not> avoidDisruption then True else keepUnschedulableReplicas) in
        case getDesiredPlan preferences estimatedCapacity limitedCapacity totalReplicas of
          (desiredPlan, desiredOverflow) \<Rightarrow>
        (case currentTotals preferences current estimatedCapacity limitedCapacity scheduledReplicas of
          (currentPlan, currentTotalOk, currentTotalScheduled) \<Rightarrow>
        if \<not> keep \<and> currentTotalScheduled = totalReplicas then (scheduledReplicas, [])
        else if \<not> avoidDisruption then (desiredPlan, desiredOverflow)
        else
          let desiredTotal = sum64 (mvals desiredPlan);
              overflow = (if \<not> keep
                          then filter (\<lambda>(key, value). value > 0)
                                 (map (\<lambda>(key, value).
                                    (key, minInt64 value (sub64 totalReplicas currentTotalScheduled)))
                                  desiredOverflow)
                          else desiredOverflow) in
          if currentTotalOk = desiredTotal then (currentPlan, overflow)
          else if currentTotalOk > desiredTotal then
            (scaleDown currentPlan desiredPlan (sub64 currentTotalOk totalReplicas) availableClusters, overflow)
          else
            (scaleUp rsp currentPlan desiredPlan limitedCapacity
               (sub64 totalReplicas currentTotalOk) availableClusters, overflow)))"


text \<open>Vocabulary of the statements.\<close>

definition pack_ok :: "namedClusterPreferences list \<Rightarrow> bool" where
  "pack_ok ps \<longleftrightarrow> distinct (map clusterName ps) \<and>
     list_all (\<lambda>p. 0 \<le> MinReplicas p \<and>
       (case MaxReplicas p of None \<Rightarrow> True | Some m \<Rightarrow> MinReplicas p \<le> m)) ps"

definition packCap :: "replicas \<Rightarrow> replicas \<Rightarrow> namedClusterPreferences \<Rightarrow> int \<Rightarrow> int" where
  "packCap est lim p = cap3 (map_of est (clusterName p)) (map_of lim (clusterName p)) (MaxReplicas p)"

definition packMin :: "replicas \<Rightarrow> replicas \<Rightarrow> namedClusterPreferences \<Rightarrow> int \<Rightarrow> int" where
  "packMin est lim p r =
     capTo (map_of est (clusterName p)) (capTo (map_of lim (clusterName p)) (min (MinReplicas p) r))"

definition packFull :: "replicas \<Rightarrow> replicas \<Rightarrow> namedClusterPreferences \<Rightarrow> int \<Rightarrow> bool" where
  "packFull est lim p v \<longleftrightarrow>
     Some v \<in> {map_of est (clusterName p), map_of lim (clusterName p), MaxReplicas p}"

text \<open>The example the witnesses evaluate.\<close>

definition packSample :: "namedClusterPreferences list" where
  "packSample = [\<lparr>MinReplicas = 1, MaxReplicas = Some 4, clusterName = ''A''\<rparr>,
                 \<lparr>MinReplicas = 2, MaxReplicas = None, clusterName = ''B''\<rparr>,
                 \<lparr>MinReplicas = 0, MaxReplicas = None, clusterName = ''C''\<rparr>]"


section \<open>The two loops\<close>

lemma in64_T: "0 \<le> x \<Longrightarrow> x \<le> T \<Longrightarrow> T < 2 ^ 62 \<Longrightarrow> in64 x"
  by (simp add: in64_def)

lemma packMinStep_exact:
  assumes "0 \<le> MinReplicas p" "caps_ok est" "caps_ok lim" "T < 2 ^ 62" "0 \<le> r" "r \<le> T"
    and m: "m = packMin est lim p r"
  shows "\<exists>ov'. packMinStep est lim p (r, plan, ov) = (r - m, mput (clusterName p) m plan, ov')"
    and "0 \<le> m" "m \<le> r" "m \<le> MinReplicas p"
proof -
  show m0: "0 \<le> m"
    unfolding m packMin_def using assms by (intro capTo_nonneg) (auto dest: caps_okD)
  have "m \<le> min (MinReplicas p) r" unfolding m packMin_def by (meson capTo_le order_trans)
  then show "m \<le> r" "m \<le> MinReplicas p" by auto
  then have "sub64 r m = r - m" using m0 assms by (intro sub64_exact in64_T [of _ T]) auto
  then show "\<exists>ov'. packMinStep est lim p (r, plan, ov) = (r - m, mput (clusterName p) m plan, ov')"
    by (auto simp: packMinStep_def Let_def m packMin_def minInt64_min)
qed

lemma packMin_run:
  assumes "caps_ok est" "caps_ok lim" "T < 2 ^ 62" "distinct ns"
    and "list_all (\<lambda>p. 0 \<le> MinReplicas p) ps" "distinct (map clusterName ps)"
    and "set (map clusterName ps) \<subseteq> set ns" "plan_inv ns T r plan"
    and "set (map clusterName ps) \<inter> set (mkeys plan) = {}"
  shows "\<exists>r' plan' ov'. fold (packMinStep est lim) ps (r, plan, ov) = (r', plan', ov') \<and>
      plan_inv ns T r' plan' \<and> mkeys plan' = mkeys plan @ map clusterName ps \<and>
      (\<forall>n. n \<notin> clusterName ` set ps \<longrightarrow> mget 0 plan' n = mget 0 plan n) \<and>
      (\<forall>p \<in> set ps. \<exists>x. mget 0 plan' (clusterName p) = packMin est lim p x \<and>
         (sum_list (map MinReplicas ps) \<le> r \<longrightarrow> MinReplicas p \<le> x))"
  using assms(5-9)
proof (induction ps arbitrary: r plan ov)
  case Nil
  then show ?case by simp
next
  case (Cons p ps)
  let ?n = "clusterName p"
  let ?m = "packMin est lim p r"
  have p: "0 \<le> MinReplicas p" "?n \<in> set ns" "?n \<notin> set (mkeys plan)" using Cons.prems by auto
  have r: "0 \<le> r" "r \<le> T"
    using Cons.prems(4) by (auto simp: plan_inv_def planTotal_def list_all_iff intro!: sum_list_nonneg)
  note M = packMinStep_exact [OF p(1) assms(1-3) r refl]
  obtain ov1 where st: "packMinStep est lim p (r, plan, ov) = (r - ?m, mput ?n ?m plan, ov1)"
    using M(1) by blast
  have "plan_inv ns T (r - ?m) (mput ?n ?m plan)"
    using M(2,3) Cons.prems(4) p(2,3) assms(4)
    by (auto simp: plan_inv_def planTotal_mput list_all_iff mget_mput mget_notin)
  moreover have "set (map clusterName ps) \<inter> set (mkeys (mput ?n ?m plan)) = {}"
    using Cons.prems by (auto simp: set_mkeys_mput)
  ultimately obtain r' plan' ov' where F: "fold (packMinStep est lim) ps (r - ?m, mput ?n ?m plan, ov1) = (r', plan', ov')"
      "plan_inv ns T r' plan'" "mkeys plan' = mkeys (mput ?n ?m plan) @ map clusterName ps"
      "\<forall>n. n \<notin> clusterName ` set ps \<longrightarrow> mget 0 plan' n = mget 0 (mput ?n ?m plan) n"
      "\<forall>p \<in> set ps. \<exists>x. mget 0 plan' (clusterName p) = packMin est lim p x \<and>
         (sum_list (map MinReplicas ps) \<le> r - ?m \<longrightarrow> MinReplicas p \<le> x)"
    using Cons.IH [of "r - ?m" "mput ?n ?m plan" ov1] Cons.prems by auto
  have "0 \<le> sum_list (map MinReplicas ps)"
    using Cons.prems(1) by (auto simp: list_all_iff intro!: sum_list_nonneg)
  then have "\<exists>x. mget 0 plan' ?n = packMin est lim p x \<and>
      (sum_list (map MinReplicas (p # ps)) \<le> r \<longrightarrow> MinReplicas p \<le> x)"
    using F(4) Cons.prems(2) by (intro exI [of _ r]) (auto simp: mget_mput)
  moreover have "\<exists>x. mget 0 plan' (clusterName q) = packMin est lim q x \<and>
      (sum_list (map MinReplicas (p # ps)) \<le> r \<longrightarrow> MinReplicas q \<le> x)" if "q \<in> set ps" for q
    using F(5) that M(4) by fastforce
  moreover have "\<forall>n. n \<notin> clusterName ` set (p # ps) \<longrightarrow> mget 0 plan' n = mget 0 plan n"
    using F(4) by (simp add: mget_mput)
  ultimately show ?case
    using F(1-3) st p(3) by (simp add: mkeys_mput_fresh)
qed

lemma packFillStep_exact:
  assumes "caps_ok est" "caps_ok lim" "T < 2 ^ 62" "distinct ns" "clusterName p \<in> set ns"
    and "case MaxReplicas p of None \<Rightarrow> True | Some m \<Rightarrow> 0 \<le> m"
    and "plan_inv ns T r plan"
    and t: "t = packCap est lim p (mget 0 plan (clusterName p) + r)"
  shows "\<exists>ov'. packFillStep est lim p (r, plan, ov) =
      (r - (t - mget 0 plan (clusterName p)), mput (clusterName p) t plan, ov')"
    and "plan_inv ns T (r - (t - mget 0 plan (clusterName p))) (mput (clusterName p) t plan)"
proof -
  let ?s = "mget 0 plan (clusterName p)"
  have s: "0 \<le> ?s" "?s + r \<le> T" and r: "0 \<le> r"
    using planTotal_bound [OF assms(7,5)] assms(7) by (auto simp: plan_inv_def)
  have t0: "0 \<le> t" unfolding t packCap_def
    using assms(1,2,6) s r by (intro cap3_nonneg) (auto dest: caps_okD)
  have t1: "t \<le> ?s + r" unfolding t packCap_def by (rule cap3_le)
  have "add64 ?s r = ?s + r" using s r assms(3) by (intro add64_exact in64_T [of _ T]) auto
  moreover have "sub64 t ?s = t - ?s"
    using s r t0 t1 assms(3) by (intro sub64_exact) (auto simp: in64_def)
  moreover have "sub64 r (t - ?s) = r - (t - ?s)"
    using s r t0 t1 assms(3) by (intro sub64_exact in64_T [of _ T]) auto
  ultimately show "\<exists>ov'. packFillStep est lim p (r, plan, ov) = (r - (t - ?s), mput (clusterName p) t plan, ov')"
    by (auto simp: packFillStep_def Let_def t packCap_def cap3_def)
  show "plan_inv ns T (r - (t - ?s)) (mput (clusterName p) t plan)"
    using assms(4,5,7) t0 t1
    by (auto simp: plan_inv_def planTotal_mput list_all_iff mget_mput)
qed

text \<open>
  The filling loop, started with every cluster below its caps: nothing is taken away, a cluster is
  either full afterwards or took everything that was left, and what comes after it gets nothing.
\<close>

lemma packFill_run:
  assumes "caps_ok est" "caps_ok lim" "T < 2 ^ 62" "distinct ns"
    and "distinct (map clusterName ps)" "set (map clusterName ps) \<subseteq> set ns"
    and "\<forall>p \<in> set ps. case MaxReplicas p of None \<Rightarrow> True | Some m \<Rightarrow> 0 \<le> m"
    and "plan_inv ns T r plan" "set ns \<subseteq> set (mkeys plan)"
    and "\<forall>p \<in> set ps. packCap est lim p (mget 0 plan (clusterName p)) = mget 0 plan (clusterName p)"
  shows "\<exists>r' plan' ov'. fold (packFillStep est lim) ps (r, plan, ov) = (r', plan', ov') \<and>
      plan_inv ns T r' plan' \<and> mkeys plan' = mkeys plan \<and> r' \<le> r \<and>
      (\<forall>n. n \<notin> clusterName ` set ps \<longrightarrow> mget 0 plan' n = mget 0 plan n) \<and>
      (\<forall>p \<in> set ps. packCap est lim p (mget 0 plan' (clusterName p)) = mget 0 plan' (clusterName p) \<and>
         mget 0 plan (clusterName p) \<le> mget 0 plan' (clusterName p) \<and>
         (r = 0 \<longrightarrow> mget 0 plan' (clusterName p) = mget 0 plan (clusterName p)) \<and>
         (0 < r' \<longrightarrow> packFull est lim p (mget 0 plan' (clusterName p)))) \<and>
      (\<forall>i j. i < j \<longrightarrow> j < length ps \<longrightarrow>
         mget 0 plan (clusterName (ps ! j)) < mget 0 plan' (clusterName (ps ! j)) \<longrightarrow>
         packFull est lim (ps ! i) (mget 0 plan' (clusterName (ps ! i))))"
  using assms(5-10)
proof (induction ps arbitrary: r plan ov)
  case Nil
  then show ?case by simp
next
  case (Cons p ps)
  let ?n = "clusterName p"
  let ?s = "mget 0 plan ?n"
  let ?t = "packCap est lim p (?s + r)"
  have p: "?n \<in> set ns" "case MaxReplicas p of None \<Rightarrow> True | Some m \<Rightarrow> 0 \<le> m" "?n \<in> set (mkeys plan)"
    using Cons.prems by auto
  have r0: "0 \<le> r" using Cons.prems(4) by (simp add: plan_inv_def)
  note F = packFillStep_exact [OF assms(1-4) p(1,2) Cons.prems(4) refl]
  obtain ov1 where st: "packFillStep est lim p (r, plan, ov) = (r - (?t - ?s), mput ?n ?t plan, ov1)"
    using F(1) by blast
  have st0: "packCap est lim p ?s = ?s" using Cons.prems(6) by simp
  then have ts: "?s \<le> ?t" "?t \<le> ?s + r" "packCap est lim p ?t = ?t"
    using cap3_mono [of ?s "?s + r"] r0 cap3_le cap3_idem by (auto simp: packCap_def) (metis add.commute le_add_same_cancel1)
  have full: "packFull est lim p ?t \<or> r - (?t - ?s) = 0"
  proof (cases "?t < ?s + r")
    case True
    then show ?thesis using cap3_less unfolding packCap_def packFull_def by blast
  qed (use ts in auto)
  have other: "clusterName q \<noteq> ?n" if "q \<in> set ps" for q
    using Cons.prems(1) that by (auto simp: image_iff)
  have oq: "mget 0 (mput ?n ?t plan) (clusterName q) = mget 0 plan (clusterName q)" if "q \<in> set ps" for q
    using other [OF that] by (simp add: mget_mput)
  have "\<exists>r' plan' ov'. fold (packFillStep est lim) ps (r - (?t - ?s), mput ?n ?t plan, ov1) = (r', plan', ov') \<and>
      plan_inv ns T r' plan' \<and> mkeys plan' = mkeys (mput ?n ?t plan) \<and> r' \<le> r - (?t - ?s) \<and>
      (\<forall>n. n \<notin> clusterName ` set ps \<longrightarrow> mget 0 plan' n = mget 0 (mput ?n ?t plan) n) \<and>
      (\<forall>p \<in> set ps. packCap est lim p (mget 0 plan' (clusterName p)) = mget 0 plan' (clusterName p) \<and>
         mget 0 (mput ?n ?t plan) (clusterName p) \<le> mget 0 plan' (clusterName p) \<and>
         (r - (?t - ?s) = 0 \<longrightarrow> mget 0 plan' (clusterName p) = mget 0 (mput ?n ?t plan) (clusterName p)) \<and>
         (0 < r' \<longrightarrow> packFull est lim p (mget 0 plan' (clusterName p)))) \<and>
      (\<forall>i j. i < j \<longrightarrow> j < length ps \<longrightarrow>
         mget 0 (mput ?n ?t plan) (clusterName (ps ! j)) < mget 0 plan' (clusterName (ps ! j)) \<longrightarrow>
         packFull est lim (ps ! i) (mget 0 plan' (clusterName (ps ! i))))"
    using Cons.prems F(2) oq by (intro Cons.IH) (auto simp: mkeys_mput_in [OF p(3)])
  then obtain r' plan' ov' where R: "fold (packFillStep est lim) ps (r - (?t - ?s), mput ?n ?t plan, ov1) = (r', plan', ov')"
      "plan_inv ns T r' plan'" "mkeys plan' = mkeys (mput ?n ?t plan)" "r' \<le> r - (?t - ?s)"
      "\<forall>n. n \<notin> clusterName ` set ps \<longrightarrow> mget 0 plan' n = mget 0 (mput ?n ?t plan) n"
      "\<forall>q \<in> set ps. packCap est lim q (mget 0 plan' (clusterName q)) = mget 0 plan' (clusterName q) \<and>
         mget 0 plan (clusterName q) \<le> mget 0 plan' (clusterName q) \<and>
         (r - (?t - ?s) = 0 \<longrightarrow> mget 0 plan' (clusterName q) = mget 0 plan (clusterName q)) \<and>
         (0 < r' \<longrightarrow> packFull est lim q (mget 0 plan' (clusterName q)))"
      "\<forall>i j. i < j \<longrightarrow> j < length ps \<longrightarrow>
         mget 0 plan (clusterName (ps ! j)) < mget 0 plan' (clusterName (ps ! j)) \<longrightarrow>
         packFull est lim (ps ! i) (mget 0 plan' (clusterName (ps ! i)))"
    using oq by (auto simp: nth_mem)
  have pt: "mget 0 plan' ?n = ?t" using R(5) Cons.prems(1) by (simp add: mget_mput)
  have "packFull est lim ((p # ps) ! i) (mget 0 plan' (clusterName ((p # ps) ! i)))"
    if ij: "i < j" "j < length (p # ps)"
      and gt: "mget 0 plan (clusterName ((p # ps) ! j)) < mget 0 plan' (clusterName ((p # ps) ! j))" for i j
  proof (cases i)
    case 0
    then have "ps ! (j - 1) \<in> set ps" "(p # ps) ! j = ps ! (j - 1)" using ij by (auto simp: nth_Cons')
    then have "r - (?t - ?s) \<noteq> 0" using R(6) gt by auto
    then show ?thesis using full pt 0 by simp
  next
    case (Suc k)
    then show ?thesis using R(7) [rule_format, of k "j - 1"] ij gt by (auto simp: nth_Cons')
  qed
  moreover have "packCap est lim p ?t = ?t \<and> ?s \<le> ?t \<and> (r = 0 \<longrightarrow> ?t = ?s) \<and> (0 < r' \<longrightarrow> packFull est lim p ?t)"
    using ts full R(4) st0 by auto
  ultimately show ?case
    using R st pt ts r0 by (auto simp: mkeys_mput_in [OF p(3)] mget_mput)
qed


lemma packMin_below:
  "(case MaxReplicas p of None \<Rightarrow> True | Some m \<Rightarrow> MinReplicas p \<le> m) \<Longrightarrow>
   packCap est lim p (packMin est lim p x) = packMin est lim p x"
  by (auto simp: packCap_def cap3_def packMin_def capTo_def split: option.splits)

lemma getDesiredPlan_run:
  assumes "pack_ok ps" "caps_ok est" "caps_ok lim" "0 \<le> T" "T < 2 ^ 62"
  shows "\<exists>plan0 r plan ov. getDesiredPlan ps est lim T = (plan, ov) \<and>
      mkeys plan = map clusterName ps \<and> plan_inv (map clusterName ps) T r plan \<and>
      (\<forall>p \<in> set ps. packCap est lim p (mget 0 plan (clusterName p)) = mget 0 plan (clusterName p) \<and>
         mget 0 plan0 (clusterName p) \<le> mget 0 plan (clusterName p) \<and>
         (0 < r \<longrightarrow> packFull est lim p (mget 0 plan (clusterName p))) \<and>
         mget 0 plan0 (clusterName p) \<le> MinReplicas p \<and>
         (sum_list (map MinReplicas ps) \<le> T \<longrightarrow> mget 0 plan0 (clusterName p) =
            capTo (map_of est (clusterName p)) (capTo (map_of lim (clusterName p)) (MinReplicas p)))) \<and>
      (\<forall>i j. i < j \<longrightarrow> j < length ps \<longrightarrow>
         mget 0 plan0 (clusterName (ps ! j)) < mget 0 plan (clusterName (ps ! j)) \<longrightarrow>
         packFull est lim (ps ! i) (mget 0 plan (clusterName (ps ! i))))"
proof -
  let ?ns = "map clusterName ps"
  have ok: "distinct ?ns" "list_all (\<lambda>p. 0 \<le> MinReplicas p) ps"
      "\<forall>p \<in> set ps. case MaxReplicas p of None \<Rightarrow> True | Some m \<Rightarrow> MinReplicas p \<le> m"
      "\<forall>p \<in> set ps. case MaxReplicas p of None \<Rightarrow> True | Some m \<Rightarrow> 0 \<le> m"
    using assms(1) by (force simp: pack_ok_def list_all_iff split: option.splits)+
  have "plan_inv ?ns T T []" using assms(4) by (simp add: plan_inv_def planTotal_def list_all_iff comp_def)
  then obtain r0 plan0 ov0 where M: "fold (packMinStep est lim) ps (T, [], []) = (r0, plan0, ov0)"
      "plan_inv ?ns T r0 plan0" "mkeys plan0 = ?ns"
      "\<forall>p \<in> set ps. \<exists>x. mget 0 plan0 (clusterName p) = packMin est lim p x \<and>
         (sum_list (map MinReplicas ps) \<le> T \<longrightarrow> MinReplicas p \<le> x)"
    using packMin_run [OF assms(2,3,5) ok(1,2,1), of T "[]" "[]"] by auto
  have below: "\<forall>p \<in> set ps. packCap est lim p (mget 0 plan0 (clusterName p)) = mget 0 plan0 (clusterName p)"
    using M(4) ok(3) packMin_below by metis
  have minle: "\<forall>p \<in> set ps. mget 0 plan0 (clusterName p) \<le> MinReplicas p"
  proof
    fix p assume "p \<in> set ps"
    then obtain x where "mget 0 plan0 (clusterName p) = packMin est lim p x" using M(4) by blast
    moreover have "packMin est lim p x \<le> min (MinReplicas p) x"
      unfolding packMin_def by (meson capTo_le order_trans)
    ultimately show "mget 0 plan0 (clusterName p) \<le> MinReplicas p" by simp
  qed
  have share: "\<forall>p \<in> set ps. sum_list (map MinReplicas ps) \<le> T \<longrightarrow> mget 0 plan0 (clusterName p) =
      capTo (map_of est (clusterName p)) (capTo (map_of lim (clusterName p)) (MinReplicas p))"
    using M(4) by (fastforce simp: packMin_def)
  have "set ?ns \<subseteq> set (mkeys plan0)" using M(3) by simp
  from packFill_run [OF assms(2,3,5) ok(1) ok(1) order_refl ok(4) M(2) this below, of ov0] obtain r plan ov
    where F: "fold (packFillStep est lim) ps (r0, plan0, ov0) = (r, plan, ov)"
      "plan_inv ?ns T r plan" "mkeys plan = mkeys plan0"
      "\<forall>p \<in> set ps. packCap est lim p (mget 0 plan (clusterName p)) = mget 0 plan (clusterName p) \<and>
         mget 0 plan0 (clusterName p) \<le> mget 0 plan (clusterName p) \<and>
         (0 < r \<longrightarrow> packFull est lim p (mget 0 plan (clusterName p)))"
      "\<forall>i j. i < j \<longrightarrow> j < length ps \<longrightarrow>
         mget 0 plan0 (clusterName (ps ! j)) < mget 0 plan (clusterName (ps ! j)) \<longrightarrow>
         packFull est lim (ps ! i) (mget 0 plan (clusterName (ps ! i)))"
    by blast
  have "getDesiredPlan ps est lim T = (plan, ov)" by (simp add: getDesiredPlan_def M(1) F(1))
  moreover have "mkeys plan = ?ns" using F(3) M(3) by simp
  ultimately show ?thesis using F(2,4,5) minle share by blast
qed

lemma packCap_bounds:
  assumes "packCap est lim p x = x"
    and "map_of est (clusterName p) = Some v \<or> map_of lim (clusterName p) = Some v \<or> MaxReplicas p = Some v"
  shows "x \<le> v"
  using assms cap3_bounds unfolding packCap_def by metis


section \<open>Properties\<close>

text \<open>
  C8.  The bin-packing plan names exactly the given clusters, is non-negative, never exceeds a
  maximum or a capacity, never places more than the total, and is maximal: replicas are left
  unplaced only when every cluster is full.
\<close>

theorem pack_plan_correct:
  assumes "pack_ok ps" "caps_ok est" "caps_ok lim" "0 \<le> T" "T < 2 ^ 62"
    and "getDesiredPlan ps est lim T = (plan, overflow)"
  shows "mkeys plan = map clusterName ps \<and> sum_list (mvals plan) \<le> T \<and>
      (\<forall>p \<in> set ps. 0 \<le> mget 0 plan (clusterName p) \<and>
         (\<forall>v. map_of est (clusterName p) = Some v \<or> map_of lim (clusterName p) = Some v \<or>
              MaxReplicas p = Some v \<longrightarrow> mget 0 plan (clusterName p) \<le> v) \<and>
         (sum_list (mvals plan) < T \<longrightarrow> packFull est lim p (mget 0 plan (clusterName p))))"
proof -
  obtain r where R: "mkeys plan = map clusterName ps" "plan_inv (map clusterName ps) T r plan"
    "\<forall>p \<in> set ps. packCap est lim p (mget 0 plan (clusterName p)) = mget 0 plan (clusterName p) \<and>
       (0 < r \<longrightarrow> packFull est lim p (mget 0 plan (clusterName p)))"
    using getDesiredPlan_run [OF assms(1-5)] assms(6) by auto
  have "sum_list (mvals plan) = planTotal (map clusterName ps) plan"
    using R(1) assms(1) by (intro sum_mvals_planTotal) (simp_all add: pack_ok_def)
  then show ?thesis
    using R packCap_bounds [of est lim] by (auto simp: plan_inv_def list_all_iff)
qed

theorem pack_plan_correct_witness:
  "getDesiredPlan packSample [(''B'', 3)] [] 9 = ([(''A'', 4), (''B'', 3), (''C'', 2)], [(''B'', 2)]) \<and>
   mget 0 [(''A'', 4), (''B'', 3), (''C'', 2)] ''B'' \<le> (3 :: int)"
proof -
  have "pack_ok packSample" "caps_ok [(''B'', 3)]" "caps_ok []"
    and e: "getDesiredPlan packSample [(''B'', 3)] [] 9 = ([(''A'', 4), (''B'', 3), (''C'', 2)], [(''B'', 2)])"
    by code_simp+
  from pack_plan_correct [OF this(1-3) _ _ e] e show ?thesis by (auto simp: packSample_def)
qed

text \<open>
  Bin packing: a cluster gets more than its minimum only if every cluster preferred to it is
  full, i.e. stands at its maximum, its limited or its estimated capacity.
\<close>

lemma pack_first_fit:
  assumes "pack_ok ps" "caps_ok est" "caps_ok lim" "0 \<le> T" "T < 2 ^ 62"
    and "getDesiredPlan ps est lim T = (plan, overflow)"
    and "i < j" "j < length ps" "MinReplicas (ps ! j) < mget 0 plan (clusterName (ps ! j))"
  shows "packFull est lim (ps ! i) (mget 0 plan (clusterName (ps ! i)))"
proof -
  obtain plan0 where R: "\<forall>p \<in> set ps. mget 0 plan0 (clusterName p) \<le> MinReplicas p"
    "\<forall>i j. i < j \<longrightarrow> j < length ps \<longrightarrow>
         mget 0 plan0 (clusterName (ps ! j)) < mget 0 plan (clusterName (ps ! j)) \<longrightarrow>
         packFull est lim (ps ! i) (mget 0 plan (clusterName (ps ! i)))"
    using getDesiredPlan_run [OF assms(1-5)] assms(6) by auto
  then show ?thesis using assms(7-9) by (meson nth_mem order_le_less_trans)
qed


end
