(* ===== verification/Go_Float.thy ===== *)
theory Go_Float
  imports Complex_Main "HOL-Library.Log_Nat" Go_Prelude
begin

text \<open>
  Go's \<open>float64\<close>, as far as the replica plugin uses it.  A finite float is the rational number it
  denotes; every arithmetic operation computes the exact result and rounds it to a 53-bit
  significand, ties to even (\<open>fl\<close>).  The numbers of the plugin (sums of quantities, ratios between
  \<open>2^-64\<close> and \<open>2^64\<close>) stay far from overflow and from the subnormal range, which are not modelled.
  \<open>math.Round\<close> rounds half away from zero.
\<close>

definition pow2 :: "int \<Rightarrow> rat" where
  "pow2 e = (if 0 \<le> e then of_int (2 ^ nat e) else 1 / of_int (2 ^ nat (- e)))"

definition roundEven :: "rat \<Rightarrow> int" where
  "roundEven m = (let f = \<lfloor>m\<rfloor>; d = m - of_int f in
     if d < 1 / 2 then f else if d > 1 / 2 then f + 1 else if even f then f else f + 1)"

definition fl :: "rat \<Rightarrow> rat" where
  "fl x = (if x = 0 then 0 else
     let (p, q) = quotient_of \<bar>x\<bar>;
         e0 = bitlen p - bitlen q - 53;
         e = (if \<bar>x\<bar> / pow2 e0 < 2 ^ 53 then e0 else e0 + 1)
     in (if x < 0 then -1 else 1) * of_int (roundEven (\<bar>x\<bar> / pow2 e)) * pow2 e)"

type_synonym float64 = rat

definition fadd :: "float64 \<Rightarrow> float64 \<Rightarrow> float64" where
  "fadd a b = fl (a + b)"

definition fmul :: "float64 \<Rightarrow> float64 \<Rightarrow> float64" where
  "fmul a b = fl (a * b)"

definition fdiv :: "float64 \<Rightarrow> float64 \<Rightarrow> float64" where
  "fdiv a b = fl (a / b)"

definition float64_of_int64 :: "int64 \<Rightarrow> float64" where
  "float64_of_int64 n = fl (of_int n)"

definition math_Round :: "float64 \<Rightarrow> float64" where
  "math_Round x = (if x < 0 then - of_int \<lfloor>- x + 1 / 2\<rfloor> else of_int \<lfloor>x + 1 / 2\<rfloor>)"

definition int64_of_float64 :: "float64 \<Rightarrow> int64" where
  "int64_of_float64 x = (if x < 0 then \<lceil>x\<rceil> else \<lfloor>x\<rfloor>)"

lemma pow2_pos: "0 < pow2 e"
  by (simp add: pow2_def)

lemma roundEven_nonneg: "0 \<le> m \<Longrightarrow> 0 \<le> roundEven m"
  by (auto simp: roundEven_def Let_def)

lemma fl_0 [simp]: "fl 0 = 0"
  by (simp add: fl_def)

lemma fl_nonneg:
  assumes "0 \<le> x"
  shows "0 \<le> fl x"
proof (cases "x = 0")
  case False
  then have "\<not> x < 0" using assms by simp
  moreover have "0 \<le> roundEven (x / pow2 e)" for e
    using assms pow2_pos by (intro roundEven_nonneg divide_nonneg_pos)
  ultimately show ?thesis
    by (auto simp: fl_def Let_def intro!: mult_nonneg_nonneg less_imp_le [OF pow2_pos] split: prod.splits)
qed simp

lemma math_Round_nonneg: "0 \<le> x \<Longrightarrow> 0 \<le> math_Round x"
  by (simp add: math_Round_def)

lemma int64_of_float64_nonneg: "0 \<le> x \<Longrightarrow> 0 \<le> int64_of_float64 x"
  by (simp add: int64_of_float64_def)


lemma roundEven_int: "roundEven (of_int k) = k"
  by (simp add: roundEven_def Let_def)

lemma pow2_neg: "e \<le> 0 \<Longrightarrow> pow2 e = 1 / of_int (2 ^ nat (- e))"
  by (auto simp: pow2_def)

text \<open>Integers of at most 53 bits are represented exactly.\<close>

lemma fl_int:
  assumes "0 \<le> n" "bitlen n \<le> 53"
  shows "fl (of_int n) = of_int n"
proof (cases "n = 0")
  case False
  let ?e0 = "bitlen n - bitlen 1 - 53"
  let ?e = "if \<bar>of_int n :: rat\<bar> / pow2 ?e0 < 2 ^ 53 then ?e0 else ?e0 + 1"
  have q: "quotient_of \<bar>of_int n :: rat\<bar> = (n, 1)" using assms(1) by (simp add: quotient_of_int)
  have "bitlen 1 = 1" by code_simp
  then have "?e \<le> 0" using assms(2) by simp
  then have p: "pow2 ?e = 1 / of_int (2 ^ nat (- ?e))" by (rule pow2_neg)
  have "\<bar>of_int n :: rat\<bar> / pow2 ?e = of_int (n * 2 ^ nat (- ?e))"
    unfolding p using assms(1) by simp
  then have "roundEven (\<bar>of_int n :: rat\<bar> / pow2 ?e) = n * 2 ^ nat (- ?e)"
    by (simp only: roundEven_int)
  moreover have "of_int (n * 2 ^ nat (- ?e)) * pow2 ?e = (of_int n :: rat)" unfolding p by simp
  ultimately show ?thesis using False assms(1) unfolding fl_def Let_def q split by simp
qed simp

end
