(* ===== verification/Rsp.thy ===== *)
theory Rsp
  imports Plugins Planner BinPack Go_Float
begin

text \<open>
  The replicas plugins: \<open>ClusterCapacityWeight\<close>
  (\<open>framework/plugins/rsp/rsp.go\<close>), which derives weights from the clusters' resources or takes the
  given ones and calls the planner, and \<open>PreferenceBinPack\<close>
  (\<open>framework/plugins/preferencebinpack/preference_bin_pack.go\<close>), which calls the bin-packing
  planner.  The result is \<open>None\<close> only where the planner's loop would not end, and \<open>Panic\<close> does not
  occur in them.  Quantity addition (\<open>resource.Quantity.Add\<close>) adds both readings of a quantity.
\<close>


section \<open>Model: resource queries and weights\<close>

definition zeroQuantity :: Quantity where
  "zeroQuantity = \<lparr>MilliValue = 0, Value = 0\<rparr>"

definition quantityAdd :: "Quantity \<Rightarrow> Quantity \<Rightarrow> Quantity" where
  "quantityAdd a b = \<lparr>MilliValue = add64 (MilliValue a) (MilliValue b), Value = add64 (Value a) (Value b)\<rparr>"

definition ResourceGPU :: string where
  "ResourceGPU = ''nvidia.com/gpu''"

definition queryOf :: "(FederatedCluster \<Rightarrow> ResourceList) \<Rightarrow> FederatedCluster list
    \<Rightarrow> (string, ResourceList) gomap" where
  "queryOf f clusters = fold (\<lambda>cluster ret.
     let base = [(''cpu'', zeroQuantity), (''memory'', zeroQuantity), (ResourceGPU, zeroQuantity)];
         summed = fold (\<lambda>(n, q) m. mput n (case map_of m n of
                           Some v \<Rightarrow> quantityAdd v q | None \<Rightarrow> q) m) (f cluster) base
     in mput (CName cluster) summed ret) clusters []"

definition QueryAvailable :: "FederatedCluster list \<Rightarrow> (string, ResourceList) gomap" where
  "QueryAvailable clusters = queryOf CAvailable clusters"

definition QueryAllocatable :: "FederatedCluster list \<Rightarrow> (string, ResourceList) gomap" where
  "QueryAllocatable clusters = queryOf CAllocatable clusters"

definition QueryClusterResource :: "FederatedCluster list \<Rightarrow> string \<Rightarrow> (string, ResourceList) gomap" where
  "QueryClusterResource clusters resource =
     (if resource = ''available'' then QueryAvailable clusters
      else if resource = ''allocatable'' then QueryAllocatable clusters
      else [])"

definition sumWeight :: float64 where
  "sumWeight = 1000"

text \<open>The float64 nearest to the constant 1.4.\<close>

definition supplyLimitProportion :: float64 where
  "supplyLimitProportion = fl (14 / 10)"

definition roundInt :: "float64 \<Rightarrow> int64" where
  "roundInt x = int64_of_float64 (math_Round x)"

definition CalcWeightLimit ::
    "FederatedCluster list \<Rightarrow> string \<Rightarrow> float64 \<Rightarrow> string + (string, int64) gomap" where
  "CalcWeightLimit clusters resourceName supplyLimitRatio =
     (let allocatables = QueryClusterResource clusters ''allocatable'' in
      if length allocatables \<noteq> length clusters then Inl ''allocatables are incomplete''
      else
        let sum = foldl (\<lambda>acc (_, rl). fadd acc (float64_of_int64 (Value (mget zeroQuantity rl resourceName))))
                    0 allocatables in
        if sum = 0 then
          Inr (map (\<lambda>(member, _). (member,
                 roundInt (fdiv sumWeight (float64_of_int64 (int (length allocatables)))))) allocatables)
        else if list_ex (\<lambda>(_, rl). map_of rl resourceName = None) allocatables
        then Inl (''no '' @ resourceName @ '' resource'')
        else
          Inr (map (\<lambda>(member, rl). (member,
                 roundInt (fmul (fmul (fdiv (float64_of_int64 (Value (mget zeroQuantity rl resourceName))) sum)
                                      sumWeight) supplyLimitRatio))) allocatables))"

text \<open>The weights before the final correction, and the correction of the heaviest cluster.\<close>

definition heaviest :: "(string, int64) gomap \<Rightarrow> int64 \<times> string" where
  "heaviest ws = fold (\<lambda>(member, w) (maxWeight, maxCluster).
     if w > maxWeight then (w, member) else (maxWeight, maxCluster)) ws (0, [])"

definition settleWeights :: "(string, int64) gomap \<Rightarrow> (string, int64) gomap" where
  "settleWeights ws =
     (let maxCluster = snd (heaviest ws)
      in mput maxCluster (add64 (mget 0 ws maxCluster) (sub64 1000 (sum64 (mvals ws)))) ws)"

definition sumAvailableOf :: "(string, ResourceList) gomap \<Rightarrow> string \<Rightarrow> float64" where
  "sumAvailableOf clusterAvailables resourceName =
     foldl (\<lambda>acc (_, rl).
       let v = Value (mget zeroQuantity rl resourceName)
       in if v > 0 then fadd acc (float64_of_int64 v) else acc) 0 clusterAvailables"

definition tmpMemberWeights ::
    "(string, ResourceList) gomap \<Rightarrow> string \<Rightarrow> (string, int64) gomap \<Rightarrow> float64 \<Rightarrow> (string, int64) gomap" where
  "tmpMemberWeights clusterAvailables resourceName weightLimit sumAvailable =
     map (\<lambda>(member, rl).
       let v = float64_of_int64 (Value (mget zeroQuantity rl resourceName));
           resourceValue = (if v < 0 then 0 else v);
           weight = roundInt (fmul (fdiv resourceValue sumAvailable) sumWeight)
       in (member, if weight > mget 0 weightLimit member then mget 0 weightLimit member else weight))
       clusterAvailables"

text \<open>
  When every intermediate weight is 0 the code divides 0 by 0 and converts the NaN to \<open>int64\<close>, whose
  value is left to the implementation by the language: it is the argument \<open>nanInt\<close>.
\<close>

definition percentWeights :: "int64 \<Rightarrow> (string, int64) gomap \<Rightarrow> (string, int64) gomap" where
  "percentWeights nanInt tmpWeights =
     (let sumTmpWeight = sum64 (mvals tmpWeights) in
      map (\<lambda>(member, w). (member,
        if sumTmpWeight = 0 then nanInt
        else roundInt (fmul (fdiv (float64_of_int64 w) (float64_of_int64 sumTmpWeight)) sumWeight)))
        tmpWeights)"

definition AvailableToPercentage ::
    "int64 \<Rightarrow> (string, ResourceList) gomap \<Rightarrow> string \<Rightarrow> (string, int64) gomap \<Rightarrow> string + (string, int64) gomap" where
  "AvailableToPercentage nanInt clusterAvailables resourceName weightLimit =
     (let sumAvailable = sumAvailableOf clusterAvailables resourceName in
      if sumAvailable = 0 then
        Inr (map (\<lambda>(member, _). (member,
               roundInt (fdiv sumWeight (float64_of_int64 (int (length clusterAvailables)))))) clusterAvailables)
      else if list_ex (\<lambda>(_, rl). map_of rl resourceName = None) clusterAvailables
      then Inl (''no '' @ resourceName @ '' resource'')
      else Inr (settleWeights (percentWeights nanInt
             (tmpMemberWeights clusterAvailables resourceName weightLimit sumAvailable))))"


section \<open>Model: the replicas plugins\<close>

text \<open>
  What the two plugins share: the running replicas of a unit (\<open>nil\<close> counts as the total), the
  maximum under an untolerated \<open>NoSchedule\<close> taint, the usable estimates, and the list of results.
\<close>

definition currentReplicasOf :: "SchedulingUnit \<Rightarrow> int64 \<Rightarrow> replicas" where
  "currentReplicasOf su totalReplicas =
     fold (\<lambda>(cluster, n) m. mput cluster (case n of Some k \<Rightarrow> k | None \<Rightarrow> totalReplicas) m)
       (CurrentClusters su) []"

definition totalReplicasOf :: "SchedulingUnit \<Rightarrow> int64" where
  "totalReplicasOf su = (case DesiredReplicas su of None \<Rightarrow> 0 | Some n \<Rightarrow> n)"

definition taintedMax ::
    "externs \<Rightarrow> SchedulingUnit \<Rightarrow> replicas \<Rightarrow> FederatedCluster \<Rightarrow> int64 option" where
  "taintedMax ext su currentReplicas cluster =
     (let max = map_of (SUMaxReplicas su) (CName cluster);
          isUntolerated = (FindMatchingUntoleratedTaint ext (CTaints cluster) (Tolerations su)
            (Some (\<lambda>t. TaintEffect t = ''NoSchedule'')) \<noteq> None);
          current = mget 0 currentReplicas (CName cluster)
      in if isUntolerated \<and> (case max of None \<Rightarrow> True | Some m \<Rightarrow> current < m) then Some current else max)"

definition estimatedCapacityOf :: "SchedulingUnit \<Rightarrow> replicas" where
  "estimatedCapacityOf su =
     (case AutoMigration su of
        None \<Rightarrow> []
      | Some am \<Rightarrow>
          (case AMInfo am of
             None \<Rightarrow> []
           | Some info \<Rightarrow>
               fold (\<lambda>(cluster, ec) m. if ec \<ge> 0 then mput cluster ec m else m) (EstimatedCapacity info) []))"

definition keepUnschedulableOf :: "SchedulingUnit \<Rightarrow> bool" where
  "keepUnschedulableOf su =
     (case AutoMigration su of None \<Rightarrow> False | Some am \<Rightarrow> KeepUnschedulableReplicas am)"

definition scheduledReplicasOf :: "SchedulingUnit \<Rightarrow> replicas" where
  "scheduledReplicasOf su =
     (case AutoMigration su of
        None \<Rightarrow> []
      | Some am \<Rightarrow> (case AMInfo am of None \<Rightarrow> [] | Some info \<Rightarrow> ScheduledReplicas info))"

definition limitedCapacityOf :: "SchedulingUnit \<Rightarrow> replicas" where
  "limitedCapacityOf su =
     (case CustomMigration su of
        None \<Rightarrow> []
      | Some info \<Rightarrow> (case LimitedCapacity info of None \<Rightarrow> [] | Some m \<Rightarrow> m))"

definition clusterReplicasList ::
    "FederatedCluster list \<Rightarrow> replicas \<Rightarrow> replicas \<Rightarrow> ClusterReplicas list" where
  "clusterReplicasList clusters scheduleResult overflow =
     (let result = fold (\<lambda>(c, n) m. mput c n m) scheduleResult [];
          result' = fold (\<lambda>(c, n) m. mput c (add64 (mget 0 m c) n) m) overflow result
      in concat (map (\<lambda>cluster.
           case map_of result' (CName cluster) of
             None \<Rightarrow> []
           | Some n \<Rightarrow> if n = 0 then [] else [\<lparr>RCluster = cluster, Replicas = n\<rparr>]) clusters))"

definition schedulingWeights ::
    "int64 \<Rightarrow> string \<Rightarrow> SchedulingUnit \<Rightarrow> FederatedCluster list \<Rightarrow> string list + (string, int64) gomap" where
  "schedulingWeights nanInt reclaimedMilliCPU su clusters =
     (if Weights su = [] then
        let resourceName =
              (if HasScalarResource (ResourceRequest su) ResourceGPU then ResourceGPU
               else if EnableKatalystSupport su \<and> HasScalarResource (ResourceRequest su) reclaimedMilliCPU
               then reclaimedMilliCPU else ''cpu'');
            clusterAvailables = QueryClusterResource clusters ''available'' in
        if length clusters \<noteq> length clusterAvailables then Inl []
        else case CalcWeightLimit clusters resourceName supplyLimitProportion of
          Inl err \<Rightarrow> Inl [''CalcWeightLimit failed: '' @ err]
        | Inr weightLimit \<Rightarrow>
            (case AvailableToPercentage nanInt clusterAvailables resourceName weightLimit of
               Inl err \<Rightarrow> Inl [''AvailableToPercentage failed: '' @ err]
             | Inr ws \<Rightarrow> Inr ws)
      else Inr (Weights su))"

definition capacityPreferences ::
    "externs \<Rightarrow> SchedulingUnit \<Rightarrow> (string, int64) gomap \<Rightarrow> replicas \<Rightarrow> FederatedCluster list
     \<Rightarrow> (string, Planner.ClusterPreferences) gomap" where
  "capacityPreferences ext su weights currentReplicas clusters =
     fold (\<lambda>cluster m. mput (CName cluster)
             \<lparr>Planner.ClusterPreferences.MinReplicas = mget 0 (SUMinReplicas su) (CName cluster),
              Planner.ClusterPreferences.MaxReplicas = taintedMax ext su currentReplicas cluster,
              Planner.ClusterPreferences.Weight = mget 0 weights (CName cluster)\<rparr> m) clusters []"

definition ClusterCapacityWeight_ReplicaScheduling ::
    "int64 \<Rightarrow> string \<Rightarrow> externs \<Rightarrow> SchedulingUnit \<Rightarrow> FederatedCluster list
     \<Rightarrow> (ClusterReplicas list \<times> Result) option" where
  "ClusterCapacityWeight_ReplicaScheduling nanInt reclaimedMilliCPU ext su clusters =
     (case schedulingWeights nanInt reclaimedMilliCPU su clusters of
        Inl reasons \<Rightarrow> Some ([], NewResult Error reasons)
      | Inr weights \<Rightarrow>
          let totalReplicas = totalReplicasOf su;
              currentReplicas = currentReplicasOf su totalReplicas in
          case Planner.Plan \<lparr>Planner.ReplicaSchedulingPreference.Clusters = capacityPreferences ext su weights currentReplicas clusters\<rparr>
                 totalReplicas (ExtractClusterNames clusters) currentReplicas (estimatedCapacityOf su)
                 (limitedCapacityOf su) (SchedulingUnit_Key su) (AvoidDisruption su) (keepUnschedulableOf su) of
            None \<Rightarrow> None
          | Some (scheduleResult, overflow) \<Rightarrow>
              Some (clusterReplicasList clusters scheduleResult overflow, NewResult Success []))"

definition binpackPreferences ::
    "externs \<Rightarrow> SchedulingUnit \<Rightarrow> replicas \<Rightarrow> FederatedCluster list
     \<Rightarrow> (string, BinPack.ClusterPreferences) gomap" where
  "binpackPreferences ext su currentReplicas clusters =
     fold (\<lambda>cluster m. mput (CName cluster)
             \<lparr>BinPack.ClusterPreferences.MinReplicas = mget 0 (SUMinReplicas su) (CName cluster),
              BinPack.ClusterPreferences.MaxReplicas = taintedMax ext su currentReplicas cluster\<rparr> m) clusters []"

definition PreferenceBinPack_ReplicaScheduling ::
    "externs \<Rightarrow> SchedulingUnit \<Rightarrow> FederatedCluster list \<Rightarrow> ClusterReplicas list \<times> Result" where
  "PreferenceBinPack_ReplicaScheduling ext su clusters =
     (let totalReplicas = totalReplicasOf su;
          currentReplicas = currentReplicasOf su totalReplicas in
      case BinPack.Plan \<lparr>BinPack.ReplicaSchedulingPreference.Clusters = binpackPreferences ext su currentReplicas clusters\<rparr>
             totalReplicas (ExtractClusterNames clusters) currentReplicas (estimatedCapacityOf su)
             (limitedCapacityOf su) (AvoidDisruption su) (keepUnschedulableOf su) (scheduledReplicasOf su) of
        (scheduleResult, overflow) \<Rightarrow>
          (clusterReplicasList clusters scheduleResult overflow, NewResult Success []))"


text \<open>The example of the statements below: clusters of equal size.\<close>

definition equalClusters :: "nat \<Rightarrow> (string, ResourceList) gomap" where
  "equalClusters n = map (\<lambda>i. (replicate (Suc i) CHR ''c'', [(''cpu'', \<lparr>MilliValue = 10000, Value = 10\<rparr>)])) [0..<n]"

definition equalLimits :: "nat \<Rightarrow> (string, int64) gomap" where
  "equalLimits n = map (\<lambda>i. (replicate (Suc i) CHR ''c'', 26)) [0..<n]"


section \<open>Weights\<close>

text \<open>64-bit addition is exact up to wrap-around, so sums may be computed without it first.\<close>

lemma wrap64_mod: "wrap64 (wrap64 x + y) = wrap64 (x + y)"
proof -
  have "((x + 2 ^ 63) mod 2 ^ 64 - 2 ^ 63 + y + 2 ^ 63) mod 2 ^ 64 = ((x + 2 ^ 63) mod 2 ^ 64 + y) mod (2 :: int) ^ 64"
    by (simp add: algebra_simps)
  also have "\<dots> = (x + y + 2 ^ 63) mod 2 ^ 64" by (simp add: mod_simps algebra_simps)
  finally show ?thesis by (simp add: wrap64_def)
qed

lemma sum64_wrap: "sum64 xs = wrap64 (sum_list xs)"
proof -
  have "foldl add64 (wrap64 a) xs = wrap64 (a + sum_list xs)" for a
  proof (induction xs arbitrary: a)
    case (Cons x xs)
    have "add64 (wrap64 a) x = wrap64 (a + x)" by (simp add: add64_def wrap64_mod)
    then show ?case using Cons [of "a + x"] by (simp add: add.assoc)
  qed simp
  from this [of 0] show ?thesis by (simp add: sum64_def wrap64_id)
qed

lemma sum_mvals_mput:
  assumes "wf_map m"
  shows "sum_list (mvals (mput k v m)) = sum_list (mvals m) - mget 0 m k + (v :: int)"
proof (cases "k \<in> set (mkeys m)")
  case True
  have "distinct (mkeys m)" using assms by (simp add: wf_map_def mkeys_def)
  then show ?thesis
    using True assms sum_mget_mput [of "mkeys m" k v m] mvals_mget [of m 0] mvals_mget [of "mput k v m" 0]
    by (simp add: mkeys_mput_in)
next
  case False
  then show ?thesis by (simp add: mput_fresh mget_notin mvals_def)
qed

lemma settleWeights_sum:
  assumes "wf_map ws"
  shows "sum64 (mvals (settleWeights ws)) = 1000"
proof -
  let ?k = "snd (heaviest ws)" and ?S = "sum_list (mvals ws)"
  have "add64 (mget 0 ws ?k) (sub64 1000 (sum64 (mvals ws))) = wrap64 (mget 0 ws ?k + 1000 - ?S)"
  proof -
    have "wrap64 (1000 - wrap64 ?S) = wrap64 (1000 - ?S)"
    proof -
      have "(1000 - ((?S + 2 ^ 63) mod 2 ^ 64 - 2 ^ 63) + 2 ^ 63) mod 2 ^ 64 =
          (1000 + 2 ^ 64 - (?S + 2 ^ 63) mod 2 ^ 64) mod (2 :: int) ^ 64" by (simp add: algebra_simps)
      also have "\<dots> = (1000 + 2 ^ 64 - (?S + 2 ^ 63)) mod 2 ^ 64" by (rule mod_diff_right_eq)
      also have "\<dots> = (1000 - ?S + 2 ^ 63) mod 2 ^ 64" by (simp add: algebra_simps)
      finally show ?thesis by (simp add: wrap64_def)
    qed
    then have "sub64 1000 (sum64 (mvals ws)) = wrap64 (1000 - ?S)" by (simp add: sub64_def sum64_wrap)
    then show ?thesis
      using wrap64_mod [of "1000 - ?S" "mget 0 ws ?k"] by (simp add: add64_def algebra_simps)
  qed
  then have "sum_list (mvals (settleWeights ws)) =
      ?S - mget 0 ws ?k + wrap64 (mget 0 ws ?k + 1000 - ?S)"
    using assms by (simp add: settleWeights_def Let_def sum_mvals_mput)
  then have "sum64 (mvals (settleWeights ws)) = wrap64 (wrap64 (mget 0 ws ?k + 1000 - ?S) + (?S - mget 0 ws ?k))"
    by (simp add: sum64_wrap add.commute)
  also have "\<dots> = wrap64 1000" unfolding wrap64_mod by simp
  also have "\<dots> = 1000" by (simp add: wrap64_def)
  finally show ?thesis .
qed


section \<open>Equal clusters\<close>

lemma fadd_tens: "n < 1000 \<Longrightarrow> fadd (of_int (10 * int n)) (float64_of_int64 10) = of_int (10 * int (Suc n))"
proof -
  assume "n < 1000"
  then have "bitlen (10 * int (Suc n)) \<le> 53" by (simp add: bitlen_le_iff_power)
  then have "fl (of_int (10 * int (Suc n))) = of_int (10 * int (Suc n))" by (intro fl_int) auto
  moreover have "float64_of_int64 10 = of_int 10"
    unfolding float64_of_int64_def by (intro fl_int) (simp_all add: bitlen_le_iff_power)
  ultimately show ?thesis by (simp add: fadd_def add.commute)
qed

lemma sumAvailable_equal: "n \<le> 1000 \<Longrightarrow> sumAvailableOf (equalClusters n) ''cpu'' = of_int (10 * int n)"
proof (induction n)
  case 0
  then show ?case by (simp add: sumAvailableOf_def equalClusters_def)
next
  case (Suc n)
  have "sumAvailableOf (equalClusters (Suc n)) ''cpu'' =
      fadd (sumAvailableOf (equalClusters n) ''cpu'') (float64_of_int64 10)"
    by (simp add: sumAvailableOf_def equalClusters_def mget_def)
  then show ?case using Suc fadd_tens [of n] by simp
qed

lemma wf_equal: "wf_map (map (\<lambda>i. (replicate (Suc i) x, f i)) [0..<n])"
  by (auto simp: wf_map_def comp_def distinct_map inj_on_def dest: arg_cong [where f = length])

lemma equal_names: "mget d (map (\<lambda>i. (replicate (Suc i) x, f i)) [0..<n]) (replicate (Suc j) x) =
   (if j < n then f j else d)"
proof (cases "j < n")
  case True
  then have "(replicate (Suc j) x, f j) \<in> set (map (\<lambda>i. (replicate (Suc i) x, f i)) [0..<n])" by auto
  from mget_entry [OF wf_equal this] show ?thesis using True by simp
next
  case False
  then have "replicate (Suc j) x \<notin> set (mkeys (map (\<lambda>i. (replicate (Suc i) x, f i)) [0..<n]))"
    by (auto simp: mkeys_def dest: arg_cong [where f = length])
  then show ?thesis using False by (simp add: mget_notin)
qed

lemma heaviest_equal:
  assumes "0 < (w :: int)"
  shows "fold (\<lambda>(member, v) (maxWeight, maxCluster).
      if v > maxWeight then (v, member) else (maxWeight, maxCluster))
      (map (\<lambda>i. (g i, w)) is) (w, m) = (w, m :: string)"
  by (induction "is") auto


lemma settle_equal:
  assumes "0 < (w :: int)" "0 < n" "n < 1000" "w < 1000"
  shows "mget 0 (settleWeights (map (\<lambda>i. (replicate (Suc i) CHR ''c'', w)) [0..<n])) ''c'' = w + (1000 - int n * w)"
proof -
  let ?ws = "map (\<lambda>i. (replicate (Suc i) CHR ''c'', w)) [0..<n]"
  have "[0..<n] = 0 # [1..<n]" using assms(2) by (simp add: upt_conv_Cons)
  then have h: "snd (heaviest ?ws) = ''c''"
    using assms(1) heaviest_equal [OF assms(1), of "\<lambda>i. CHR ''c'' # replicate i CHR ''c''" "[Suc 0..<n]" "''c''"]
    by (simp add: heaviest_def)
  have nw: "0 \<le> int n * w" "int n * w \<le> 1000 * 1000"
    using assms mult_mono [of "int n" 1000 w 1000] by auto
  have "sum64 (mvals ?ws) = int n * w"
    unfolding sum64_wrap using nw by (simp add: mvals_def comp_def sum_list_triv wrap64_id in64_def)
  moreover have "sub64 1000 (int n * w) = 1000 - int n * w" using nw by (intro sub64_exact) (auto simp: in64_def)
  moreover have "mget 0 ?ws ''c'' = w" using equal_names [of 0 "CHR ''c''" "\<lambda>_. w" n 0] assms(2) by simp
  moreover have "add64 w (1000 - int n * w) = w + (1000 - int n * w)"
  proof -
    define x where "x = int n * w"
    have "0 \<le> x" "x \<le> 1000000" using nw by (simp_all only: x_def)
    then show ?thesis using assms(1,4) unfolding x_def [symmetric] by (intro add64_exact) (auto simp: in64_def)
  qed
  ultimately show ?thesis unfolding settleWeights_def Let_def h by (simp add: mget_mput)
qed

lemma weight_54: "roundInt (fmul (fdiv (float64_of_int64 10) (of_int 540)) sumWeight) = 19"
    "roundInt (fmul (fdiv (float64_of_int64 19) (float64_of_int64 1026)) sumWeight) = 19"
  by code_simp+

lemma sum64_replicate: "0 \<le> w \<Longrightarrow> in64 (int n * w) \<Longrightarrow>
   sum64 (mvals (map (\<lambda>i. (g i, w)) [0..<n])) = int n * w"
  unfolding sum64_wrap by (simp add: mvals_def comp_def sum_list_triv wrap64_id)


section \<open>The list of results\<close>

lemma map_of_fold_mput: "wf_map m \<Longrightarrow> map_of (fold (\<lambda>(c, n) acc. mput c n acc) m acc) k =
   (case map_of m k of None \<Rightarrow> map_of acc k | Some v \<Rightarrow> Some v)"
proof (induction m arbitrary: acc)
  case (Cons x m)
  obtain c n where x: "x = (c, n)" by (cases x)
  have "wf_map m" "map_of m c = None" using Cons.prems by (auto simp: wf_map_def x map_of_eq_None_iff)
  then show ?case using Cons.IH [of "mput c n acc"] by (auto simp: x map_of_mput split: option.splits)
qed simp

lemma clusterReplicasList_members:
  "r \<in> set (clusterReplicasList clusters plan overflow) \<Longrightarrow> RCluster r \<in> set clusters \<and> Replicas r \<noteq> 0"
  by (auto simp: clusterReplicasList_def Let_def split: option.splits if_splits)

lemma clusterReplicasList_order:
  "\<exists>P. map RCluster (clusterReplicasList clusters plan overflow) = filter P clusters"
proof -
  let ?m = "fold (\<lambda>(c, n) m. mput c (add64 (mget 0 m c) n) m) overflow (fold (\<lambda>(c, n) m. mput c n m) plan [])"
  have "map RCluster (concat (map (\<lambda>cluster. case map_of ?m (CName cluster) of None \<Rightarrow> []
      | Some n \<Rightarrow> if n = 0 then [] else [\<lparr>RCluster = cluster, Replicas = n\<rparr>]) clusters)) =
      filter (\<lambda>c. \<exists>n. map_of ?m (CName c) = Some n \<and> n \<noteq> 0) clusters"
    by (induction clusters) (auto split: option.splits)
  then show ?thesis unfolding clusterReplicasList_def Let_def by blast
qed

lemma clusterReplicasList_sum:
  assumes "wf_map plan"
  shows "sum_list (map Replicas (clusterReplicasList clusters plan [])) = (\<Sum>c\<leftarrow>clusters. mget 0 plan (CName c))"
    and "r \<in> set (clusterReplicasList clusters plan []) \<Longrightarrow> Replicas r = mget 0 plan (CName (RCluster r))"
proof -
  have m: "map_of (fold (\<lambda>(c, n) m. mput c n m) plan []) k = map_of plan k" for k
    using map_of_fold_mput [OF assms, of "[]" k] by (simp split: option.splits)
  show "sum_list (map Replicas (clusterReplicasList clusters plan [])) = (\<Sum>c\<leftarrow>clusters. mget 0 plan (CName c))"
    unfolding clusterReplicasList_def Let_def
    by (induction clusters) (auto simp: m mget_def split: option.splits)
  show "r \<in> set (clusterReplicasList clusters plan []) \<Longrightarrow> Replicas r = mget 0 plan (CName (RCluster r))"
    by (auto simp: clusterReplicasList_def Let_def m mget_def split: option.splits if_splits)
qed

lemma capacityPreferences_get:
  assumes "c \<in> set clusters" "distinct (map CName clusters)"
  shows "map_of (capacityPreferences ext su w cur clusters) (CName c) =
     Some \<lparr>Planner.ClusterPreferences.MinReplicas = mget 0 (SUMinReplicas su) (CName c),
           Planner.ClusterPreferences.MaxReplicas = taintedMax ext su cur c,
           Planner.ClusterPreferences.Weight = mget 0 w (CName c)\<rparr>"
proof -
  have fold: "map_of (fold (\<lambda>cluster m. mput (CName cluster) (g cluster) m) cs acc) (CName c) =
      (if c \<in> set cs then Some (g c) else map_of acc (CName c))"
    if "distinct (map CName cs)" "c \<notin> set cs \<longrightarrow> CName c \<notin> CName ` set cs"
    for cs :: "FederatedCluster list" and g :: "FederatedCluster \<Rightarrow> Planner.ClusterPreferences" and acc
    using that by (induction cs arbitrary: acc) (auto simp: map_of_mput split: if_splits)
  show ?thesis unfolding capacityPreferences_def using fold [of clusters] assms by simp
qed


section \<open>Properties\<close>

text \<open>
  The weights that \<open>AvailableToPercentage\<close> derives from the available resources add up to
  exactly 1000, whatever the floating point roundings are: the heaviest cluster absorbs them.
\<close>

lemma AvailableToPercentage_sum:
  assumes "wf_map clusterAvailables" "sumAvailableOf clusterAvailables resourceName \<noteq> 0"
    and "AvailableToPercentage nanInt clusterAvailables resourceName weightLimit = Inr ws"
  shows "sum64 (mvals ws) = 1000"
proof -
  let ?w = "percentWeights nanInt (tmpMemberWeights clusterAvailables resourceName weightLimit
      (sumAvailableOf clusterAvailables resourceName))"
  have "mkeys ?w = mkeys clusterAvailables"
    by (simp add: percentWeights_def tmpMemberWeights_def mkeys_def comp_def case_prod_unfold Let_def)
  then have "wf_map ?w" using assms(1) by (simp add: wf_map_def mkeys_def)
  moreover have "ws = settleWeights ?w"
    using assms(2,3) by (auto simp: AvailableToPercentage_def Let_def split: if_splits)
  ultimately show ?thesis by (simp add: settleWeights_sum)
qed

text \<open>
  C13.  The rounding correction can make a weight negative: with 54 clusters of equal capacity
  every cluster is rounded up to 19, and the first one is corrected to -7, although the planner
  does not support negative weights.
\<close>

theorem AvailableToPercentage_negative:
  "\<exists>ws. AvailableToPercentage nanInt (equalClusters 54) ''cpu'' (equalLimits 54) = Inr ws \<and>
     mget 0 ws ''c'' = -7"
proof -
  let ?c = "map (\<lambda>i. (replicate (Suc i) CHR ''c'', 19)) [0..<54]"
  have tmp: "tmpMemberWeights (equalClusters 54) ''cpu'' (equalLimits 54) (of_int 540) = ?c"
  proof -
    have "\<not> float64_of_int64 10 < 0" by (simp add: float64_of_int64_def fl_nonneg not_less)
    moreover have "mget 0 (equalLimits 54) (replicate (Suc i) CHR ''c'') = 26" if "i < 54" for i
      using equal_names [of 0 "CHR ''c''" "\<lambda>_. 26" 54 i] that by (simp add: equalLimits_def)
    ultimately show ?thesis
      unfolding tmpMemberWeights_def equalClusters_def using weight_54(1)
      by (auto simp: mget_def [of zeroQuantity] Let_def simp del: replicate_Suc upt_rec_numeral)
  qed
  have "sum64 (mvals ?c) = 1026"
    using sum64_replicate [of 19 54 "\<lambda>i. replicate (Suc i) CHR ''c''"] by (simp add: in64_def)
  then have pct: "percentWeights nanInt ?c = ?c"
    using weight_54(2) by (simp add: percentWeights_def Let_def del: replicate_Suc upt_rec_numeral)
  have "\<not> list_ex (\<lambda>(_, rl). map_of rl ''cpu'' = None) (equalClusters 54)"
    by (simp add: equalClusters_def list_ex_iff)
  moreover have "sumAvailableOf (equalClusters 54) ''cpu'' = of_int 540"
    using sumAvailable_equal [of 54] by simp
  ultimately have "AvailableToPercentage nanInt (equalClusters 54) ''cpu'' (equalLimits 54) = Inr (settleWeights ?c)"
    using tmp pct by (simp add: AvailableToPercentage_def Let_def del: upt_rec_numeral replicate_Suc)
  then show ?thesis using settle_equal [of 19 54] by (simp del: upt_rec_numeral replicate_Suc)
qed




end
