(* ===== verification/Balanced.thy ===== *)
theory Balanced
  imports Plugins Go_Float
begin

text \<open>
  The score plugin \<open>ClusterResourcesBalancedAllocation\<close>
  (\<open>plugins/clusterresources/balanced_allocation.go\<close>): 100 times one minus the standard deviation of
  the requested fractions.  \<open>math.Sqrt\<close> is the correctly rounded square root: an integer square root
  gives at least 55 leading bits, a last bit records whether the root is inexact, and the rounding
  to 53 bits follows.
\<close>

section \<open>Model\<close>

fun isqrt :: "nat \<Rightarrow> int \<Rightarrow> int \<Rightarrow> int" where
  "isqrt 0 n r = r"
| "isqrt (Suc k) n r = (let c = r + 2 ^ k in if c * c \<le> n then isqrt k n c else isqrt k n r)"

definition math_Sqrt :: "float64 \<Rightarrow> float64" where
  "math_Sqrt x = (if x \<le> 0 then 0 else
     let (p, q) = quotient_of x;
         e = (bitlen p - bitlen q - 110) div 2;
         y = x / (pow2 e * pow2 e);
         s = isqrt 57 \<lfloor>y\<rfloor> 0
     in fl (of_int (2 * s + (if of_int (s * s) = y then 0 else 1)) * pow2 e / 2))"

definition fractionOfCapacity :: "int64 \<Rightarrow> int64 \<Rightarrow> float64" where
  "fractionOfCapacity requested capacity =
     (if capacity = 0 then 1 else fdiv (float64_of_int64 requested) (float64_of_int64 capacity))"

definition stdOf :: "float64 list \<Rightarrow> float64 \<Rightarrow> float64" where
  "stdOf fractions totalFraction =
     (if length fractions = 2 then \<bar>fdiv (fadd (fractions ! 0) (- (fractions ! 1))) 2\<bar>
      else if 2 < length fractions then
        (let n = float64_of_int64 (int (length fractions));
             mean = fdiv totalFraction n;
             s = foldl (\<lambda>acc f. fadd acc (fmul (fadd f (- mean)) (fadd f (- mean)))) 0 fractions
         in math_Sqrt (fdiv s n))
      else 0)"

definition ClusterResourcesBalancedAllocation_Score ::
    "externs \<Rightarrow> SchedulingUnit option \<Rightarrow> FederatedCluster option \<Rightarrow> (int64 \<times> Result) option" where
  "ClusterResourcesBalancedAllocation_Score ext su cluster =
     (case PreCheck su cluster of
        Some err \<Rightarrow> Some (0, NewResult Error [err])
      | None \<Rightarrow>
          map_option (\<lambda>(allocatable, requested).
              let fractions = map (\<lambda>(r, v). fractionOfCapacity v (mget 0 allocatable r)) requested in
              if list_ex (\<lambda>f. 1 \<le> f) fractions then (0, NewResult Success [])
              else (int64_of_float64 (fmul (fadd 1 (- stdOf fractions (foldl fadd 0 fractions)))
                      (float64_of_int64 MaxClusterScore)), NewResult Success []))
            (getAllocatableAndRequested ext (the su) (the cluster) (getRelevantResources ext (the su))))"


section \<open>The integer square root\<close>

lemma isqrt_bounds:
  assumes "0 \<le> r" "r * r \<le> n" "n < (r + 2 ^ k) * (r + 2 ^ k)"
  shows "r \<le> isqrt k n r \<and> isqrt k n r * isqrt k n r \<le> n \<and> n < (isqrt k n r + 1) * (isqrt k n r + 1)"
  using assms
proof (induction k arbitrary: r)
  case (Suc k)
  show ?case
  proof (cases "(r + 2 ^ k) * (r + 2 ^ k) \<le> n")
    case True
    have "r + 2 ^ k + 2 ^ k = r + (2 :: int) ^ Suc k" by simp
    then have "n < (r + 2 ^ k + 2 ^ k) * (r + 2 ^ k + 2 ^ k)" using Suc.prems(3) by (simp only:)
    moreover have "0 \<le> (2 :: int) ^ k" by simp
    ultimately have "r + 2 ^ k \<le> isqrt k n (r + 2 ^ k) \<and>
        isqrt k n (r + 2 ^ k) * isqrt k n (r + 2 ^ k) \<le> n \<and>
        n < (isqrt k n (r + 2 ^ k) + 1) * (isqrt k n (r + 2 ^ k) + 1)"
      using Suc.IH [of "r + 2 ^ k"] Suc.prems(1) True by linarith
    moreover from this have "r \<le> isqrt k n (r + 2 ^ k)" using \<open>0 \<le> 2 ^ k\<close> by linarith
    ultimately show ?thesis using True by (simp add: Let_def)
  next
    case False
    then show ?thesis using Suc.IH [of r] Suc.prems by (simp add: Let_def)
  qed
qed simp

end
