(* ===== verification/Framework_Runtime.thy ===== *)
theory Framework_Runtime
  imports Rsp Balanced Go_Strings
begin

text \<open>
  The plugin runtime: the plugin interfaces (\<open>framework/interface.go\<close>), the registry
  (\<open>framework/runtime/registry.go\<close>), the framework that runs the enabled plugins
  (\<open>framework/runtime/framework.go\<close>) and the webhook plugin
  (\<open>extensions/webhook/v1alpha1/plugin.go\<close>), whose remote service is a parameter.

  A Go interface is a record of its methods; a plugin implements an interface when the field is
  present.  \<open>None\<close> as the result of a plugin call means that the call panics or does not return;
  every caller propagates it.  \<open>NormalizeScore\<close> updates the elements of the slice it is given and so
  keeps its length.  Metrics and logs are not modelled.
\<close>


section \<open>Model: plugin interfaces\<close>

record FilterPlugin =
  FilterName :: string
  Filter :: "SchedulingUnit \<Rightarrow> FederatedCluster \<Rightarrow> Result option"

record ScorePlugin =
  ScoreName :: string
  ScoreOf :: "SchedulingUnit \<Rightarrow> FederatedCluster \<Rightarrow> (int64 \<times> Result) option"
  ScoreExtensions :: "(ClusterScore list \<Rightarrow> ClusterScore list \<times> Result option) option"

record SelectPlugin =
  SelectName :: string
  SelectClusters :: "SchedulingUnit \<Rightarrow> ClusterScore list \<Rightarrow> ClusterScore list \<times> Result"

record ReplicasPlugin =
  ReplicasName :: string
  ReplicaScheduling :: "SchedulingUnit \<Rightarrow> FederatedCluster list \<Rightarrow> (ClusterReplicas list \<times> Result) option"

record Plugin =
  AsFilter :: "FilterPlugin option"
  AsScore :: "ScorePlugin option"
  AsSelect :: "SelectPlugin option"
  AsReplicas :: "ReplicasPlugin option"

definition noPlugin :: Plugin where
  "noPlugin = \<lparr>AsFilter = None, AsScore = None, AsSelect = None, AsReplicas = None\<rparr>"

record EnabledPlugins =
  FilterPlugins :: "string list"
  ScorePlugins :: "string list"
  SelectPlugins :: "string list"
  ReplicasPlugins :: "string list"

definition IsPluginEnabled :: "EnabledPlugins \<Rightarrow> string \<Rightarrow> bool" where
  "IsPluginEnabled ep pluginName \<longleftrightarrow>
     pluginName \<in> set (FilterPlugins ep) \<or> pluginName \<in> set (ScorePlugins ep) \<or>
     pluginName \<in> set (SelectPlugins ep) \<or> pluginName \<in> set (ReplicasPlugins ep)"


section \<open>Model: registry\<close>

type_synonym 'h PluginFactory = "'h \<Rightarrow> string + Plugin"
type_synonym 'h Registry = "(string, 'h PluginFactory) gomap"

text \<open>The error carries the registry as it is left.\<close>

definition Register :: "string \<Rightarrow> 'h PluginFactory \<Rightarrow> 'h Registry \<Rightarrow> 'h Registry \<times> string option" where
  "Register name factory r =
     (if map_of r name \<noteq> None then (r, Some (''a plugin named '' @ name @ '' already exists''))
      else (mput name factory r, None))"

definition Unregister :: "string \<Rightarrow> 'h Registry \<Rightarrow> 'h Registry \<times> string option" where
  "Unregister name r =
     (if map_of r name = None then (r, Some (''no plugin named '' @ name @ '' exists''))
      else (mdel name r, None))"

fun Merge :: "'h Registry \<Rightarrow> 'h Registry \<Rightarrow> 'h Registry \<times> string option" where
  "Merge [] r = (r, None)"
| "Merge ((name, factory) # rest) r =
     (case Register name factory r of
        (r', Some err) \<Rightarrow> (r', Some err)
      | (r', None) \<Rightarrow> Merge rest r')"


section \<open>Model: framework\<close>

record frameworkImpl =
  filterPlugins :: "FilterPlugin list"
  scorePlugins :: "ScorePlugin list"
  selectPlugins :: "SelectPlugin list"
  replicasPlugins :: "ReplicasPlugin list"
  profileName :: string

text \<open>
  \<open>addPlugins\<close> appends to the slice of one extension point; \<open>impl\<close> is the reflective conversion to
  the interface \<open>typeName\<close>, \<open>registered\<close> the set of names added so far.
\<close>

fun addPlugins ::
    "string \<Rightarrow> (Plugin \<Rightarrow> 'p option) \<Rightarrow> string list \<Rightarrow> (string, Plugin) gomap \<Rightarrow> string list \<Rightarrow> 'p list
     \<Rightarrow> string + 'p list" where
  "addPlugins typeName impl [] pluginsMap registered plugins = Inr plugins"
| "addPlugins typeName impl (pluginName # names) pluginsMap registered plugins =
     (case map_of pluginsMap pluginName of
        None \<Rightarrow> Inl (typeName @ '' '' @ pluginName @ '' does not exist'')
      | Some pg \<Rightarrow>
          (case impl pg of
             None \<Rightarrow> Inl (''plugin '' @ pluginName @ '' does not implement '' @ typeName)
           | Some p \<Rightarrow>
               if pluginName \<in> set registered
               then Inl (''plugin '' @ pluginName @ '' already registered as '' @ typeName)
               else addPlugins typeName impl names pluginsMap (pluginName # registered) (plugins @ [p])))"

fun instantiatePlugins ::
    "'h \<Rightarrow> EnabledPlugins \<Rightarrow> 'h Registry \<Rightarrow> (string, Plugin) gomap \<Rightarrow> string + (string, Plugin) gomap" where
  "instantiatePlugins handle enabledPlugins [] pluginsMap = Inr pluginsMap"
| "instantiatePlugins handle enabledPlugins ((name, factory) # registry) pluginsMap =
     (if \<not> IsPluginEnabled enabledPlugins name
      then instantiatePlugins handle enabledPlugins registry pluginsMap
      else case factory handle of
        Inl err \<Rightarrow> Inl (''error initializing plugin '' @ quoteStr name @ '': '' @ err)
      | Inr plugin \<Rightarrow> instantiatePlugins handle enabledPlugins registry (mput name plugin pluginsMap))"

definition NewFramework ::
    "'h Registry \<Rightarrow> 'h \<Rightarrow> EnabledPlugins \<Rightarrow> string \<Rightarrow> string + frameworkImpl" where
  "NewFramework registry handle enabledPlugins profile =
     (case instantiatePlugins handle enabledPlugins registry [] of
        Inl err \<Rightarrow> Inl err
      | Inr pluginsMap \<Rightarrow>
          (case addPlugins ''FilterPlugin'' AsFilter (FilterPlugins enabledPlugins) pluginsMap [] [] of
             Inl err \<Rightarrow> Inl err
           | Inr fs \<Rightarrow>
               (case addPlugins ''ScorePlugin'' AsScore (ScorePlugins enabledPlugins) pluginsMap [] [] of
                  Inl err \<Rightarrow> Inl err
                | Inr ss \<Rightarrow>
                    (case addPlugins ''SelectPlugin'' AsSelect (SelectPlugins enabledPlugins) pluginsMap [] [] of
                       Inl err \<Rightarrow> Inl err
                     | Inr sels \<Rightarrow>
                         (case addPlugins ''ReplicasPlugin'' AsReplicas (ReplicasPlugins enabledPlugins)
                                 pluginsMap [] [] of
                            Inl err \<Rightarrow> Inl err
                          | Inr reps \<Rightarrow>
                              Inr \<lparr>filterPlugins = fs, scorePlugins = ss, selectPlugins = sels,
                                   replicasPlugins = reps, profileName = profile\<rparr>)))))"

fun runFilters :: "FilterPlugin list \<Rightarrow> SchedulingUnit \<Rightarrow> FederatedCluster \<Rightarrow> Result option" where
  "runFilters [] su cluster = Some (NewResult Success [])"
| "runFilters (pl # pls) su cluster =
     (case Filter pl su cluster of
        None \<Rightarrow> None
      | Some pluginResult \<Rightarrow>
          if \<not> IsSuccess (Some pluginResult) then Some (SetFailedPlugin (FilterName pl) pluginResult)
          else runFilters pls su cluster)"

definition RunFilterPlugins :: "frameworkImpl \<Rightarrow> SchedulingUnit \<Rightarrow> FederatedCluster \<Rightarrow> Result option" where
  "RunFilterPlugins f su cluster = runFilters (filterPlugins f) su cluster"

definition errorText :: "Result \<Rightarrow> string" where
  "errorText r = (case AsError (Some r) of Some e \<Rightarrow> e | None \<Rightarrow> ''%!s(<nil>)'')"

text \<open>The scores one plugin gives to the clusters, before normalisation.\<close>

fun scoreList ::
    "ScorePlugin \<Rightarrow> SchedulingUnit \<Rightarrow> FederatedCluster list \<Rightarrow> (Result + ClusterScore list) option" where
  "scoreList plugin su [] = Some (Inr [])"
| "scoreList plugin su (cluster # clusters) =
     (case ScoreOf plugin su cluster of
        None \<Rightarrow> None
      | Some (score, res) \<Rightarrow>
          if \<not> IsSuccess (Some res) then
            Some (Inl (NewResult Error [''plugin '' @ quoteStr (ScoreName plugin) @ '' schedulingUnit '' @
              SchedulingUnit_Key su @ '' failed with '' @ errorText res]))
          else
            (case scoreList plugin su clusters of
               None \<Rightarrow> None
             | Some (Inl err) \<Rightarrow> Some (Inl err)
             | Some (Inr scores) \<Rightarrow> Some (Inr (\<lparr>SCluster = cluster, Score = score\<rparr> # scores))))"

fun runScores ::
    "ScorePlugin list \<Rightarrow> SchedulingUnit \<Rightarrow> FederatedCluster list \<Rightarrow> (string, ClusterScore list) gomap
     \<Rightarrow> ((string, ClusterScore list) gomap option \<times> Result option) option" where
  "runScores [] su clusters acc = Some (Some acc, None)"
| "runScores (plugin # pls) su clusters acc =
     (case scoreList plugin su clusters of
        None \<Rightarrow> None
      | Some (Inl err) \<Rightarrow> Some (None, Some err)
      | Some (Inr scores) \<Rightarrow>
          (case ScoreExtensions plugin of
             None \<Rightarrow> runScores pls su clusters (mput (ScoreName plugin) scores acc)
           | Some nrm \<Rightarrow>
               (case nrm scores of
                  (scores', res) \<Rightarrow>
                    if \<not> IsSuccess res then
                      Some (None, Some (NewResult Error [''plugin '' @ quoteStr (ScoreName plugin) @
                        '' NormalizeScore schedulingUnit '' @ SchedulingUnit_Key su @ '' failed with '' @
                        (case res of None \<Rightarrow> [] | Some r \<Rightarrow> errorText r)]))
                    else runScores pls su clusters (mput (ScoreName plugin) scores' acc))))"

definition RunScorePlugins ::
    "frameworkImpl \<Rightarrow> SchedulingUnit \<Rightarrow> FederatedCluster list
     \<Rightarrow> ((string, ClusterScore list) gomap option \<times> Result option) option" where
  "RunScorePlugins f su clusters = runScores (scorePlugins f) su clusters []"

fun runSelects ::
    "SelectPlugin list \<Rightarrow> SchedulingUnit \<Rightarrow> ClusterScore list \<Rightarrow> FederatedCluster list \<times> Result option" where
  "runSelects [] su clusterScores = (map SCluster clusterScores, None)"
| "runSelects (plugin # pls) su clusterScores =
     (case SelectClusters plugin su clusterScores of
        (newClusterScores, result) \<Rightarrow>
          if \<not> IsSuccess (Some result) then
            ([], Some (NewResult Error [''plugin '' @ quoteStr (SelectName plugin) @
               '' failed to select clusters for schedulingUnit '' @ SchedulingUnit_Key su @ '': '' @
               ResultMessage (Some result)]))
          else runSelects pls su newClusterScores)"

text \<open>
  With select plugins the loop shadows \<open>result\<close>, so success is reported by a nil result.
\<close>

definition RunSelectClustersPlugin ::
    "frameworkImpl \<Rightarrow> SchedulingUnit \<Rightarrow> ClusterScore list \<Rightarrow> FederatedCluster list \<times> Result option" where
  "RunSelectClustersPlugin f su clusterScores =
     (if selectPlugins f = [] then (map SCluster clusterScores, Some (NewResult Success []))
      else runSelects (selectPlugins f) su clusterScores)"

definition RunReplicasPlugin ::
    "frameworkImpl \<Rightarrow> SchedulingUnit \<Rightarrow> FederatedCluster list \<Rightarrow> (ClusterReplicas list \<times> Result) option" where
  "RunReplicasPlugin f su clusters =
     (if clusters = [] then Some ([], NewResult Success [''unnecessary to schedule due to no clusters''])
      else if (case DesiredReplicas su of None \<Rightarrow> True | Some n \<Rightarrow> n \<le> 0)
      then Some ([], NewResult Success [''unnecessary to schedule due to replicas less or equal zero''])
      else case replicasPlugins f of
        [] \<Rightarrow> Some ([], NewResult Success [''no replicas plugin registered in the framework''])
      | plugin # _ \<Rightarrow>
          (case ReplicaScheduling plugin su clusters of
             None \<Rightarrow> None
           | Some (replicasList, result) \<Rightarrow>
               if \<not> IsSuccess (Some result) then
                 Some (replicasList, NewResult Error [''plugin '' @ quoteStr (ReplicasName plugin) @
                   '' failed to replica scheduling for schedulingUnit '' @ SchedulingUnit_Key su @ '': '' @
                   ResultMessage (Some result)])
               else Some (replicasList, result)))"


section \<open>Model: the in-tree plugins as interface values\<close>

text \<open>
  \<open>env\<close> collects what the in-tree plugins read from outside: the Kubernetes libraries, the clock,
  the conversion of a float NaN to an integer, and the resource name that Katalyst uses for
  reclaimed CPU.
\<close>

record pluginEnv =
  envExterns :: externs
  envNow :: int
  envNanInt :: int64
  envReclaimedCPU :: string

definition filterOnly ::
    "string \<Rightarrow> (SchedulingUnit option \<Rightarrow> FederatedCluster option \<Rightarrow> Result) \<Rightarrow> Plugin" where
  "filterOnly name flt =
     noPlugin\<lparr>AsFilter := Some \<lparr>FilterName = name, Filter = (\<lambda>su c. Some (flt (Some su) (Some c)))\<rparr>\<rparr>"

definition scoreOnly ::
    "string \<Rightarrow> (SchedulingUnit option \<Rightarrow> FederatedCluster option \<Rightarrow> (int64 \<times> Result) option) \<Rightarrow> Plugin" where
  "scoreOnly name score =
     noPlugin\<lparr>AsScore := Some \<lparr>ScoreName = name, ScoreOf = (\<lambda>su c. score (Some su) (Some c)),
                ScoreExtensions = None\<rparr>\<rparr>"

definition APIResources_plugin :: Plugin where
  "APIResources_plugin = filterOnly ''APIResources'' APIResources_Filter"

definition ClusterReady_plugin :: Plugin where
  "ClusterReady_plugin = filterOnly ''ClusterReady'' ClusterReady_Filter"

definition ClusterTerminating_plugin :: Plugin where
  "ClusterTerminating_plugin = filterOnly ''ClusterTerminating'' ClusterTerminating_Filter"

definition ClusterEvicted_plugin :: "pluginEnv \<Rightarrow> Plugin" where
  "ClusterEvicted_plugin env = filterOnly ''ClusterEvicted'' (ClusterEvicted_Filter (envNow env))"

definition PlacementFilter_plugin :: Plugin where
  "PlacementFilter_plugin = filterOnly ''PlacementFilter'' PlacementFilter_Filter"

definition KatalystResourcesExist_plugin :: "pluginEnv \<Rightarrow> Plugin" where
  "KatalystResourcesExist_plugin env =
     filterOnly ''KatalystResourcesExist'' (KatalystResourcesExist_Filter (envExterns env))"

definition ClusterResourcesFit_plugin :: "pluginEnv \<Rightarrow> Plugin" where
  "ClusterResourcesFit_plugin env =
     noPlugin\<lparr>AsFilter := Some \<lparr>FilterName = ''ClusterResourcesFit'',
       Filter = (\<lambda>su c. ClusterResourcesFit_Filter (envExterns env) (Some su) (Some c))\<rparr>\<rparr>"

definition TaintToleration_plugin :: "pluginEnv \<Rightarrow> Plugin" where
  "TaintToleration_plugin env =
     (filterOnly ''TaintToleration'' (TaintToleration_Filter (envExterns env)))
       \<lparr>AsScore := Some \<lparr>ScoreName = ''TaintToleration'',
          ScoreOf = (\<lambda>su c. Some (TaintToleration_Score (envExterns env) (Some su) (Some c))),
          ScoreExtensions = Some (\<lambda>l. (TaintToleration_NormalizeScore l, None))\<rparr>\<rparr>"

definition ClusterAffinity_plugin :: "pluginEnv \<Rightarrow> Plugin" where
  "ClusterAffinity_plugin env =
     (filterOnly ''ClusterAffinity'' (ClusterAffinity_Filter (envExterns env)))
       \<lparr>AsScore := Some \<lparr>ScoreName = ''ClusterAffinity'',
          ScoreOf = (\<lambda>su c. Some (ClusterAffinity_Score (envExterns env) (Some su) (Some c))),
          ScoreExtensions = Some (\<lambda>l. (ClusterAffinity_NormalizeScore l, None))\<rparr>\<rparr>"

definition BalancedAllocation_plugin :: "pluginEnv \<Rightarrow> Plugin" where
  "BalancedAllocation_plugin env = scoreOnly ''ClusterResourcesBalancedAllocation''
     (ClusterResourcesBalancedAllocation_Score (envExterns env))"

definition LeastAllocated_plugin :: "pluginEnv \<Rightarrow> Plugin" where
  "LeastAllocated_plugin env = scoreOnly ''ClusterResourcesLeastAllocated''
     (ClusterResourcesLeastAllocated_Score (envExterns env))"

definition MostAllocated_plugin :: "pluginEnv \<Rightarrow> Plugin" where
  "MostAllocated_plugin env = scoreOnly ''ClusterResourcesMostAllocated''
     (ClusterResourcesMostAllocated_Score (envExterns env))"

definition MaxCluster_plugin :: Plugin where
  "MaxCluster_plugin = noPlugin\<lparr>AsSelect := Some \<lparr>SelectName = ''MaxCluster'',
     SelectClusters = (\<lambda>su l. case MaxCluster_SelectClusters su l of
        (out, r) \<Rightarrow> (case out of None \<Rightarrow> [] | Some xs \<Rightarrow> xs, r))\<rparr>\<rparr>"

definition PrioritySort_plugin :: Plugin where
  "PrioritySort_plugin = noPlugin\<lparr>AsSelect := Some \<lparr>SelectName = ''PrioritySort'',
     SelectClusters = PrioritySort_SelectClusters\<rparr>\<rparr>"

definition ClusterCapacityWeight_plugin :: "pluginEnv \<Rightarrow> Plugin" where
  "ClusterCapacityWeight_plugin env = noPlugin\<lparr>AsReplicas := Some \<lparr>ReplicasName = ''ClusterCapacityWeight'',
     ReplicaScheduling = ClusterCapacityWeight_ReplicaScheduling (envNanInt env) (envReclaimedCPU env)
       (envExterns env)\<rparr>\<rparr>"

definition PreferenceBinPack_plugin :: "pluginEnv \<Rightarrow> Plugin" where
  "PreferenceBinPack_plugin env = noPlugin\<lparr>AsReplicas := Some \<lparr>ReplicasName = ''PreferenceBinPack'',
     ReplicaScheduling = (\<lambda>su cs. Some (PreferenceBinPack_ReplicaScheduling (envExterns env) su cs))\<rparr>\<rparr>"


section \<open>Model: webhook plugin\<close>

record FilterResponse =
  FRSelected :: bool
  FRError :: string

record ScoreResponse =
  SRScore :: int64
  SRError :: string

record SelectResponse =
  SelectedClusterNames :: "string list"
  SelError :: string

text \<open>
  The remote service: what \<open>doRequest\<close> returns for each of the three requests, an error or the decoded
  response.
\<close>

record WebhookPlugin =
  whName :: string
  filterPath :: string
  scorePath :: string
  selectPath :: string
  doFilter :: "SchedulingUnit \<Rightarrow> FederatedCluster \<Rightarrow> string + FilterResponse"
  doScore :: "SchedulingUnit \<Rightarrow> FederatedCluster \<Rightarrow> string + ScoreResponse"
  doSelect :: "SchedulingUnit \<Rightarrow> ClusterScore list \<Rightarrow> string + SelectResponse"

definition WebhookPlugin_Filter :: "WebhookPlugin \<Rightarrow> SchedulingUnit \<Rightarrow> FederatedCluster \<Rightarrow> Result" where
  "WebhookPlugin_Filter p su cluster =
     (if filterPath p = [] then NewResult Error [''filter is not supported by the webhook'']
      else case doFilter p su cluster of
        Inl err \<Rightarrow> NewResult Error [err]
      | Inr resp \<Rightarrow>
          if FRError resp \<noteq> [] then NewResult Error [FRError resp]
          else if FRSelected resp then NewResult Success []
          else NewResult Unschedulable [''cluster(s) were filtered by webhookPlugin('' @ whName p @ '')''])"

definition WebhookPlugin_Score :: "WebhookPlugin \<Rightarrow> SchedulingUnit \<Rightarrow> FederatedCluster \<Rightarrow> int64 \<times> Result" where
  "WebhookPlugin_Score p su cluster =
     (if scorePath p = [] then (0, NewResult Error [''score is not supported by the webhook''])
      else case doScore p su cluster of
        Inl err \<Rightarrow> (0, NewResult Error [err])
      | Inr resp \<Rightarrow>
          if SRError resp \<noteq> [] then (0, NewResult Error [SRError resp])
          else (SRScore resp, NewResult Success []))"

definition WebhookPlugin_NormalizeScore :: "ClusterScore list \<Rightarrow> ClusterScore list" where
  "WebhookPlugin_NormalizeScore = DefaultNormalizeScore MaxClusterScore False"

fun pickSelected :: "(string, ClusterScore) gomap \<Rightarrow> string list \<Rightarrow> string + ClusterScore list" where
  "pickSelected clusterMap [] = Inr []"
| "pickSelected clusterMap (selected # names) =
     (case map_of clusterMap selected of
        None \<Rightarrow> Inl (''cluster '' @ quoteStr selected @ '' was not in the request sent to the webhook'')
      | Some cluster \<Rightarrow>
          (case pickSelected clusterMap names of
             Inl err \<Rightarrow> Inl err
           | Inr cs \<Rightarrow> Inr (cluster # cs)))"

definition WebhookPlugin_SelectClusters ::
    "WebhookPlugin \<Rightarrow> SchedulingUnit \<Rightarrow> ClusterScore list \<Rightarrow> ClusterScore list \<times> Result" where
  "WebhookPlugin_SelectClusters p su clusterScores =
     (if selectPath p = [] then ([], NewResult Error [''select is not supported by the webhook''])
      else
        let clusterMap = fold (\<lambda>s m. mput (CName (SCluster s)) s m) clusterScores [] in
        case doSelect p su clusterScores of
          Inl err \<Rightarrow> ([], NewResult Error [err])
        | Inr resp \<Rightarrow>
            if SelError resp \<noteq> [] then ([], NewResult Error [SelError resp])
            else
              (case pickSelected clusterMap (SelectedClusterNames resp) of
                 Inl err \<Rightarrow> ([], NewResult Error [err])
               | Inr selectedClusters \<Rightarrow> (selectedClusters, NewResult Success [])))"

definition Webhook_plugin :: "WebhookPlugin \<Rightarrow> Plugin" where
  "Webhook_plugin p =
     \<lparr>AsFilter = Some \<lparr>FilterName = whName p, Filter = (\<lambda>su c. Some (WebhookPlugin_Filter p su c))\<rparr>,
      AsScore = Some \<lparr>ScoreName = whName p, ScoreOf = (\<lambda>su c. Some (WebhookPlugin_Score p su c)),
        ScoreExtensions = Some (\<lambda>l. (WebhookPlugin_NormalizeScore l, None))\<rparr>,
      AsSelect = Some \<lparr>SelectName = whName p, SelectClusters = WebhookPlugin_SelectClusters p\<rparr>,
      AsReplicas = None\<rparr>"


lemma set_mput: "x \<in> set (mput k v m) \<Longrightarrow> x = (k, v) \<or> x \<in> set m"
  by (induction m) (auto simp: mput_def split: if_splits)


section \<open>Contracts of the plugin interfaces\<close>

text \<open>
  What the scheduler relies on: a select plugin only narrows or reorders the clusters it is given,
  a replicas plugin only assigns replicas to the clusters it is given, and normalisation keeps the
  clusters of the score list.
\<close>

locale select_plugin =
  fixes select :: "SchedulingUnit \<Rightarrow> ClusterScore list \<Rightarrow> ClusterScore list \<times> Result"
  assumes select_subset: "SCluster ` set (fst (select su l)) \<subseteq> SCluster ` set l"

locale score_extension =
  fixes nrm :: "ClusterScore list \<Rightarrow> ClusterScore list \<times> Result option"
  assumes normalize_clusters: "map SCluster (fst (nrm l)) = map SCluster l"

locale replicas_plugin =
  fixes replicate_to :: "SchedulingUnit \<Rightarrow> FederatedCluster list \<Rightarrow> (ClusterReplicas list \<times> Result) option"
  assumes replicas_subset: "replicate_to su cs = Some (out, r) \<Longrightarrow> RCluster ` set out \<subseteq> set cs"

interpretation MaxCluster: select_plugin "SelectClusters (the (AsSelect MaxCluster_plugin))"
proof
  fix su l
  show "SCluster ` set (fst (SelectClusters (the (AsSelect MaxCluster_plugin)) su l)) \<subseteq> SCluster ` set l"
    using set_take_subset [of _ "sort_key (\<lambda>s. - Score s) l"]
    by (auto simp: MaxCluster_plugin_def noPlugin_def MaxCluster_SelectClusters_def Let_def
      split: option.splits)
qed

interpretation PrioritySort: select_plugin PrioritySort_SelectClusters
  by unfold_locales (auto simp: PrioritySort_SelectClusters_def Let_def image_image)

lemma clusterMap_members:
  "map_of (fold (\<lambda>s m. mput (CName (SCluster s)) s m) l acc) n = Some s \<Longrightarrow> s \<in> set l \<or> map_of acc n = Some s"
  by (induction l arbitrary: acc) (force simp: map_of_mput split: if_splits)+

lemma pickSelected_members:
  "pickSelected m names = Inr cs \<Longrightarrow> s \<in> set cs \<Longrightarrow> \<exists>n. map_of m n = Some s"
  by (induction names arbitrary: cs) (auto split: option.splits sum.splits)

interpretation Webhook: select_plugin "WebhookPlugin_SelectClusters p" for p
proof
  fix su and l :: "ClusterScore list"
  let ?m = "fold (\<lambda>s m. mput (CName (SCluster s)) s m) l []"
  have "s \<in> set l" if "pickSelected ?m names = Inr cs" "s \<in> set cs" for names cs s
    using pickSelected_members [OF that] clusterMap_members [of l "[]"] by fastforce
  then show "SCluster ` set (fst (WebhookPlugin_SelectClusters p su l)) \<subseteq> SCluster ` set l"
    by (auto simp: WebhookPlugin_SelectClusters_def Let_def split: sum.splits)
qed

lemma DefaultNormalizeScore_clusters: "map SCluster (DefaultNormalizeScore m reverse l) = map SCluster l"
  by (auto simp: DefaultNormalizeScore_def Let_def comp_def)

interpretation TaintToleration: score_extension "\<lambda>l. (TaintToleration_NormalizeScore l, None)"
  by unfold_locales (simp add: TaintToleration_NormalizeScore_def DefaultNormalizeScore_clusters)

interpretation ClusterAffinity: score_extension "\<lambda>l. (ClusterAffinity_NormalizeScore l, None)"
  by unfold_locales (simp add: ClusterAffinity_NormalizeScore_def DefaultNormalizeScore_clusters)

interpretation WebhookScore: score_extension "\<lambda>l. (WebhookPlugin_NormalizeScore l, None)"
  by unfold_locales (simp add: WebhookPlugin_NormalizeScore_def DefaultNormalizeScore_clusters)

interpretation CapacityWeight: replicas_plugin "ClusterCapacityWeight_ReplicaScheduling nanInt cpu ext"
  for nanInt cpu ext
  by unfold_locales (auto simp: ClusterCapacityWeight_ReplicaScheduling_def Let_def
    dest: clusterReplicasList_members split: sum.splits option.splits prod.splits)

interpretation BinPacking: replicas_plugin "\<lambda>su cs. Some (PreferenceBinPack_ReplicaScheduling ext su cs)"
  for ext
  by unfold_locales (auto simp: PreferenceBinPack_ReplicaScheduling_def Let_def
    dest: clusterReplicasList_members split: prod.splits)


section \<open>The framework under the contracts\<close>

locale plugin_framework =
  fixes f :: frameworkImpl
  assumes selects: "sel \<in> set (selectPlugins f) \<Longrightarrow> select_plugin (SelectClusters sel)"
    and scores: "sc \<in> set (scorePlugins f) \<Longrightarrow> ScoreExtensions sc = Some nrm \<Longrightarrow> score_extension nrm"
    and replicas: "rep \<in> set (replicasPlugins f) \<Longrightarrow> replicas_plugin (ReplicaScheduling rep)"
begin

lemma runSelects_subset:
  "set pls \<subseteq> set (selectPlugins f) \<Longrightarrow> set (fst (runSelects pls su l)) \<subseteq> SCluster ` set l"
proof (induction pls arbitrary: l)
  case (Cons p pls)
  obtain l' r where s: "SelectClusters p su l = (l', r)" by fastforce
  have "SCluster ` set l' \<subseteq> SCluster ` set l"
    using select_plugin.select_subset [OF selects, of p su l] Cons.prems s by auto
  then show ?case using Cons.IH [of l'] Cons.prems s by (auto simp del: image_subset_iff)
qed simp

lemma RunSelectClustersPlugin_subset: "set (fst (RunSelectClustersPlugin f su l)) \<subseteq> SCluster ` set l"
  using runSelects_subset [OF subset_refl] by (simp add: RunSelectClustersPlugin_def)

lemma scoreList_clusters: "scoreList p su cs = Some (Inr l) \<Longrightarrow> map SCluster l = cs"
  by (induction cs arbitrary: l) (auto split: option.splits sum.splits if_splits)

lemma runScores_clusters:
  assumes "set pls \<subseteq> set (scorePlugins f)" "\<forall>(n, l) \<in> set acc. map SCluster l = cs"
    and "runScores pls su cs acc = Some (Some out, r)"
  shows "\<forall>(n, l) \<in> set out. map SCluster l = cs"
  using assms
proof (induction pls arbitrary: acc)
  case (Cons p pls)
  obtain l where l: "scoreList p su cs = Some (Inr l)"
    using Cons.prems(3) by (auto split: option.splits sum.splits)
  have put: "\<forall>(n, l) \<in> set (mput (ScoreName p) l' acc). map SCluster l = cs" if "map SCluster l' = cs" for l'
    using Cons.prems(2) that set_mput by fastforce
  show ?case
  proof (cases "ScoreExtensions p")
    case None
    then show ?thesis
      using Cons.IH [OF _ put [OF scoreList_clusters [OF l]]] Cons.prems l by simp
  next
    case (Some nrm)
    obtain l' r' where n: "nrm l = (l', r')" by fastforce
    have "map SCluster l' = cs"
      using score_extension.normalize_clusters [OF scores, of p nrm l] Some n Cons.prems(1)
        scoreList_clusters [OF l] by simp
    from Cons.IH [OF _ put [OF this]] show ?thesis
      using Cons.prems l Some n by (auto split: if_splits)
  qed
qed simp

lemma RunScorePlugins_clusters:
  "RunScorePlugins f su cs = Some (Some out, r) \<Longrightarrow> (n, l) \<in> set out \<Longrightarrow> map SCluster l = cs"
  using runScores_clusters [of "scorePlugins f" "[]" cs su out r] by (auto simp: RunScorePlugins_def)

lemma RunReplicasPlugin_subset:
  assumes "RunReplicasPlugin f su cs = Some (out, r)"
  shows "RCluster ` set out \<subseteq> set cs"
proof (cases "replicasPlugins f")
  case Nil
  then show ?thesis using assms by (auto simp: RunReplicasPlugin_def split: if_splits)
next
  case (Cons p ps)
  then show ?thesis using assms replicas_plugin.replicas_subset [OF replicas, of p su cs]
    by (fastforce simp: RunReplicasPlugin_def split: if_splits option.splits)
qed

end


section \<open>Frameworks built from a registry\<close>

definition plugin_ok :: "Plugin \<Rightarrow> bool" where
  "plugin_ok p \<longleftrightarrow>
     (\<forall>s. AsSelect p = Some s \<longrightarrow> select_plugin (SelectClusters s)) \<and>
     (\<forall>s n. AsScore p = Some s \<longrightarrow> ScoreExtensions s = Some n \<longrightarrow> score_extension n) \<and>
     (\<forall>r. AsReplicas p = Some r \<longrightarrow> replicas_plugin (ReplicaScheduling r))"

lemmas plugin_defs = noPlugin_def filterOnly_def scoreOnly_def APIResources_plugin_def
  ClusterReady_plugin_def ClusterTerminating_plugin_def ClusterEvicted_plugin_def
  PlacementFilter_plugin_def KatalystResourcesExist_plugin_def ClusterResourcesFit_plugin_def
  TaintToleration_plugin_def ClusterAffinity_plugin_def BalancedAllocation_plugin_def
  LeastAllocated_plugin_def MostAllocated_plugin_def PrioritySort_plugin_def
  ClusterCapacityWeight_plugin_def PreferenceBinPack_plugin_def Webhook_plugin_def

lemma plugin_ok_filterOnly: "plugin_ok (filterOnly n flt)"
  by (simp add: plugin_ok_def plugin_defs)

lemma plugin_ok_scoreOnly: "plugin_ok (scoreOnly n score)"
  by (simp add: plugin_ok_def plugin_defs)

lemma plugin_ok_intree:
  "plugin_ok (ClusterResourcesFit_plugin env)" "plugin_ok (TaintToleration_plugin env)"
  "plugin_ok (ClusterAffinity_plugin env)" "plugin_ok PrioritySort_plugin"
  "plugin_ok (ClusterCapacityWeight_plugin env)" "plugin_ok (PreferenceBinPack_plugin env)"
  "plugin_ok (Webhook_plugin w)"
  using TaintToleration.score_extension_axioms ClusterAffinity.score_extension_axioms
    WebhookScore.score_extension_axioms PrioritySort.select_plugin_axioms Webhook.select_plugin_axioms
    CapacityWeight.replicas_plugin_axioms BinPacking.replicas_plugin_axioms
  by (auto simp: plugin_ok_def plugin_defs)

lemma plugin_ok_MaxCluster: "plugin_ok MaxCluster_plugin"
  using MaxCluster.select_plugin_axioms by (auto simp: plugin_ok_def MaxCluster_plugin_def noPlugin_def)

lemma instantiatePlugins_ok:
  assumes "instantiatePlugins h ep registry m = Inr pm" "map_of pm n = Some p"
  shows "map_of m n = Some p \<or> (\<exists>factory. (n, factory) \<in> set registry \<and> factory h = Inr p)"
  using assms
proof (induction registry arbitrary: m)
  case (Cons e registry)
  obtain name factory where e: "e = (name, factory)" by fastforce
  show ?case using Cons.prems Cons.IH
    by (fastforce simp: e map_of_mput split: if_splits sum.splits)
qed simp

lemma addPlugins_members:
  assumes "addPlugins t impl names m reg acc = Inr out" "x \<in> set out"
  shows "x \<in> set acc \<or> (\<exists>n p. n \<in> set names \<and> map_of m n = Some p \<and> impl p = Some x)"
  using assms
proof (induction names arbitrary: reg acc)
  case (Cons n names)
  obtain p y where n: "map_of m n = Some p" "impl p = Some y"
    and rest: "addPlugins t impl names m (n # reg) (acc @ [y]) = Inr out"
    using Cons.prems(1) by (auto split: option.splits if_splits)
  from Cons.IH [OF rest Cons.prems(2)] n show ?case by auto
qed simp

text \<open>Every framework built from a registry of well-behaved plugins satisfies the contracts.\<close>

lemma NewFramework_contract:
  assumes "NewFramework registry h ep profile = Inr f"
    and "\<And>n factory p. (n, factory) \<in> set registry \<Longrightarrow> factory h = Inr p \<Longrightarrow> plugin_ok p"
  shows "plugin_framework f"
proof -
  obtain pm where pm: "instantiatePlugins h ep registry [] = Inr pm"
    and s: "addPlugins ''ScorePlugin'' AsScore (ScorePlugins ep) pm [] [] = Inr (scorePlugins f)"
    and l: "addPlugins ''SelectPlugin'' AsSelect (SelectPlugins ep) pm [] [] = Inr (selectPlugins f)"
    and r: "addPlugins ''ReplicasPlugin'' AsReplicas (ReplicasPlugins ep) pm [] [] = Inr (replicasPlugins f)"
    using assms(1) by (auto simp: NewFramework_def split: sum.splits)
  have ok: "plugin_ok p" if "map_of pm n = Some p" for n p
    using instantiatePlugins_ok [OF pm that] assms(2) by auto
  show ?thesis
  proof (rule plugin_framework.intro)
    show "select_plugin (SelectClusters sel)" if "sel \<in> set (selectPlugins f)" for sel
      using addPlugins_members [OF l that] ok by (auto simp: plugin_ok_def)
    show "score_extension nrm" if "sc \<in> set (scorePlugins f)" "ScoreExtensions sc = Some nrm" for sc nrm
      using addPlugins_members [OF s that(1)] ok that(2) unfolding plugin_ok_def by auto
    show "replicas_plugin (ReplicaScheduling rep)" if "rep \<in> set (replicasPlugins f)" for rep
      using addPlugins_members [OF r that] ok by (auto simp: plugin_ok_def)
  qed
qed
end
