(* ===== verification/Generic_Scheduler.thy ===== *)
theory Generic_Scheduler
  imports Framework_Runtime
begin

text \<open>
  The scheduling algorithm, \<open>pkg/controllers/scheduler/core/generic_scheduler.go\<close>: filter, score,
  select, assign replicas.  \<open>None\<close> is a panic or a plugin that does not return.
\<close>


section \<open>Model\<close>

record Diagnosis =
  ClusterToResultMap :: "(string, Result) gomap"
  UnschedulablePlugins :: "string set"

datatype ScheduleError = FitError nat Diagnosis | ScheduleFailed string

record ScheduleResult =
  SuggestedClusters :: "(string, int64 option) gomap"

definition ClusterSet :: "ScheduleResult \<Rightarrow> string set" where
  "ClusterSet result = set (mkeys (SuggestedClusters result))"

definition ScheduleResult_String :: "ScheduleResult \<Rightarrow> string" where
  "ScheduleResult_String result =
     ''['' @ joinStr '', '' (map (\<lambda>(cluster, replicas). cluster @ '':'' @
        (case replicas of None \<Rightarrow> ''nil'' | Some n \<Rightarrow> formatInt n)) (SuggestedClusters result)) @ '']''"

text \<open>\<open>FitError.Error\<close>: a histogram of the reasons, sorted as strings.\<close>

definition reasonsHistogram :: "Diagnosis \<Rightarrow> (string, int) gomap" where
  "reasonsHistogram d =
     fold (\<lambda>reason m. mput reason (mget 0 m reason + 1) m)
       (concat (map Reasons (mvals (ClusterToResultMap d)))) []"

definition FitError_Error :: "nat \<Rightarrow> Diagnosis \<Rightarrow> string" where
  "FitError_Error numAllClusters d =
     ''0/'' @ formatInt (int numAllClusters) @ '' clusters are available: '' @
     joinStr '', '' (sort (map (\<lambda>(k, v). formatInt v @ '' '' @ k) (reasonsHistogram d)))"

fun fitLoop ::
    "frameworkImpl \<Rightarrow> SchedulingUnit \<Rightarrow> FederatedCluster list \<Rightarrow> FederatedCluster list \<Rightarrow> Diagnosis
     \<Rightarrow> (FederatedCluster list \<times> Diagnosis) option" where
  "fitLoop fwk su [] ret diagnosis = Some (ret, diagnosis)"
| "fitLoop fwk su (cluster # clusters) ret diagnosis =
     (case RunFilterPlugins fwk su cluster of
        None \<Rightarrow> None
      | Some result \<Rightarrow>
          if \<not> IsSuccess (Some result) then
            fitLoop fwk su clusters ret
              \<lparr>ClusterToResultMap = mput (CName cluster) result (ClusterToResultMap diagnosis),
               UnschedulablePlugins = insert (rfailedPlugin result) (UnschedulablePlugins diagnosis)\<rparr>
          else fitLoop fwk su clusters (ret @ [cluster]) diagnosis)"

definition findClustersThatFitWorkload ::
    "frameworkImpl \<Rightarrow> SchedulingUnit \<Rightarrow> FederatedCluster list
     \<Rightarrow> (FederatedCluster list \<times> Diagnosis) option" where
  "findClustersThatFitWorkload fwk su clusters =
     fitLoop fwk su clusters [] \<lparr>ClusterToResultMap = [], UnschedulablePlugins = {}\<rparr>"

definition totalScore :: "(string, ClusterScore list) gomap \<Rightarrow> nat \<Rightarrow> int64" where
  "totalScore scores i = fold (\<lambda>(_, l) acc. add64 acc (Score (l ! i))) scores 0"

definition scoreClusters ::
    "frameworkImpl \<Rightarrow> SchedulingUnit \<Rightarrow> FederatedCluster list \<Rightarrow> (string + ClusterScore list) option" where
  "scoreClusters fwk su clusters =
     (case RunScorePlugins fwk su clusters of
        None \<Rightarrow> None
      | Some (scores, result) \<Rightarrow>
          if \<not> IsSuccess result then
            Some (Inl (case AsError result of None \<Rightarrow> [] | Some e \<Rightarrow> e))
          else Some (Inr (map (\<lambda>i. \<lparr>SCluster = clusters ! i,
                 Score = totalScore (case scores of None \<Rightarrow> [] | Some m \<Rightarrow> m) i\<rparr>) [0..<length clusters])))"

definition selectClusters ::
    "frameworkImpl \<Rightarrow> SchedulingUnit \<Rightarrow> ClusterScore list \<Rightarrow> string + FederatedCluster list" where
  "selectClusters fwk su clusterScores =
     (case RunSelectClustersPlugin fwk su clusterScores of
        (clusters, result) \<Rightarrow>
          if \<not> IsSuccess result then Inl (case AsError result of None \<Rightarrow> [] | Some e \<Rightarrow> e)
          else Inr clusters)"

definition replicaScheduling ::
    "frameworkImpl \<Rightarrow> SchedulingUnit \<Rightarrow> FederatedCluster list \<Rightarrow> (string + ClusterReplicas list) option" where
  "replicaScheduling fwk su clusters =
     (case RunReplicasPlugin fwk su clusters of
        None \<Rightarrow> None
      | Some (l, result) \<Rightarrow>
          if \<not> IsSuccess (Some result) then
            Some (Inl (case AsError (Some result) of None \<Rightarrow> [] | Some e \<Rightarrow> e))
          else Some (Inr l))"

definition Schedule ::
    "frameworkImpl \<Rightarrow> SchedulingUnit \<Rightarrow> FederatedCluster list \<Rightarrow> (ScheduleError + ScheduleResult) option" where
  "Schedule fwk su clusters =
     (if StickyCluster su \<and> CurrentClusters su \<noteq> []
      then Some (Inr \<lparr>SuggestedClusters = CurrentClusters su\<rparr>)
      else case findClustersThatFitWorkload fwk su clusters of
        None \<Rightarrow> None
      | Some (feasibleClusters, diagnosis) \<Rightarrow>
          if feasibleClusters = [] then Some (Inl (FitError (length clusters) diagnosis))
          else case scoreClusters fwk su feasibleClusters of
            None \<Rightarrow> None
          | Some (Inl err) \<Rightarrow> Some (Inl (ScheduleFailed (''failed to scoreClusters: '' @ err)))
          | Some (Inr clusterScores) \<Rightarrow>
              (case selectClusters fwk su clusterScores of
                 Inl err \<Rightarrow> Some (Inl (ScheduleFailed (''failed to selectClusters: '' @ err)))
               | Inr selectedClusters \<Rightarrow>
                   if SUSchedulingMode su = Duplicate then
                     Some (Inr \<lparr>SuggestedClusters =
                       fold (\<lambda>cluster m. mput (CName cluster) None m) selectedClusters []\<rparr>)
                   else case replicaScheduling fwk su selectedClusters of
                     None \<Rightarrow> None
                   | Some (Inl err) \<Rightarrow>
                       Some (Inl (ScheduleFailed (''failed to do replicaScheduling: '' @ err)))
                   | Some (Inr clusterReplicaList) \<Rightarrow>
                       Some (Inr \<lparr>SuggestedClusters =
                         fold (\<lambda>r m. mput (CName (RCluster r)) (Some (Replicas r)) m) clusterReplicaList []\<rparr>)))"

text \<open>Statement vocabulary: a cluster passes the filters of a framework.\<close>

definition passes :: "frameworkImpl \<Rightarrow> SchedulingUnit \<Rightarrow> FederatedCluster \<Rightarrow> bool" where
  "passes fwk su c \<longleftrightarrow> list_all (\<lambda>p. map_option rcode (Filter p su c) = Some Success) (filterPlugins fwk)"


section \<open>Filtering\<close>

lemma runFilters_Success:
  "runFilters pls su c = Some r \<Longrightarrow> rcode r = Success \<longleftrightarrow>
     list_all (\<lambda>p. map_option rcode (Filter p su c) = Some Success) pls"
  by (induction pls) (auto simp: NewResult_def IsSuccess_def SetFailedPlugin_def split: option.splits if_splits)

lemma passes_iff: "RunFilterPlugins fwk su c = Some r \<Longrightarrow> passes fwk su c \<longleftrightarrow> rcode r = Success"
  using runFilters_Success by (simp add: passes_def RunFilterPlugins_def)

lemma runFilters_failed:
  "runFilters pls su c = Some r \<Longrightarrow> rcode r \<noteq> Success \<Longrightarrow>
     \<exists>p \<in> set pls. rfailedPlugin r = FilterName p \<and> map_option rcode (Filter p su c) = Some (rcode r)"
  by (induction pls) (auto simp: NewResult_def IsSuccess_def SetFailedPlugin_def split: option.splits if_splits)

lemma fitLoop_feasible:
  assumes "fitLoop fwk su cs ret d = Some (out, d')"
  shows "out = ret @ filter (passes fwk su) cs"
  using assms
proof (induction cs arbitrary: ret d)
  case (Cons c cs)
  obtain r where r: "RunFilterPlugins fwk su c = Some r"
    using Cons.prems by (auto split: option.splits)
  then show ?case
    using Cons.IH [of "ret @ [c]" d] Cons.IH [of ret] Cons.prems passes_iff [OF r]
    by (auto simp: IsSuccess_def split: if_splits)
qed simp

lemma fitLoop_diagnosis:
  assumes "fitLoop fwk su cs ret d = Some (out, d')"
  shows "set (mkeys (ClusterToResultMap d')) =
       set (mkeys (ClusterToResultMap d)) \<union> CName ` {c \<in> set cs. \<not> passes fwk su c}"
    and "UnschedulablePlugins d' = UnschedulablePlugins d \<union>
       {rfailedPlugin r | c r. c \<in> set cs \<and> RunFilterPlugins fwk su c = Some r \<and> rcode r \<noteq> Success}"
  using assms
proof (induction cs arbitrary: ret d)
  case (Cons c cs)
  {
    case 1
    then obtain r where r: "RunFilterPlugins fwk su c = Some r" by (auto split: option.splits)
    have ps: "passes fwk su c \<longleftrightarrow> rcode r = Success" using passes_iff [OF r] .
    show ?case
    proof (cases "rcode r = Success")
      case True
      then have "fitLoop fwk su cs (ret @ [c]) d = Some (out, d')" using 1 r by (simp add: IsSuccess_def)
      from Cons.IH(1) [OF this] show ?thesis using True ps by auto
    next
      case False
      then have "fitLoop fwk su cs ret \<lparr>ClusterToResultMap = mput (CName c) r (ClusterToResultMap d),
          UnschedulablePlugins = insert (rfailedPlugin r) (UnschedulablePlugins d)\<rparr> = Some (out, d')"
        using 1 r by (simp add: IsSuccess_def)
      from Cons.IH(1) [OF this] show ?thesis using False ps by (auto simp: gomap_simps)
    qed
  next
    case 2
    then obtain r where r: "RunFilterPlugins fwk su c = Some r" by (auto split: option.splits)
    show ?case
    proof (cases "rcode r = Success")
      case True
      then have "fitLoop fwk su cs (ret @ [c]) d = Some (out, d')" using 2 r by (simp add: IsSuccess_def)
      from Cons.IH(2) [OF this] show ?thesis using True r by auto
    next
      case False
      then have "fitLoop fwk su cs ret \<lparr>ClusterToResultMap = mput (CName c) r (ClusterToResultMap d),
          UnschedulablePlugins = insert (rfailedPlugin r) (UnschedulablePlugins d)\<rparr> = Some (out, d')"
        using 2 r by (simp add: IsSuccess_def)
      from Cons.IH(2) [OF this] show ?thesis using False r by auto
    qed
  }
qed auto

lemma findClusters_feasible:
  "findClustersThatFitWorkload fwk su cs = Some (fs, d) \<Longrightarrow> fs = filter (passes fwk su) cs"
  using fitLoop_feasible by (fastforce simp: findClustersThatFitWorkload_def)

lemma findClusters_diagnosis:
  assumes "findClustersThatFitWorkload fwk su cs = Some (fs, d)"
  shows "set (mkeys (ClusterToResultMap d)) = CName ` {c \<in> set cs. \<not> passes fwk su c}"
    and "p \<in> UnschedulablePlugins d \<Longrightarrow> \<exists>pl \<in> set (filterPlugins fwk). FilterName pl = p"
proof -
  note run = assms [unfolded findClustersThatFitWorkload_def]
  show "set (mkeys (ClusterToResultMap d)) = CName ` {c \<in> set cs. \<not> passes fwk su c}"
    using fitLoop_diagnosis(1) [OF run] by simp
  assume "p \<in> UnschedulablePlugins d"
  then show "\<exists>pl \<in> set (filterPlugins fwk). FilterName pl = p"
    using fitLoop_diagnosis(2) [OF run] runFilters_failed by (fastforce simp: RunFilterPlugins_def)
qed


section \<open>The suggested clusters\<close>

lemma scoreClusters_clusters:
  "scoreClusters fwk su cs = Some (Inr l) \<Longrightarrow> map SCluster l = cs"
  by (auto simp: scoreClusters_def comp_def map_nth split: option.splits if_splits)

lemma keys_fold_mput: "set (mkeys (fold (\<lambda>x m. mput (k x) (v x) m) xs acc)) = k ` set xs \<union> set (mkeys acc)"
  by (induction xs arbitrary: acc) (auto simp: gomap_simps)

text \<open>The steps of a successful run that does not keep its placement.\<close>

lemma Schedule_Inr:
  assumes "Schedule fwk su cs = Some (Inr r)" "\<not> (StickyCluster su \<and> CurrentClusters su \<noteq> [])"
  obtains l sel where "scoreClusters fwk su (filter (passes fwk su) cs) = Some (Inr l)"
    and "selectClusters fwk su l = Inr sel"
    and "if SUSchedulingMode su = Duplicate
         then SuggestedClusters r = fold (\<lambda>cluster m. mput (CName cluster) None m) sel []
         else \<exists>out. replicaScheduling fwk su sel = Some (Inr out) \<and>
           SuggestedClusters r = fold (\<lambda>r m. mput (CName (RCluster r)) (Some (Replicas r)) m) out []"
proof -
  obtain fs d where f: "findClustersThatFitWorkload fwk su cs = Some (fs, d)" and "fs \<noteq> []"
    using assms by (auto simp: Schedule_def split: option.splits if_splits)
  then show thesis
    using assms findClusters_feasible [OF f] that
    by (auto simp: Schedule_def split: option.splits sum.splits if_splits)
qed

context plugin_framework
begin

lemma selectClusters_subset:
  assumes "scoreClusters f su cs = Some (Inr l)" "selectClusters f su l = Inr sel"
  shows "set sel \<subseteq> set cs"
proof -
  have "sel = fst (RunSelectClustersPlugin f su l)"
    using assms(2) by (auto simp: selectClusters_def split: if_splits prod.splits)
  moreover have "SCluster ` set l = set cs"
    using scoreClusters_clusters [OF assms(1)] by (metis set_map)
  ultimately show ?thesis using RunSelectClustersPlugin_subset [of su l] by simp
qed

lemma replicaScheduling_subset:
  assumes "replicaScheduling f su cs = Some (Inr out)"
  shows "RCluster ` set out \<subseteq> set cs"
proof -
  obtain res where "RunReplicasPlugin f su cs = Some (out, res)"
    using assms by (auto simp: replicaScheduling_def split: option.splits if_splits)
  then show ?thesis by (rule RunReplicasPlugin_subset)
qed

text \<open>Whatever plugins are enabled, only clusters that pass every filter are suggested.\<close>

lemma suggested_pass_filters:
  assumes "Schedule f su cs = Some (Inr r)" "\<not> (StickyCluster su \<and> CurrentClusters su \<noteq> [])"
  shows "ClusterSet r \<subseteq> CName ` {c \<in> set cs. passes f su c}"
proof -
  obtain l sel where l: "scoreClusters f su (filter (passes f su) cs) = Some (Inr l)"
    and sel: "selectClusters f su l = Inr sel"
    and r: "if SUSchedulingMode su = Duplicate
         then SuggestedClusters r = fold (\<lambda>cluster m. mput (CName cluster) None m) sel []
         else \<exists>out. replicaScheduling f su sel = Some (Inr out) \<and>
           SuggestedClusters r = fold (\<lambda>r m. mput (CName (RCluster r)) (Some (Replicas r)) m) out []"
    using Schedule_Inr [OF assms] by blast
  have sub: "set sel \<subseteq> {c \<in> set cs. passes f su c}" using selectClusters_subset [OF l sel] by auto
  show ?thesis
  proof (cases "SUSchedulingMode su = Duplicate")
    case True
    then have "ClusterSet r = CName ` set sel" using r by (simp add: ClusterSet_def keys_fold_mput)
    then show ?thesis using sub by auto
  next
    case False
    then obtain out where out: "replicaScheduling f su sel = Some (Inr out)"
      and "SuggestedClusters r = fold (\<lambda>r m. mput (CName (RCluster r)) (Some (Replicas r)) m) out []"
      using r by auto
    then have "ClusterSet r = CName ` RCluster ` set out"
      by (simp add: ClusterSet_def keys_fold_mput image_image)
    then show ?thesis using sub replicaScheduling_subset [OF out] by blast
  qed
qed

end


section \<open>Properties\<close>



end
