(* ===== verification/Profile.thy ===== *)
theory Profile
  imports Generic_Scheduler
begin

text \<open>
  How a scheduling profile becomes a framework: \<open>pkg/controllers/scheduler/profile.go\<close>,
  \<open>webhook.go\<close> and \<open>apis/core/v1alpha1/extensions_schedulingprofile.go\<close>.  The HTTP transport of a
  webhook is a parameter.
\<close>


section \<open>Model\<close>

record PluginSet =
  Enabled :: "string list"
  Disabled :: "string list"

record ProfilePlugins =
  PPFilter :: PluginSet
  PPScore :: PluginSet
  PPSelect :: PluginSet

record SchedulingProfile =
  SPName :: string
  SPPlugins :: "ProfilePlugins option"

definition DefaultSchedulerName :: string where
  "DefaultSchedulerName = ''default-scheduler''"

definition ProfileName :: "SchedulingProfile option \<Rightarrow> string" where
  "ProfileName s = (case s of None \<Rightarrow> DefaultSchedulerName | Some p \<Rightarrow> SPName p)"

definition GetDefaultEnabledPlugins :: EnabledPlugins where
  "GetDefaultEnabledPlugins =
     \<lparr>FilterPlugins = [''APIResources'', ''TaintToleration'', ''PlacementFilter'', ''ClusterAffinity'',
        ''ClusterReady'', ''ClusterTerminating'', ''ClusterEvicted''],
      ScorePlugins = [''TaintToleration'', ''ClusterResourcesBalancedAllocation'',
        ''ClusterResourcesLeastAllocated'', ''ClusterAffinity''],
      SelectPlugins = [''PrioritySort'', ''MaxCluster''],
      ReplicasPlugins = [''ClusterCapacityWeight'']\<rparr>"

definition reconcileExtPoint :: "string list \<Rightarrow> PluginSet \<Rightarrow> string list" where
  "reconcileExtPoint enabled pluginSet =
     (if ''*'' \<in> set (Disabled pluginSet) then []
      else filter (\<lambda>e. e \<notin> set (Disabled pluginSet)) enabled) @ Enabled pluginSet"

definition applyProfile :: "EnabledPlugins \<Rightarrow> SchedulingProfile \<Rightarrow> EnabledPlugins" where
  "applyProfile base profile =
     (case SPPlugins profile of
        None \<Rightarrow> base
      | Some plugins \<Rightarrow>
          base\<lparr>FilterPlugins := reconcileExtPoint (FilterPlugins base) (PPFilter plugins),
               ScorePlugins := reconcileExtPoint (ScorePlugins base) (PPScore plugins),
               SelectPlugins := reconcileExtPoint (SelectPlugins base) (PPSelect plugins)\<rparr>)"

definition inTreePlugins :: "pluginEnv \<Rightarrow> (string, Plugin) gomap" where
  "inTreePlugins env =
     [(''APIResources'', APIResources_plugin),
      (''ClusterReady'', ClusterReady_plugin),
      (''ClusterTerminating'', ClusterTerminating_plugin),
      (''ClusterAffinity'', ClusterAffinity_plugin env),
      (''ClusterResourcesFit'', ClusterResourcesFit_plugin env),
      (''PlacementFilter'', PlacementFilter_plugin),
      (''KatalystResourcesExist'', KatalystResourcesExist_plugin env),
      (''TaintToleration'', TaintToleration_plugin env),
      (''ClusterResourcesBalancedAllocation'', BalancedAllocation_plugin env),
      (''ClusterResourcesLeastAllocated'', LeastAllocated_plugin env),
      (''ClusterResourcesMostAllocated'', MostAllocated_plugin env),
      (''MaxCluster'', MaxCluster_plugin),
      (''ClusterCapacityWeight'', ClusterCapacityWeight_plugin env),
      (''ClusterEvicted'', ClusterEvicted_plugin env),
      (''PreferenceBinPack'', PreferenceBinPack_plugin env),
      (''PrioritySort'', PrioritySort_plugin)]"

text \<open>The factories of the in-tree plugins ignore the handle and never fail.\<close>

definition inTreeRegistry :: "pluginEnv \<Rightarrow> 'h Registry" where
  "inTreeRegistry env = map (\<lambda>(name, plugin). (name, \<lambda>_. Inr plugin)) (inTreePlugins env)"

text \<open>The plugin cache of the scheduler; \<open>sync.Map.Range\<close> visits every name once.\<close>

fun registerWebhooks ::
    "(string, WebhookPlugin) gomap \<Rightarrow> 'h Registry \<Rightarrow> 'h Registry \<times> string option" where
  "registerWebhooks [] registry = (registry, None)"
| "registerWebhooks ((name, plugin) # webhooks) registry =
     (case Register name (\<lambda>_. Inr (Webhook_plugin plugin)) registry of
        (registry', Some err) \<Rightarrow> (registry', Some err)
      | (registry', None) \<Rightarrow> registerWebhooks webhooks registry')"

definition webhookPluginRegistry :: "(string, WebhookPlugin) gomap \<Rightarrow> 'h Registry \<times> string option" where
  "webhookPluginRegistry webhookPlugins = registerWebhooks webhookPlugins []"

definition enabledPluginsOf :: "bool \<Rightarrow> SchedulingProfile option \<Rightarrow> string list \<Rightarrow> EnabledPlugins" where
  "enabledPluginsOf enableKatalystSupport profile replicasPlugin =
     (let ep0 = GetDefaultEnabledPlugins;
          ep1 = (if enableKatalystSupport
                 then ep0\<lparr>FilterPlugins := FilterPlugins ep0 @ [''KatalystResourcesExist'']\<rparr> else ep0);
          ep2 = (if replicasPlugin \<noteq> [] then ep1\<lparr>ReplicasPlugins := replicasPlugin\<rparr> else ep1)
      in case profile of None \<Rightarrow> ep2 | Some p \<Rightarrow> applyProfile ep2 p)"

definition createFramework ::
    "pluginEnv \<Rightarrow> bool \<Rightarrow> (string, WebhookPlugin) gomap \<Rightarrow> 'h \<Rightarrow> SchedulingProfile option \<Rightarrow> string list
     \<Rightarrow> string + frameworkImpl" where
  "createFramework env enableKatalystSupport webhookPlugins handle profile replicasPlugin =
     (let enabledPlugins = enabledPluginsOf enableKatalystSupport profile replicasPlugin
      in case Merge (inTreeRegistry env) [] of
        (_, Some err) \<Rightarrow> Inl (''failed to merge in-tree plugin registry into empty registry: '' @ err)
      | (registry, None) \<Rightarrow>
          (case webhookPluginRegistry webhookPlugins of
             (_, Some err) \<Rightarrow> Inl (''failed to get webhook plugin registry: '' @ err)
           | (webhookRegistry, None) \<Rightarrow>
               (case Merge webhookRegistry registry of
                  (_, Some err) \<Rightarrow> Inl (''failed to merge webhook plugin registry: '' @ err)
                | (registry', None) \<Rightarrow>
                    NewFramework registry' handle enabledPlugins (ProfileName profile))))"

text \<open>
  \<open>cacheWebhookPlugin\<close>: a configuration is cached when it offers a supported payload version and its
  transport can be created; otherwise an event is recorded and the cache stays as it is.
  \<open>connect\<close> is the transport: an error or the remote service.
\<close>

record WebhookConfig =
  WCName :: string
  PayloadVersions :: "string list"
  WCFilterPath :: string
  WCScorePath :: string
  WCSelectPath :: string

record WebhookService =
  srvFilter :: "SchedulingUnit \<Rightarrow> FederatedCluster \<Rightarrow> string + FilterResponse"
  srvScore :: "SchedulingUnit \<Rightarrow> FederatedCluster \<Rightarrow> string + ScoreResponse"
  srvSelect :: "SchedulingUnit \<Rightarrow> ClusterScore list \<Rightarrow> string + SelectResponse"

datatype webhookEvent = ConfigurationError string | WebhookRegistered string

definition PayloadVersion :: string where
  "PayloadVersion = ''v1alpha1''"

definition cacheWebhookPlugin ::
    "(WebhookConfig \<Rightarrow> string + WebhookService) \<Rightarrow> WebhookConfig \<Rightarrow> (string, WebhookPlugin) gomap
     \<Rightarrow> (string, WebhookPlugin) gomap \<times> webhookEvent" where
  "cacheWebhookPlugin connect config cache =
     (case find (\<lambda>version. version = PayloadVersion) (PayloadVersions config) of
        None \<Rightarrow> (cache, ConfigurationError ''no supported payload version found'')
      | Some payloadVersion \<Rightarrow>
          (case connect config of
             Inl err \<Rightarrow> (cache, ConfigurationError err)
           | Inr service \<Rightarrow>
               (mput (WCName config)
                  \<lparr>whName = WCName config, filterPath = WCFilterPath config, scorePath = WCScorePath config,
                   selectPath = WCSelectPath config, doFilter = srvFilter service,
                   doScore = srvScore service, doSelect = srvSelect service\<rparr> cache,
                WebhookRegistered (WCName config))))"

text \<open>Example values for the witnesses.\<close>

definition sampleEnv :: pluginEnv where
  "sampleEnv = \<lparr>envExterns = sampleExterns, envNow = 0, envNanInt = 0, envReclaimedCPU = []\<rparr>"

definition apiCluster :: "string \<Rightarrow> FederatedCluster" where
  "apiCluster n = (sampleCluster n)\<lparr>CAPIResourceTypes :=
     [\<lparr>ARGroup = ''apps'', ARVersion = ''v1'', ARKind = ''Deployment'', ARPluralName = ''deployments'',
       ARScope = ''Namespaced''\<rparr>]\<rparr>"


text \<open>Statement vocabulary: the plugin names of one extension point are usable.\<close>

definition point_ok :: "pluginEnv \<Rightarrow> (Plugin \<Rightarrow> 'p option) \<Rightarrow> string list \<Rightarrow> bool" where
  "point_ok env impl names \<longleftrightarrow> distinct names \<and>
     list_all (\<lambda>n. case map_of (inTreePlugins env) n of None \<Rightarrow> False | Some p \<Rightarrow> impl p \<noteq> None) names"

definition points_ok :: "pluginEnv \<Rightarrow> EnabledPlugins \<Rightarrow> bool" where
  "points_ok env ep \<longleftrightarrow> point_ok env AsFilter (FilterPlugins ep) \<and> point_ok env AsScore (ScorePlugins ep) \<and>
     point_ok env AsSelect (SelectPlugins ep) \<and> point_ok env AsReplicas (ReplicasPlugins ep)"


section \<open>Registries\<close>

lemma Merge_members:
  "Merge src r = (r', e) \<Longrightarrow> x \<in> set r' \<Longrightarrow> x \<in> set r \<or> x \<in> set src"
proof (induction src arbitrary: r)
  case (Cons p src)
  obtain name factory where p: "p = (name, factory)" by fastforce
  show ?case using Cons.prems Cons.IH [of "mput name factory r"]
    by (auto simp: p Register_def dest: set_mput split: if_splits)
qed simp

lemma registerWebhooks_members:
  "registerWebhooks ws r = (r', e) \<Longrightarrow> (n, factory) \<in> set r' \<Longrightarrow>
     (n, factory) \<in> set r \<or> (\<exists>w. factory = (\<lambda>_. Inr (Webhook_plugin w)))"
proof (induction ws arbitrary: r)
  case (Cons p ws)
  obtain name w where p: "p = (name, w)" by fastforce
  show ?case using Cons.prems Cons.IH [of "mput name (\<lambda>_. Inr (Webhook_plugin w)) r"]
    by (auto simp: p Register_def dest: set_mput split: if_splits)
qed simp

lemma inTreePlugins_ok: "(n, p) \<in> set (inTreePlugins env) \<Longrightarrow> plugin_ok p"
  using plugin_ok_intree plugin_ok_MaxCluster plugin_ok_filterOnly plugin_ok_scoreOnly
  by (auto simp: inTreePlugins_def APIResources_plugin_def ClusterReady_plugin_def
    ClusterTerminating_plugin_def PlacementFilter_plugin_def KatalystResourcesExist_plugin_def
    ClusterEvicted_plugin_def BalancedAllocation_plugin_def LeastAllocated_plugin_def
    MostAllocated_plugin_def)

lemma inTreeRegistry_ok:
  "(n, factory) \<in> set (inTreeRegistry env) \<Longrightarrow> factory h = Inr p \<Longrightarrow> plugin_ok p"
  using inTreePlugins_ok [of n p env] by (auto simp: inTreeRegistry_def)

lemma map_isl_False: "map_option isl y = Some False \<Longrightarrow> \<exists>r. y = Some (Inr r)"
  by (cases y) (auto simp: isl_def split: sum.splits intro: sum.exhaust)

lemma inTreePlugins_wf: "wf_map (inTreePlugins env)"
  by (simp add: wf_map_def inTreePlugins_def)

lemma Merge_fresh: "wf_map src \<Longrightarrow> set (mkeys src) \<inter> set (mkeys r) = {} \<Longrightarrow> Merge src r = (r @ src, None)"
proof (induction src arbitrary: r)
  case (Cons p src)
  obtain n v where p: "p = (n, v)" by fastforce
  have "map_of r n = None" using Cons.prems(2) by (auto simp: p map_of_eq_None_iff mkeys_def)
  moreover have "mput n v r = r @ [(n, v)]" using Cons.prems(2) by (simp add: p mput_fresh)
  ultimately show ?case
    using Cons.IH [of "r @ [(n, v)]"] Cons.prems by (auto simp: p Register_def wf_map_def mkeys_def)
qed simp

lemma Merge_intree: "Merge (inTreeRegistry env) [] = (inTreeRegistry env, None)"
  using inTreePlugins_wf [of env]
  by (subst Merge_fresh) (auto simp: wf_map_def inTreeRegistry_def comp_def case_prod_unfold)

lemma instantiatePlugins_intree:
  assumes "wf_map ps" "set (mkeys ps) \<inter> set (mkeys m) = {}"
  shows "\<exists>pm. instantiatePlugins h ep (map (\<lambda>(name, plugin). (name, \<lambda>_. Inr plugin)) ps) m = Inr pm \<and>
     (\<forall>n. map_of pm n = (if n \<in> set (mkeys ps) then (if IsPluginEnabled ep n then map_of ps n else None)
       else map_of m n))"
  using assms
proof (induction ps arbitrary: m)
  case (Cons e ps)
  obtain n p where e: "e = (n, p)" by fastforce
  have n: "n \<notin> set (mkeys ps)" "wf_map ps" "map_of m n = None"
    using Cons.prems by (auto simp: e wf_map_def mkeys_def map_of_eq_None_iff)
  show ?case
  proof (cases "IsPluginEnabled ep n")
    case True
    then show ?thesis using Cons.IH [of "mput n p m"] Cons.prems(2) n
      by (auto simp: e gomap_simps)
  next
    case False
    then show ?thesis using Cons.IH [of m] Cons.prems(2) n by (auto simp: e)
  qed
qed simp

lemma addPlugins_iff:
  "addPlugins t impl names m reg acc = Inr out \<longleftrightarrow>
     distinct names \<and> set names \<inter> set reg = {} \<and>
     (\<exists>qs. out = acc @ qs \<and> list_all2 (\<lambda>n q. \<exists>p. map_of m n = Some p \<and> impl p = Some q) names qs)"
proof (induction names arbitrary: reg acc)
  case (Cons n names)
  show ?case
  proof (cases "\<exists>p q. map_of m n = Some p \<and> impl p = Some q \<and> n \<notin> set reg")
    case True
    then obtain p q where pq: "map_of m n = Some p" "impl p = Some q" "n \<notin> set reg" by blast
    then show ?thesis using Cons.IH [of "n # reg" "acc @ [q]"] by (auto simp: list_all2_Cons1)
  next
    case False
    then show ?thesis by (auto simp: list_all2_Cons1 split: option.splits)
  qed
qed auto

lemma intree_names:
  assumes "map_of (inTreePlugins env) n = Some p"
  shows "AsFilter p = Some flt \<Longrightarrow> FilterName flt = n" "AsScore p = Some sc \<Longrightarrow> ScoreName sc = n"
    "AsSelect p = Some sel \<Longrightarrow> SelectName sel = n" "AsReplicas p = Some rep \<Longrightarrow> ReplicasName rep = n"
  using map_of_SomeD [OF assms]
  by (auto simp: inTreePlugins_def plugin_defs MaxCluster_plugin_def)

lemma addPlugins_intree:
  assumes "\<And>n. n \<in> set names \<Longrightarrow> map_of pm n = map_of (inTreePlugins env) n"
    and "\<And>n p q. map_of (inTreePlugins env) n = Some p \<Longrightarrow> impl p = Some q \<Longrightarrow> nm q = n"
  shows "case addPlugins t impl names pm [] [] of Inr out \<Rightarrow> point_ok env impl names \<and> map nm out = names
    | Inl _ \<Rightarrow> \<not> point_ok env impl names"
proof (cases "addPlugins t impl names pm [] []")
  case (Inl err)
  have "\<not> point_ok env impl names"
  proof
    assume ok: "point_ok env impl names"
    then have "\<exists>p q. map_of pm n = Some p \<and> impl p = Some q" if "n \<in> set names" for n
      using that assms(1) by (auto simp: point_ok_def list_all_iff split: option.splits)
    then have "list_all2 (\<lambda>n q. \<exists>p. map_of pm n = Some p \<and> impl p = Some q) names
        (map (\<lambda>n. the (impl (the (map_of pm n)))) names)"
      unfolding list_all2_conv_all_nth by (metis length_map nth_map nth_mem option.sel)
    then have "addPlugins t impl names pm [] [] = Inr (map (\<lambda>n. the (impl (the (map_of pm n)))) names)"
      using ok by (simp add: addPlugins_iff point_ok_def)
    then show False using Inl by simp
  qed
  then show ?thesis using Inl by simp
next
  case (Inr out)
  then have d: "distinct names"
    and l: "list_all2 (\<lambda>n q. \<exists>p. map_of pm n = Some p \<and> impl p = Some q) names out"
    by (auto simp: addPlugins_iff)
  have "map nm out = names"
    using l assms by (intro nth_equalityI) (auto simp: list_all2_conv_all_nth)
  moreover have "point_ok env impl names"
    using l d assms(1) by (fastforce simp: point_ok_def list_all_length list_all2_conv_all_nth)
  ultimately show ?thesis using Inr by simp
qed

text \<open>Every framework the scheduler creates satisfies the contracts of its plugins.\<close>

lemma createFramework_contract:
  assumes "createFramework env katalyst webhooks (h :: 'a) profile reps = Inr fwk"
  shows "plugin_framework fwk"
proof -
  obtain reg e1 where m: "Merge (inTreeRegistry env) [] = (reg :: 'a Registry, e1)" by fastforce
  obtain wreg e2 where w: "webhookPluginRegistry webhooks = (wreg :: 'a Registry, e2)" by fastforce
  obtain reg' e3 where m': "Merge wreg reg = (reg', e3)" by fastforce
  have new: "NewFramework reg' h (enabledPluginsOf katalyst profile reps) (ProfileName profile) = Inr fwk"
    using assms unfolding createFramework_def Let_def m w m' split
    by (cases e1; cases e2; cases e3) (simp_all add: m')
  have "plugin_ok p" if member: "(n, factory) \<in> set reg'" and fac: "factory h = Inr p" for n factory p
  proof -
    consider "(n, factory) \<in> set (inTreeRegistry env)" | "(n, factory) \<in> set wreg"
      using Merge_members [OF m' member] Merge_members [OF m] by fastforce
    then show ?thesis
    proof cases
      case 1
      from inTreeRegistry_ok [OF this fac] show ?thesis .
    next
      case 2
      then obtain v where "factory = (\<lambda>_. Inr (Webhook_plugin v))"
        using registerWebhooks_members [OF w [unfolded webhookPluginRegistry_def]] by fastforce
      then show ?thesis using fac plugin_ok_intree(7) by auto
    qed
  qed
  then show ?thesis by (rule NewFramework_contract [OF new])
qed


section \<open>Properties\<close>



text \<open>
  Without webhooks, a framework is created exactly when at every extension point the defaults as
  changed by the profile name each in-tree plugin at most once and only plugins that implement the
  point; it then runs precisely the named plugins in the named order.
\<close>

lemma createFramework_intree:
  "case createFramework env katalyst [] h profile reps of
     Inr fwk \<Rightarrow> points_ok env (enabledPluginsOf katalyst profile reps) \<and>
       map FilterName (filterPlugins fwk) = FilterPlugins (enabledPluginsOf katalyst profile reps) \<and>
       map ScoreName (scorePlugins fwk) = ScorePlugins (enabledPluginsOf katalyst profile reps) \<and>
       map SelectName (selectPlugins fwk) = SelectPlugins (enabledPluginsOf katalyst profile reps) \<and>
       map ReplicasName (replicasPlugins fwk) = ReplicasPlugins (enabledPluginsOf katalyst profile reps) \<and>
       profileName fwk = ProfileName profile
   | Inl err \<Rightarrow> \<not> points_ok env (enabledPluginsOf katalyst profile reps)"
proof -
  define ep where "ep = enabledPluginsOf katalyst profile reps"
  obtain pm where pm: "instantiatePlugins h ep (inTreeRegistry env) [] = Inr pm"
    and get: "\<And>n. map_of pm n = (if n \<in> set (mkeys (inTreePlugins env)) then
      (if IsPluginEnabled ep n then map_of (inTreePlugins env) n else None) else map_of [] n)"
    using instantiatePlugins_intree [OF inTreePlugins_wf, of env "[]" h ep] by (auto simp: inTreeRegistry_def)
  have look: "map_of pm n = map_of (inTreePlugins env) n" if "IsPluginEnabled ep n" for n
    using that map_of_in_mkeys [of "inTreePlugins env" n] by (cases "map_of (inTreePlugins env) n") (auto simp: get)
  have run: "createFramework env katalyst [] h profile reps =
      NewFramework (inTreeRegistry env) h ep (ProfileName profile)"
    by (simp add: createFramework_def Let_def webhookPluginRegistry_def Merge_intree ep_def)
  have "case addPlugins ''FilterPlugin'' AsFilter (FilterPlugins ep) pm [] [] of
      Inr out \<Rightarrow> point_ok env AsFilter (FilterPlugins ep) \<and> map FilterName out = FilterPlugins ep
    | Inl _ \<Rightarrow> \<not> point_ok env AsFilter (FilterPlugins ep)"
    by (rule addPlugins_intree [OF look]) (auto simp: IsPluginEnabled_def intree_names)
  moreover have "case addPlugins ''ScorePlugin'' AsScore (ScorePlugins ep) pm [] [] of
      Inr out \<Rightarrow> point_ok env AsScore (ScorePlugins ep) \<and> map ScoreName out = ScorePlugins ep
    | Inl _ \<Rightarrow> \<not> point_ok env AsScore (ScorePlugins ep)"
    by (rule addPlugins_intree [OF look]) (auto simp: IsPluginEnabled_def intree_names)
  moreover have "case addPlugins ''SelectPlugin'' AsSelect (SelectPlugins ep) pm [] [] of
      Inr out \<Rightarrow> point_ok env AsSelect (SelectPlugins ep) \<and> map SelectName out = SelectPlugins ep
    | Inl _ \<Rightarrow> \<not> point_ok env AsSelect (SelectPlugins ep)"
    by (rule addPlugins_intree [OF look]) (auto simp: IsPluginEnabled_def intree_names)
  moreover have "case addPlugins ''ReplicasPlugin'' AsReplicas (ReplicasPlugins ep) pm [] [] of
      Inr out \<Rightarrow> point_ok env AsReplicas (ReplicasPlugins ep) \<and> map ReplicasName out = ReplicasPlugins ep
    | Inl _ \<Rightarrow> \<not> point_ok env AsReplicas (ReplicasPlugins ep)"
    by (rule addPlugins_intree [OF look]) (auto simp: IsPluginEnabled_def intree_names)
  ultimately show ?thesis
    unfolding run ep_def [symmetric] NewFramework_def pm points_ok_def by (auto split: sum.splits)
qed

end
