(* ===== verification/Worker.thy ===== *)
theory Worker
  imports Go_Strings
begin

text \<open>
  The reconcile workers and event handlers that drive every controller, \<open>pkg/util/worker\<close> and
  \<open>pkg/util/eventhandlers\<close>.  The work queue is client-go's: its answers to \<open>Get\<close> are an argument, and
  the calls that a worker makes on it are the value of the model.
\<close>


section \<open>Model: durations\<close>

fun fmtFrac :: "nat \<Rightarrow> int \<Rightarrow> string \<Rightarrow> bool \<Rightarrow> string \<times> int" where
  "fmtFrac 0 v s prnt = (if prnt then CHR ''.'' # s else s, v)"
| "fmtFrac (Suc prec) v s prnt =
     (let d = v mod 10; prnt' = (prnt \<or> d \<noteq> 0)
      in fmtFrac prec (v div 10) (if prnt' then digit d # s else s) prnt')"

definition Duration_String :: "int64 \<Rightarrow> string" where
  "Duration_String d =
     (let u = \<bar>d\<bar>; sign = (if d < 0 then ''-'' else []) in
      if u = 0 then ''0s''
      else if u < 1000000000 then
        (let (prec, unit) = (if u < 1000 then (0, ''n'') else if u < 1000000 then (3, [CHR 0xC2, CHR 0xB5]) else (6, ''m''));
             (frac, v) = fmtFrac prec u [] False
         in sign @ formatInt v @ frac @ unit @ ''s'')
      else
        (let (frac, secs) = fmtFrac 9 u [] False; mins = secs div 60; hours = mins div 60
         in sign @ (if hours > 0 then formatInt hours @ ''h'' else []) @
            (if mins > 0 then formatInt (mins mod 60) @ ''m'' else []) @ formatInt (secs mod 60) @ frac @ ''s''))"


section \<open>Model: results\<close>

record Result =
  ResultSuccess :: bool
  RequeueAfter :: "int64 option"
  Backoff :: bool

definition StatusAllOK :: Result where
  "StatusAllOK = \<lparr>ResultSuccess = True, RequeueAfter = None, Backoff = False\<rparr>"

definition StatusError :: Result where
  "StatusError = \<lparr>ResultSuccess = False, RequeueAfter = None, Backoff = True\<rparr>"

definition StatusConflict :: Result where
  "StatusConflict = \<lparr>ResultSuccess = False, RequeueAfter = Some 500000000, Backoff = False\<rparr>"

definition StatusErrorNoRetry :: Result where
  "StatusErrorNoRetry = \<lparr>ResultSuccess = False, RequeueAfter = None, Backoff = False\<rparr>"

definition Result_String :: "Result \<Rightarrow> string" where
  "Result_String r =
     (if ResultSuccess r then ''OK'' else ''Failed'') @
     (case RequeueAfter r of None \<Rightarrow> [] | Some d \<Rightarrow> '', RequeueAfter('' @ Duration_String d @ '')'') @
     (if Backoff r then '', Backoff'' else [])"


section \<open>Model: workers\<close>

datatype 'k queueCall =
  QueueAdd 'k | QueueAddRateLimited 'k | QueueAddAfter 'k int64 | QueueDone 'k | QueueForget 'k

definition Enqueue :: "'k \<Rightarrow> 'k queueCall list" where
  "Enqueue key = [QueueAdd key]"

definition EnqueueWithBackoff :: "'k \<Rightarrow> 'k queueCall list" where
  "EnqueueWithBackoff key = [QueueAddRateLimited key]"

definition EnqueueWithDelay :: "'k \<Rightarrow> int64 \<Rightarrow> 'k queueCall list" where
  "EnqueueWithDelay key delay = [QueueAddAfter key delay]"

text \<open>One turn of a worker: \<open>None\<close> as the answer of the queue is its shutdown.\<close>

definition processNextItem :: "('k \<Rightarrow> Result) \<Rightarrow> 'k option \<Rightarrow> 'k queueCall list \<times> bool" where
  "processNextItem reconcileFunc next =
     (case next of
        None \<Rightarrow> ([], False)
      | Some key \<Rightarrow>
          let result = reconcileFunc key in
          ([QueueDone key] @
           (if Backoff result then EnqueueWithBackoff key
            else [QueueForget key] @
              (case RequeueAfter result of None \<Rightarrow> [] | Some d \<Rightarrow> EnqueueWithDelay key d)), True))"

text \<open>A worker on the answers the queue gives it, one after the other.\<close>

fun runWorker :: "('k \<Rightarrow> Result) \<Rightarrow> 'k option list \<Rightarrow> 'k queueCall list" where
  "runWorker reconcileFunc [] = []"
| "runWorker reconcileFunc (next # answers) =
     (let (calls, continue) = processNextItem reconcileFunc next
      in calls @ (if continue then runWorker reconcileFunc answers else []))"

record RateLimiterOptions =
  InitialDelay :: int64
  MaxDelay :: int64

definition workerTiming :: "RateLimiterOptions \<Rightarrow> RateLimiterOptions" where
  "workerTiming timing =
     \<lparr>InitialDelay = (if InitialDelay timing \<le> 0 then 5000000000 else InitialDelay timing),
      MaxDelay = (if MaxDelay timing \<le> 0 then 60000000000 else MaxDelay timing)\<rparr>"

definition workerCountOf :: "int \<Rightarrow> int" where
  "workerCountOf workerCount = (if workerCount \<le> 0 then 1 else workerCount)"


section \<open>Model: event handlers\<close>

text \<open>The notifications of an informer; the object of a tombstone may be unknown.\<close>

datatype 'o notification = OnAdd 'o | OnUpdate 'o 'o | OnDelete 'o | OnDeletedFinalStateUnknown "'o option"

text \<open>What a handler passes to its trigger function, if it calls it.\<close>

definition NewTriggerOnAllChanges :: "'o notification \<Rightarrow> 'o option" where
  "NewTriggerOnAllChanges n =
     (case n of OnDelete old \<Rightarrow> Some old | OnDeletedFinalStateUnknown old \<Rightarrow> old | OnAdd cur \<Rightarrow> Some cur
      | OnUpdate old cur \<Rightarrow> if old \<noteq> cur then Some cur else None)"

definition NewTriggerOnAllChangesWithTransform :: "('o \<Rightarrow> 't) \<Rightarrow> 'o notification \<Rightarrow> 't option" where
  "NewTriggerOnAllChangesWithTransform transformFunc n =
     (case n of OnDelete old \<Rightarrow> Some (transformFunc old) | OnDeletedFinalStateUnknown old \<Rightarrow> map_option transformFunc old
      | OnAdd cur \<Rightarrow> Some (transformFunc cur)
      | OnUpdate old cur \<Rightarrow> if old \<noteq> cur then Some (transformFunc cur) else None)"

definition NewTriggerOnChanges :: "('o \<Rightarrow> 'o \<Rightarrow> bool) \<Rightarrow> 'o notification \<Rightarrow> 'o option" where
  "NewTriggerOnChanges predicate n =
     (case n of OnDelete old \<Rightarrow> Some old | OnDeletedFinalStateUnknown old \<Rightarrow> old | OnAdd cur \<Rightarrow> Some cur
      | OnUpdate old cur \<Rightarrow> if predicate old cur then Some cur else None)"

definition NewTriggerOnGenerationChanges :: "('o \<Rightarrow> int64) \<Rightarrow> 'o notification \<Rightarrow> 'o option" where
  "NewTriggerOnGenerationChanges GetGeneration n =
     (case n of OnDelete old \<Rightarrow> Some old | OnDeletedFinalStateUnknown old \<Rightarrow> old | OnAdd cur \<Rightarrow> Some cur
      | OnUpdate old cur \<Rightarrow> if GetGeneration old \<noteq> GetGeneration cur then Some cur else None)"


section \<open>Statement vocabulary\<close>

text \<open>The keys a worker took from the queue, up to the shutdown.\<close>

fun takenKeys :: "'k option list \<Rightarrow> 'k list" where
  "takenKeys (Some key # answers) = key # takenKeys answers"
| "takenKeys _ = []"

definition requeued :: "Result \<Rightarrow> bool" where
  "requeued r \<longleftrightarrow> Backoff r \<or> RequeueAfter r \<noteq> None"

fun doneKey :: "'k queueCall \<Rightarrow> 'k option" where
  "doneKey (QueueDone key) = Some key"
| "doneKey _ = None"

fun addedKey :: "'k queueCall \<Rightarrow> 'k option" where
  "addedKey (QueueAdd key) = Some key"
| "addedKey (QueueAddRateLimited key) = Some key"
| "addedKey (QueueAddAfter key d) = Some key"
| "addedKey _ = None"

text \<open>No key is put back before it is marked as done.\<close>

definition doneFirst :: "'k queueCall list \<Rightarrow> bool" where
  "doneFirst calls \<longleftrightarrow> (\<forall>n k. count_list (List.map_filter addedKey (take n calls)) k
     \<le> count_list (List.map_filter doneKey (take n calls)) k)"


section \<open>Statuses\<close>

lemmas status_defs = StatusAllOK_def StatusError_def StatusConflict_def StatusErrorNoRetry_def

lemma status_distinct [simp]:
  "StatusAllOK \<noteq> StatusError" "StatusAllOK \<noteq> StatusConflict" "StatusAllOK \<noteq> StatusErrorNoRetry"
  "StatusError \<noteq> StatusAllOK" "StatusConflict \<noteq> StatusAllOK" "StatusErrorNoRetry \<noteq> StatusAllOK"
  "StatusError \<noteq> StatusConflict" "StatusConflict \<noteq> StatusError"
  by (simp_all add: status_defs)

lemma status_Success [simp]:
  "ResultSuccess StatusAllOK" "\<not> ResultSuccess StatusError" "\<not> ResultSuccess StatusConflict" "\<not> ResultSuccess StatusErrorNoRetry"
  by (simp_all add: status_defs)


section \<open>Keys are accounted for\<close>

lemma runWorker_concat:
  "runWorker reconcileFunc answers = concat (map (\<lambda>key. fst (processNextItem reconcileFunc (Some key))) (takenKeys answers))"
  by (induction answers rule: takenKeys.induct) (simp_all add: processNextItem_def Let_def)

lemma processNextItem_calls:
  "List.map_filter doneKey (fst (processNextItem reconcileFunc (Some key))) = [key]"
  "List.map_filter addedKey (fst (processNextItem reconcileFunc (Some key))) = (if requeued (reconcileFunc key) then [key] else [])"
  by (auto simp: processNextItem_def Let_def List.map_filter_def EnqueueWithBackoff_def EnqueueWithDelay_def requeued_def
      split: option.splits)

lemma map_filter_append: "List.map_filter f (xs @ ys) = List.map_filter f xs @ List.map_filter f ys"
  by (simp add: List.map_filter_def)

text \<open>A worker marks every key it took as done, once, and puts back exactly those whose result asks for it.\<close>

lemma runWorker_accounts:
  "List.map_filter doneKey (runWorker reconcileFunc answers) = takenKeys answers"
  "List.map_filter addedKey (runWorker reconcileFunc answers) = filter (\<lambda>key. requeued (reconcileFunc key)) (takenKeys answers)"
proof -
  have "List.map_filter doneKey (concat (map g keys)) = keys"
    if "\<And>key. List.map_filter doneKey (g key) = [key]" for g :: "'a \<Rightarrow> 'a queueCall list" and keys
    using that by (induction keys) (simp_all add: map_filter_append)
  then show "List.map_filter doneKey (runWorker reconcileFunc answers) = takenKeys answers"
    by (simp add: runWorker_concat processNextItem_calls)
  have "List.map_filter addedKey (concat (map g keys)) = filter P keys"
    if "\<And>key. List.map_filter addedKey (g key) = (if P key then [key] else [])" for g :: "'a \<Rightarrow> 'a queueCall list" and P keys
    using that by (induction keys) (simp_all add: map_filter_append)
  then show "List.map_filter addedKey (runWorker reconcileFunc answers) = filter (\<lambda>key. requeued (reconcileFunc key)) (takenKeys answers)"
    by (simp add: runWorker_concat processNextItem_calls)
qed

lemma doneFirst_append: "doneFirst xs \<Longrightarrow> doneFirst ys \<Longrightarrow> doneFirst (xs @ ys)"
  by (simp add: doneFirst_def map_filter_append add_mono)

lemma doneFirst_item: "doneFirst (fst (processNextItem reconcileFunc (Some key)))"
proof -
  have "doneFirst (QueueDone key # calls)" if "calls = [QueueAddRateLimited key] \<or> calls = [QueueForget key] \<or>
      (\<exists>d. calls = [QueueForget key, QueueAddAfter key d])" for calls
    unfolding doneFirst_def using that by (auto simp: take_Cons List.map_filter_def split: nat.splits)
  then show ?thesis
    by (auto simp: processNextItem_def Let_def EnqueueWithBackoff_def EnqueueWithDelay_def split: option.splits)
qed

lemma doneFirst_runWorker: "doneFirst (runWorker reconcileFunc answers)"
proof -
  have "doneFirst (concat (map (\<lambda>key. fst (processNextItem reconcileFunc (Some key))) keys))" for keys
    by (induction keys) (simp add: doneFirst_def, simp add: doneFirst_append doneFirst_item)
  then show ?thesis by (simp add: runWorker_concat)
qed


section \<open>Properties\<close>

text \<open>
  C27.  A worker loses no key and never works on one twice: it marks exactly the keys it took as done, each
  once, puts back exactly those whose reconciliation asks for it, and puts none back before it is done.
  So a key whose reconciliation failed is retried unless the controller asks not to.
\<close>

theorem worker_accounts_for_keys:
  "List.map_filter doneKey (runWorker reconcileFunc answers) = takenKeys answers \<and>
   List.map_filter addedKey (runWorker reconcileFunc answers) = filter (\<lambda>key. requeued (reconcileFunc key)) (takenKeys answers) \<and>
   doneFirst (runWorker reconcileFunc answers) \<and>
   requeued StatusError \<and> requeued StatusConflict \<and> \<not> requeued StatusAllOK \<and> \<not> requeued StatusErrorNoRetry"
  by (simp add: runWorker_accounts doneFirst_runWorker requeued_def status_defs)

end
