(* ===== verification/Scheduler.thy ===== *)
theory Scheduler
  imports Scheduling_Unit Profile Worker
begin

text \<open>
  The scheduler's reconciliation, \<open>pkg/controllers/scheduler/{scheduler,schedulingannotation}.go\<close>.  The record
  \<open>schedulerWorld\<close> holds what one reconciliation reads, the listers' contents and the answer of the API
  server to an update.  A reconciliation returns the status for the work queue and the object it sent
  to the API server, if any; \<open>None\<close> is a panic or a plugin that does not return.  Events, logs and
  metrics are left out.
\<close>


section \<open>Model: the world of a reconciliation\<close>

record SchedObject = FedObject +
  ODeletionTimestamp :: "int option"
  OGeneration :: int64

datatype 'a lookup = Found 'a | NotFound | LookupFailed
datatype updateResult = Updated | UpdateConflict | UpdateFailed
type_synonym workerResult = Result

record schedulerWorld =
  swFedObject :: "string \<times> string \<Rightarrow> SchedObject lookup"
  swFTC :: "string \<times> string \<times> string \<Rightarrow> FederatedTypeConfig option"
  swClusters :: "string + FederatedCluster list"
  swPropagationPolicies :: "string \<Rightarrow> string \<Rightarrow> PropagationPolicy lookup"
  swClusterPropagationPolicies :: "string \<Rightarrow> PropagationPolicy lookup"
  swProfile :: "string \<Rightarrow> SchedulingProfile lookup"
  swUpdate :: "SchedObject \<Rightarrow> updateResult"
  swEnv :: pluginEnv
  swKatalyst :: bool
  swWebhooks :: "(string, WebhookPlugin) gomap"
  swK8s :: apimachinery

abbreviation swExterns :: "schedulerWorld \<Rightarrow> externs" where
  "swExterns w \<equiv> envExterns (swEnv w)"


section \<open>Model: applying a result\<close>

definition SchedulingAnnotation :: string where
  "SchedulingAnnotation = DefaultPrefix @ ''scheduling''"

definition EnableFollowerSchedulingAnnotation :: string where
  "EnableFollowerSchedulingAnnotation = InternalPrefix @ ''enable-follower-scheduling''"

definition PodUnschedulableThresholdAnnotation :: string where
  "PodUnschedulableThresholdAnnotation = InternalPrefix @ ''pod-unschedulable-threshold''"

definition getSchedulingAnnotationValue ::
    "apimachinery \<Rightarrow> SchedObject \<Rightarrow> ScheduleResult \<Rightarrow> string + string" where
  "getSchedulingAnnotationValue k8s fedObject result =
     (case GetTemplateMetadata k8s fedObject of
        Inl err \<Rightarrow> Inl err
      | Inr srcMeta \<Rightarrow>
          Inr (printJson (JObj (
            [(''sourceGeneration'', encodeInt (TMGeneration srcMeta)), (''fedGeneration'', encodeInt (OGeneration fedObject))] @
            omitEmpty (SuggestedClusters result = []) ''placement''
              (encodeMap (\<lambda>v. case v of None \<Rightarrow> JNull | Some n \<Rightarrow> encodeInt n) (SuggestedClusters result))))))"

record auxiliarySchedulingInformation =
  enableFollowerScheduling :: bool
  unschedulableThreshold :: "int64 option"

text \<open>Writing an annotation unless it already has the value; a missing one reads as empty.\<close>

definition setIfDiffers ::
    "string \<Rightarrow> string \<Rightarrow> (string, string) gomap \<times> bool \<Rightarrow> (string, string) gomap \<times> bool" where
  "setIfDiffers key val = (\<lambda>(annotations, modified).
     if mget [] annotations key \<noteq> val then (mput key val annotations, True) else (annotations, modified))"

definition auxAnnotations ::
    "auxiliarySchedulingInformation \<Rightarrow> (string, string) gomap \<Rightarrow> (string, string) gomap \<times> bool" where
  "auxAnnotations auxInfo annotations =
     (let (a1, m1) = setIfDiffers EnableFollowerSchedulingAnnotation
            (if enableFollowerScheduling auxInfo then ''true'' else ''false'') (annotations, False)
      in case unschedulableThreshold auxInfo of
        None \<Rightarrow>
          if map_of a1 PodUnschedulableThresholdAnnotation \<noteq> None
          then (mdel PodUnschedulableThresholdAnnotation a1, True) else (a1, m1)
      | Some d \<Rightarrow> setIfDiffers PodUnschedulableThresholdAnnotation (Duration_String d) (a1, m1))"

definition desiredOverrides :: "ScheduleResult \<Rightarrow> replicas" where
  "desiredOverrides result =
     map (\<lambda>(c, n). (c, the n)) (filter (\<lambda>(c, n). n \<noteq> None) (SuggestedClusters result))"

definition applySchedulingResult ::
    "apimachinery \<Rightarrow> FederatedTypeConfig \<Rightarrow> SchedObject \<Rightarrow> ScheduleResult \<Rightarrow> auxiliarySchedulingInformation
     \<Rightarrow> string + SchedObject \<times> bool" where
  "applySchedulingResult k8s ftc fedObject result auxInfo =
     (let (placements, placementUpdated) = SetControllerPlacement PrefixedGlobalSchedulerName
            (sort (mkeys (SuggestedClusters result))) (Placements fedObject);
          (obj1, overridesUpdated) = UpdateReplicasOverride ftc (fedObject\<lparr>Placements := placements\<rparr>) (desiredOverrides result);
          objectModified = (placementUpdated \<or> overridesUpdated);
          (annotations, annotationsModified) = auxAnnotations auxInfo (MAnnotations obj1)
      in case (if objectModified then getSchedulingAnnotationValue k8s obj1 result else Inr []) of
        Inl err \<Rightarrow> Inl err
      | Inr v \<Rightarrow>
          let annotations' = (if objectModified then mput SchedulingAnnotation v annotations else annotations)
          in Inr (obj1\<lparr>MAnnotations := annotations'\<rparr>, objectModified \<or> annotationsModified))"

definition updatePendingControllers ::
    "FederatedTypeConfig \<Rightarrow> SchedObject \<Rightarrow> bool \<Rightarrow> SchedObject \<times> (string + bool)" where
  "updatePendingControllers ftc fedObject wasModified =
     UpdatePendingControllers fedObject PrefixedGlobalSchedulerName wasModified (GetControllers ftc)"

definition afterUpdate :: "schedulerWorld \<Rightarrow> SchedObject \<Rightarrow> workerResult \<times> SchedObject option" where
  "afterUpdate w obj =
     ((case swUpdate w obj of Updated \<Rightarrow> StatusAllOK | UpdateConflict \<Rightarrow> StatusConflict | UpdateFailed \<Rightarrow> StatusError),
      Some obj)"

definition persistSchedulingResult ::
    "schedulerWorld \<Rightarrow> FederatedTypeConfig \<Rightarrow> SchedObject \<Rightarrow> ScheduleResult \<Rightarrow> auxiliarySchedulingInformation
     \<Rightarrow> workerResult \<times> SchedObject option" where
  "persistSchedulingResult w ftc fedObject result auxInfo =
     (case applySchedulingResult (swK8s w) ftc fedObject result auxInfo of
        Inl err \<Rightarrow> (StatusError, None)
      | Inr (obj1, schedulingResultsChanged) \<Rightarrow>
          (case updatePendingControllers ftc obj1 schedulingResultsChanged of
             (_, Inl err) \<Rightarrow> (StatusError, None)
           | (obj2, Inr _) \<Rightarrow> afterUpdate w obj2))"


section \<open>Model: preparing and scheduling\<close>

definition MigrationConfigurationAnnotation :: string where
  "MigrationConfigurationAnnotation = DefaultPrefix @ ''migration-configuration''"

definition NoSchedulingAnnotation :: string where
  "NoSchedulingAnnotation = DefaultPrefix @ ''no-scheduling''"

definition applyMigrationConfig :: "apimachinery \<Rightarrow> FederatedTypeConfig \<Rightarrow> SchedObject \<Rightarrow> SchedObject" where
  "applyMigrationConfig k8s ftc fedObject =
     (case map_of (MAnnotations fedObject) MigrationConfigurationAnnotation of
        None \<Rightarrow>
          if map_of (MAnnotations fedObject) AppliedMigrationConfigurationAnnotation \<noteq> None
          then fedObject\<lparr>MAnnotations := mdel AppliedMigrationConfigurationAnnotation (MAnnotations fedObject)\<rparr>
          else fedObject
      | Some existingMigrationConfigBytes \<Rightarrow>
          (case getCustomMigrationInfoBytes k8s existingMigrationConfigBytes fedObject ftc of
             Inl err \<Rightarrow> fedObject
           | Inr bytes \<Rightarrow>
               fedObject\<lparr>MAnnotations := mput AppliedMigrationConfigurationAnnotation bytes (MAnnotations fedObject)\<rparr>))"

definition policyFromStore :: "schedulerWorld \<Rightarrow> string \<times> string \<Rightarrow> PropagationPolicy lookup" where
  "policyFromStore w qualifiedName =
     (if length (fst qualifiedName) > 0 then swPropagationPolicies w (fst qualifiedName) (snd qualifiedName)
      else swClusterPropagationPolicies w (snd qualifiedName))"

text \<open>The matched policy and its profile; an early return carries its status.\<close>

definition matchedPolicy ::
    "schedulerWorld \<Rightarrow> SchedObject \<Rightarrow> workerResult + PropagationPolicy option \<times> SchedulingProfile option" where
  "matchedPolicy w fedObject =
     (case GetMatchedPolicyKey fedObject of
        None \<Rightarrow> Inr (None, None)
      | Some policyKey \<Rightarrow>
          (case policyFromStore w policyKey of
             NotFound \<Rightarrow> Inl StatusAllOK
           | LookupFailed \<Rightarrow> Inl StatusError
           | Found policy \<Rightarrow>
               if length (PolSchedulingProfile policy) > 0 then
                 (case swProfile w (PolSchedulingProfile policy) of
                    NotFound \<Rightarrow> Inl StatusAllOK
                  | LookupFailed \<Rightarrow> Inl StatusError
                  | Found profile \<Rightarrow> Inr (Some policy, Some profile))
               else Inr (Some policy, None)))"

definition skipScheduling ::
    "schedulerWorld \<Rightarrow> FederatedTypeConfig \<Rightarrow> SchedObject \<Rightarrow> bool \<Rightarrow> workerResult \<times> SchedObject option" where
  "skipScheduling w ftc fedObject annotationChanged =
     (case updatePendingControllers ftc fedObject False of
        (_, Inl err) \<Rightarrow> (StatusError, None)
      | (obj', Inr updated) \<Rightarrow> if updated \<or> annotationChanged then afterUpdate w obj' else (StatusAllOK, None))"

definition prepareToSchedule ::
    "schedulerWorld \<Rightarrow> SchedObject \<Rightarrow> FederatedTypeConfig
     \<Rightarrow> (workerResult \<times> SchedObject option) +
        (SchedObject \<times> PropagationPolicy option \<times> FederatedCluster list \<times> SchedulingProfile option)" where
  "prepareToSchedule w fedObject ftc =
     (let obj1 = applyMigrationConfig (swK8s w) ftc fedObject in
      case ControllerDependenciesFulfilled obj1 PrefixedGlobalSchedulerName of
        Inl err \<Rightarrow> Inl (StatusError, None)
      | Inr False \<Rightarrow> Inl (StatusAllOK, None)
      | Inr True \<Rightarrow>
     (case swClusters w of
        Inl err \<Rightarrow> Inl (StatusError, None)
      | Inr allClusters \<Rightarrow>
          let clusters = filter (\<lambda>c. IsClusterJoined (CConditions c)) allClusters in
     (case matchedPolicy w obj1 of
        Inl status \<Rightarrow> Inl (status, None)
      | Inr (policy, schedulingProfile) \<Rightarrow>
     (case computeSchedulingTriggers (swK8s w) (swExterns w) ftc obj1 policy clusters of
        Inl err \<Rightarrow> Inl (StatusError, None)
      | Inr triggers \<Rightarrow>
     (case refreshTriggers triggers policy obj1 of
        (_, Inl err, _) \<Rightarrow> Inl (StatusError, None)
      | (obj2, Inr annotationChanged, triggersChanged) \<Rightarrow>
          if \<not> triggersChanged \<or> length (mget [] (MAnnotations obj2) NoSchedulingAnnotation) > 0
          then Inl (skipScheduling w ftc obj2 annotationChanged)
          else Inr (obj2, policy, clusters, schedulingProfile))))))"

definition schedule ::
    "schedulerWorld \<Rightarrow> FederatedTypeConfig \<Rightarrow> SchedObject \<Rightarrow> PropagationPolicy option \<Rightarrow> SchedulingProfile option
     \<Rightarrow> FederatedCluster list \<Rightarrow> (workerResult + ScheduleResult) option" where
  "schedule w ftc fedObject policy schedulingProfile clusters =
     (case policy of
        None \<Rightarrow> Some (Inr \<lparr>SuggestedClusters = []\<rparr>)
      | Some p \<Rightarrow>
          (case schedulingUnitForFedObject (swK8s w) (swExterns w) ftc fedObject p (swKatalyst w) of
             Inl err \<Rightarrow> Some (Inl StatusError)
           | Inr schedulingUnit \<Rightarrow>
               let replicasPlugin = (if SUReplicasStrategy schedulingUnit = Binpack
                     then [''PreferenceBinPack''] else []) in
               (case createFramework (swEnv w) (swKatalyst w) (swWebhooks w) () schedulingProfile replicasPlugin of
                  Inl err \<Rightarrow> Some (Inl StatusError)
                | Inr fwk \<Rightarrow>
                    (case Schedule fwk schedulingUnit clusters of
                       None \<Rightarrow> None
                     | Some (Inl (FitError n diagnosis)) \<Rightarrow> Some (Inr \<lparr>SuggestedClusters = []\<rparr>)
                     | Some (Inl (ScheduleFailed err)) \<Rightarrow> Some (Inl StatusError)
                     | Some (Inr result) \<Rightarrow> Some (Inr result)))))"

text \<open>\<open>None\<close> is the nil dereference of an unset \<open>PodUnschedulableDuration\<close>.\<close>

definition auxInfoOf :: "PropagationPolicy option \<Rightarrow> auxiliarySchedulingInformation option" where
  "auxInfoOf policy =
     (case policy of
        None \<Rightarrow> Some \<lparr>enableFollowerScheduling = False, unschedulableThreshold = None\<rparr>
      | Some p \<Rightarrow>
          (case PolAutoMigration p of
             None \<Rightarrow> Some \<lparr>enableFollowerScheduling = \<not> PolDisableFollowerScheduling p, unschedulableThreshold = None\<rparr>
           | Some am \<Rightarrow>
               map_option (\<lambda>d. \<lparr>enableFollowerScheduling = \<not> PolDisableFollowerScheduling p, unschedulableThreshold = Some d\<rparr>)
                 (PodUnschedulableDuration am)))"

definition scheduleAndPersist ::
    "schedulerWorld \<Rightarrow> FederatedTypeConfig \<Rightarrow> SchedObject \<Rightarrow> PropagationPolicy option \<Rightarrow> FederatedCluster list
     \<Rightarrow> SchedulingProfile option \<Rightarrow> (workerResult \<times> SchedObject option) option" where
  "scheduleAndPersist w ftc fedObject policy clusters schedulingProfile =
     (case schedule w ftc fedObject policy schedulingProfile clusters of
        None \<Rightarrow> None
      | Some (Inl status) \<Rightarrow> Some (status, None)
      | Some (Inr result) \<Rightarrow>
          (case auxInfoOf policy of
             None \<Rightarrow> None
           | Some auxInfo \<Rightarrow> Some (persistSchedulingResult w ftc fedObject result auxInfo)))"

definition reconcile ::
    "schedulerWorld \<Rightarrow> string \<times> string \<Rightarrow> (workerResult \<times> SchedObject option) option" where
  "reconcile w key =
     (case swFedObject w key of
        LookupFailed \<Rightarrow> Some (StatusError, None)
      | NotFound \<Rightarrow> Some (StatusAllOK, None)
      | Found fedObject \<Rightarrow>
          if ODeletionTimestamp fedObject \<noteq> None then Some (StatusAllOK, None)
          else case GetTemplateMetadata (swK8s w) fedObject of
            Inl err \<Rightarrow> Some (StatusError, None)
          | Inr templateMetadata \<Rightarrow>
              (case swFTC w (TMGroupVersionKind templateMetadata) of
                 None \<Rightarrow> Some (StatusAllOK, None)
               | Some ftc \<Rightarrow>
                   (case prepareToSchedule w fedObject ftc of
                      Inl (status, written) \<Rightarrow> Some (status, written)
                    | Inr (obj1, policy, clusters, schedulingProfile) \<Rightarrow>
                        scheduleAndPersist w ftc obj1 policy clusters schedulingProfile)))"


section \<open>Model: enqueueing\<close>

text \<open>
  The event handlers return the keys they enqueue.  A label selector is the library's predicate on
  labels: equality of one label, or its existence.
\<close>

definition keyOf :: "SchedObject \<Rightarrow> string \<times> string" where
  "keyOf obj = (MNamespace obj, MName obj)"

definition enqueueFederatedObjectsForPolicy ::
    "externs \<Rightarrow> SchedObject list \<Rightarrow> SchedObject list \<Rightarrow> PropagationPolicy \<Rightarrow> (string \<times> string) list" where
  "enqueueFederatedObjectsForPolicy ext fedObjects clusterFedObjects policy =
     (let isPolicyNamespaced = length (PolNamespace policy) > 0;
          labelName = (if isPolicyNamespaced then PropagationPolicyNameLabel else ClusterPropagationPolicyNameLabel);
          select = filter (\<lambda>obj. SelectorFromSetMatches ext [(labelName, PolName policy)] (MLabels obj));
          allObjects = (if isPolicyNamespaced
            then select (filter (\<lambda>obj. MNamespace obj = PolNamespace policy) fedObjects)
            else select fedObjects @ select clusterFedObjects)
      in map keyOf (filter (\<lambda>obj. GetMatchedPolicyKey obj = Some (PolNamespace policy, PolName policy)) allObjects))"

definition enqueueFederatedObjectsForCluster ::
    "externs \<Rightarrow> SchedObject list \<Rightarrow> SchedObject list \<Rightarrow> FederatedCluster \<Rightarrow> (string \<times> string) set" where
  "enqueueFederatedObjectsForCluster ext fedObjects clusterFedObjects cluster =
     (if \<not> IsClusterJoined (CConditions cluster) then {}
      else case those (map (\<lambda>l. case NewRequirement ext l OpExists [] of Inl err \<Rightarrow> None | Inr sel \<Rightarrow> Some sel)
                  [PropagationPolicyNameLabel, ClusterPropagationPolicyNameLabel]) of
        None \<Rightarrow> {}
      | Some selectors \<Rightarrow>
          keyOf ` {obj \<in> set (fedObjects @ clusterFedObjects). list_ex (\<lambda>sel. sel (MLabels obj)) selectors})"


definition groupVersionString :: "string \<times> string \<times> string \<Rightarrow> string" where
  "groupVersionString = (\<lambda>(group, version, kind). if group = [] then version else group @ ''/'' @ version)"

definition ListAllFedObjsForFTC ::
    "externs \<Rightarrow> FederatedTypeConfig \<Rightarrow> SchedObject list \<Rightarrow> SchedObject list \<Rightarrow> SchedObject list" where
  "ListAllFedObjsForFTC ext ftc fedObjects clusterFedObjects =
     (let labelsSet = [(groupVersionString (GetSourceTypeGVK ftc), snd (snd (GetSourceTypeGVK ftc)))]
      in filter (\<lambda>obj. SelectorFromSetMatches ext labelsSet (MLabels obj))
           (if MetaNamespaced (GetSourceType ftc) then fedObjects else clusterFedObjects))"

definition enqueueFederatedObjectsForFTC ::
    "externs \<Rightarrow> SchedObject list \<Rightarrow> SchedObject list \<Rightarrow> FederatedTypeConfig \<Rightarrow> (string \<times> string) list" where
  "enqueueFederatedObjectsForFTC ext fedObjects clusterFedObjects ftc =
     map keyOf (ListAllFedObjsForFTC ext ftc fedObjects clusterFedObjects)"


section \<open>Statement vocabulary\<close>

text \<open>The sections of an object name every controller once.\<close>

definition sections_ok :: "'a FedObject_scheme \<Rightarrow> bool" where
  "sections_ok obj \<longleftrightarrow> distinct (map PlController (Placements obj)) \<and> distinct (map OvController (Overrides obj))"

definition result_ok :: "ScheduleResult \<Rightarrow> bool" where
  "result_ok result \<longleftrightarrow> wf_map (SuggestedClusters result) \<and>
     list_all (\<lambda>n. case n of None \<Rightarrow> True | Some v \<Rightarrow> in64 v) (mvals (SuggestedClusters result))"

text \<open>No controller is pending twice, and none is configured twice.\<close>

definition pipeline_ok :: "'a ObjectMeta_scheme \<Rightarrow> FederatedTypeConfig \<Rightarrow> bool" where
  "pipeline_ok obj ftc \<longleftrightarrow> distinct (concat (FTCControllers ftc)) \<and>
     (case GetPendingControllers obj of Inl err \<Rightarrow> True | Inr p \<Rightarrow> distinct (concat p))"

definition sameOutside :: "string set \<Rightarrow> (string, string) gomap \<Rightarrow> (string, string) gomap \<Rightarrow> bool" where
  "sameOutside K a b \<longleftrightarrow> filter (\<lambda>(k, v). k \<notin> K) a = filter (\<lambda>(k, v). k \<notin> K) b"

definition resultKeys :: "string set" where
  "resultKeys = {SchedulingAnnotation, EnableFollowerSchedulingAnnotation, PodUnschedulableThresholdAnnotation}"

definition writtenKeys :: "string set" where
  "writtenKeys = insert PendingControllersAnnotation resultKeys"

definition triggerKeys :: "string set" where
  "triggerKeys = {SchedulingTriggersAnnotation, SchedulingDeferredReasonsAnnotation}"

text \<open>An update of an object that only writes the given annotations and the scheduler's sections.\<close>

definition touches :: "string set \<Rightarrow> SchedObject \<Rightarrow> SchedObject \<Rightarrow> bool" where
  "touches K a b \<longleftrightarrow> sameOutside K (MAnnotations a) (MAnnotations b) \<and> MName b = MName a \<and> MNamespace b = MNamespace a \<and>
     MLabels b = MLabels a \<and> FTemplate b = FTemplate a \<and> ODeletionTimestamp b = ODeletionTimestamp a"

text \<open>The stages of a reconciliation that writes an object, up to the refreshed triggers.\<close>

definition prepared ::
    "schedulerWorld \<Rightarrow> FederatedTypeConfig \<Rightarrow> SchedObject \<Rightarrow> PropagationPolicy option \<Rightarrow> FederatedCluster list
     \<Rightarrow> SchedulingProfile option \<Rightarrow> SchedObject \<Rightarrow> bool" where
  "prepared w ftc obj policy clusters profile obj2 \<longleftrightarrow>
     (let obj1 = applyMigrationConfig (swK8s w) ftc obj in
      ControllerDependenciesFulfilled obj1 PrefixedGlobalSchedulerName = Inr True \<and>
      (\<exists>all triggers r changed. swClusters w = Inr all \<and> clusters = filter (\<lambda>c. IsClusterJoined (CConditions c)) all \<and>
         matchedPolicy w obj1 = Inr (policy, profile) \<and>
         computeSchedulingTriggers (swK8s w) (swExterns w) ftc obj1 policy clusters = Inr triggers \<and>
         refreshTriggers triggers policy obj1 = (obj2, r, changed)))"

text \<open>Example values for the witnesses.\<close>

definition joinedCluster :: "string \<Rightarrow> FederatedCluster" where
  "joinedCluster n = (apiCluster n)\<lparr>CConditions :=
     [\<lparr>CondType = ''Ready'', CondStatus = ''True''\<rparr>, \<lparr>CondType = ''Joined'', CondStatus = ''True''\<rparr>]\<rparr>"

definition schedSample :: SchedObject where
  "schedSample = FedObject.extend fedSample \<lparr>ODeletionTimestamp = None, OGeneration = 1\<rparr>"

definition sampleWorld :: schedulerWorld where
  "sampleWorld = \<lparr>swFedObject = (\<lambda>key. if key = (''ns'', ''web'') then Found schedSample else NotFound),
     swFTC = (\<lambda>_. Some ftcSample), swClusters = Inr [joinedCluster ''A'', apiCluster ''B'', joinedCluster ''C''],
     swPropagationPolicies = (\<lambda>_ _. Found policySample),
     swClusterPropagationPolicies = (\<lambda>_. NotFound), swProfile = (\<lambda>_. NotFound), swUpdate = (\<lambda>_. Updated), swEnv = sampleEnv,
     swKatalyst = False, swWebhooks = [], swK8s = sampleK8s\<rparr>"

text \<open>The same with an object that no policy selects.\<close>

definition quietWorld :: schedulerWorld where
  "quietWorld = sampleWorld\<lparr>swFedObject := (\<lambda>key. Found (schedSample\<lparr>MLabels := []\<rparr>)), swClusters := Inr []\<rparr>"


section \<open>Reading a persisted result back\<close>

lemma replicas_fold:
  assumes "\<forall>x \<in> set ovs. replicasPatch path (Patches x) = Some (val (OCluster x))"
  shows "map_of (fold (\<lambda>override m. if map_of m (OCluster override) = None then m
             else case replicasPatch path (Patches override) of None \<Rightarrow> m
                | Some n \<Rightarrow> mput (OCluster override) (Some n) m) ovs m) c =
     (if map_of m c \<noteq> None \<and> c \<in> OCluster ` set ovs then Some (Some (val c)) else map_of m c)"
  using assms by (induction ovs arbitrary: m) (auto simp: map_of_mput)

lemma map_of_fold_None: "map_of (fold (\<lambda>c m. mput c None m) cs m) c = (if c \<in> set cs then Some None else map_of m c)"
  by (induction cs arbitrary: m) (auto simp: map_of_mput)

lemma getCurrentReplicas_read:
  assumes "GetControllerPlacement (Placements obj) PrefixedGlobalSchedulerName = sort (mkeys r)"
    and "GetControllerOverrides (Overrides obj) PrefixedGlobalSchedulerName =
      sort_key OCluster (map (\<lambda>(cluster, replicas). \<lparr>OCluster = cluster, Patches = [\<lparr>POp = overridePatchOpReplace,
        PPath = ToSlashPath (FTCReplicasSpec ftc), PValue = encodeInt replicas\<rparr>]\<rparr>) d)"
    and "wf_map r" "d = map (\<lambda>(c, n). (c, the n)) (filter (\<lambda>(c, n). n \<noteq> None) r)"
    and "\<And>c v. (c, Some v) \<in> set r \<Longrightarrow> in64 v"
  shows "map_of (getCurrentReplicasFromObject ftc obj) = map_of r"
proof
  fix c
  let ?val = "\<lambda>c. the (the (map_of r c))"
  let ?ovs = "GetControllerOverrides (Overrides obj) PrefixedGlobalSchedulerName"
  have r: "map_of r k = Some v" if "(k, v) \<in> set r" for k v using that assms(3) by (simp add: wf_map_def)
  have "replicasPatch (ToSlashPath (FTCReplicasSpec ftc)) (Patches x) = Some (?val (OCluster x))" if "x \<in> set ?ovs" for x
    using that assms(4,5) r by (auto simp: assms(2) overridePatchOpReplace_def decodeInt64_encodeInt)
  moreover have "OCluster ` set ?ovs = {c. \<exists>v. map_of r c = Some (Some v)}"
    using assms(4) r by (force simp: assms(2) dest: map_of_SomeD)
  moreover have "c \<in> set (mkeys r) \<longleftrightarrow> map_of r c \<noteq> None" by (simp add: mkeys_def map_of_eq_None_iff)
  ultimately show "map_of (getCurrentReplicasFromObject ftc obj) c = map_of r c"
    unfolding getCurrentReplicasFromObject_def Let_def assms(1)
    by (subst replicas_fold [where val = ?val]) (auto simp: map_of_fold_None)
qed

text \<open>The pending controllers are kept in one annotation; nothing else of the object changes.\<close>

lemma UpdatePendingControllers_annotations:
  assumes "UpdatePendingControllers obj c b cs = (obj', r)"
  shows "\<exists>v. obj' = obj\<lparr>MAnnotations := mput PendingControllersAnnotation v (MAnnotations obj)\<rparr> \<or> obj' = obj"
proof (cases "GetPendingControllers obj")
  case (Inl err)
  then show ?thesis using assms by (simp add: UpdatePendingControllers_def)
next
  case (Inr p)
  then obtain cs' where "SetPendingControllers obj cs' = (obj', r)"
    using assms by (auto simp: UpdatePendingControllers_def Let_def split: prod.splits)
  then show ?thesis
    by (auto simp: SetPendingControllers_def AddAnnotation_def HasAnnotationKeyValue_def split: if_splits)
qed

lemma applySchedulingResult_spec:
  assumes "applySchedulingResult k8s ftc obj result aux = Inr (obj', changed)"
  shows "Placements obj' = fst (SetControllerPlacement PrefixedGlobalSchedulerName
         (sort (mkeys (SuggestedClusters result))) (Placements obj))"
    and "Overrides obj' = fst (SetControllerOverrides PrefixedGlobalSchedulerName
         (map (\<lambda>(cluster, replicas). \<lparr>OCluster = cluster, Patches = [\<lparr>POp = overridePatchOpReplace,
           PPath = ToSlashPath (FTCReplicasSpec ftc), PValue = encodeInt replicas\<rparr>]\<rparr>) (desiredOverrides result))
         (Overrides obj))"
    and "MAnnotations obj' = fst (auxAnnotations aux (MAnnotations obj)) \<or>
       (\<exists>v. MAnnotations obj' = mput SchedulingAnnotation v (fst (auxAnnotations aux (MAnnotations obj))))"
    and "MName obj' = MName obj" "MNamespace obj' = MNamespace obj" "MLabels obj' = MLabels obj"
      "FTemplate obj' = FTemplate obj" "ODeletionTimestamp obj' = ODeletionTimestamp obj"
  using assms
  by (auto simp: applySchedulingResult_def UpdateReplicasOverride_def Let_def split: prod.splits sum.splits if_splits)

lemma persistSchedulingResult_object:
  assumes "persistSchedulingResult w ftc obj result aux = (st, Some obj')"
  shows "\<exists>obj1 changed r. applySchedulingResult (swK8s w) ftc obj result aux = Inr (obj1, changed) \<and>
     updatePendingControllers ftc obj1 changed = (obj', Inr r)"
  using assms by (auto simp: persistSchedulingResult_def afterUpdate_def split: sum.splits prod.splits)

lemma persisted_sections:
  assumes "persistSchedulingResult w ftc obj result aux = (st, Some obj')"
  shows "Placements obj' = fst (SetControllerPlacement PrefixedGlobalSchedulerName (sort (mkeys (SuggestedClusters result))) (Placements obj)) \<and>
     Overrides obj' = fst (SetControllerOverrides PrefixedGlobalSchedulerName
         (map (\<lambda>(cluster, replicas). \<lparr>OCluster = cluster, Patches = [\<lparr>POp = overridePatchOpReplace,
           PPath = ToSlashPath (FTCReplicasSpec ftc), PValue = encodeInt replicas\<rparr>]\<rparr>) (desiredOverrides result))
         (Overrides obj)) \<and> FTemplate obj' = FTemplate obj"
proof -
  obtain obj1 changed r where a: "applySchedulingResult (swK8s w) ftc obj result aux = Inr (obj1, changed)"
    and u: "UpdatePendingControllers obj1 PrefixedGlobalSchedulerName changed (GetControllers ftc) = (obj', Inr r)"
    using persistSchedulingResult_object [OF assms] by (auto simp: updatePendingControllers_def)
  show ?thesis using applySchedulingResult_spec [OF a] UpdatePendingControllers_annotations [OF u] by auto
qed


section \<open>Annotations that the scheduler writes\<close>

lemma sameOutside_refl [simp]: "sameOutside K a a"
  by (simp add: sameOutside_def)

lemma sameOutside_mput: "k \<in> K \<Longrightarrow> sameOutside K a (mput k v a)"
  by (induction a) (auto simp: sameOutside_def mput_def)

lemma sameOutside_mdel: "k \<in> K \<Longrightarrow> sameOutside K a (mdel k a)"
  by (auto simp: sameOutside_def mdel_def AList.delete_eq intro!: filter_cong)

lemma sameOutside_trans: "sameOutside K a b \<Longrightarrow> sameOutside K b c \<Longrightarrow> sameOutside K a c"
  by (simp add: sameOutside_def)

lemma sameOutside_mono:
  assumes "sameOutside K a b" "K \<subseteq> L"
  shows "sameOutside L a b"
proof -
  have "filter (\<lambda>(k, v). k \<notin> L) x = filter (\<lambda>(k, v). k \<notin> L) (filter (\<lambda>(k, v). k \<notin> K) x)" for x :: "(string, string) gomap"
    using assms(2) by (auto simp: filter_filter intro!: filter_cong)
  then show ?thesis using assms(1) unfolding sameOutside_def by metis
qed

lemma sameOutside_filter:
  assumes "sameOutside K a b" "\<And>k. P k \<Longrightarrow> k \<notin> K"
  shows "filter (\<lambda>(k, v). P k) a = filter (\<lambda>(k, v). P k) b"
proof -
  have "filter (\<lambda>(k, v). P k) x = filter (\<lambda>(k, v). P k) (filter (\<lambda>(k, v). k \<notin> K) x)" for x :: "(string, string) gomap"
    using assms(2) by (auto simp: filter_filter intro!: filter_cong)
  then show ?thesis using assms(1) unfolding sameOutside_def by metis
qed

lemma sameOutside_map_of:
  assumes "sameOutside K a b" "k \<notin> K"
  shows "map_of a k = map_of b k"
proof -
  have "map_of x k = map_of (filter (\<lambda>(k', v). k' = k) x) k" for x :: "(string, string) gomap"
    by (induction x) auto
  then show ?thesis using sameOutside_filter [OF assms(1), of "\<lambda>k'. k' = k"] assms(2) by metis
qed

lemma mput_same: "map_of m k = Some v \<Longrightarrow> mput k v m = m"
  by (induction m) (auto simp: mput_def split: if_splits)

lemmas key_defs = PendingControllersAnnotation_def SchedulingAnnotation_def EnableFollowerSchedulingAnnotation_def
  PodUnschedulableThresholdAnnotation_def SchedulingTriggersAnnotation_def SchedulingDeferredReasonsAnnotation_def
  AutoMigrationInfoAnnotation_def AppliedMigrationConfigurationAnnotation_def MigrationConfigurationAnnotation_def
  DefaultPrefix_def InternalPrefix_def

lemma keys_free:
  "SchedulingTriggersAnnotation \<notin> writtenKeys" "SchedulingDeferredReasonsAnnotation \<notin> writtenKeys"
  "AutoMigrationInfoAnnotation \<notin> writtenKeys \<union> triggerKeys"
  "AppliedMigrationConfigurationAnnotation \<notin> writtenKeys \<union> triggerKeys"
  "MigrationConfigurationAnnotation \<notin> writtenKeys \<union> triggerKeys"
  "MigrationConfigurationAnnotation \<noteq> AppliedMigrationConfigurationAnnotation"
  by (simp_all add: writtenKeys_def resultKeys_def triggerKeys_def key_defs)

lemma known_free: "k \<in> set knownSchedulingAnnotations \<Longrightarrow> k \<notin> writtenKeys \<union> triggerKeys"
  by (auto simp: knownSchedulingAnnotations_def writtenKeys_def resultKeys_def triggerKeys_def key_defs)

lemma auxAnnotations_same: "sameOutside resultKeys a (fst (auxAnnotations aux a))"
proof -
  have s: "sameOutside resultKeys x (fst (setIfDiffers k v (x, b)))" if "k \<in> resultKeys" for k v x b
    using that by (auto simp: setIfDiffers_def intro: sameOutside_mput)
  obtain a1 m1 where a1: "setIfDiffers EnableFollowerSchedulingAnnotation
      (if enableFollowerScheduling aux then ''true'' else ''false'') (a, False) = (a1, m1)" by fastforce
  have w: "EnableFollowerSchedulingAnnotation \<in> resultKeys" "PodUnschedulableThresholdAnnotation \<in> resultKeys"
    by (simp_all add: resultKeys_def)
  have 1: "sameOutside resultKeys a a1"
    using s [OF w(1), of a "if enableFollowerScheduling aux then ''true'' else ''false''" False] by (simp add: a1)
  show ?thesis
    using 1 sameOutside_trans [OF 1 s [OF w(2), of a1 _ m1]] sameOutside_trans [OF 1 sameOutside_mdel [OF w(2), of a1]]
    by (auto simp: auxAnnotations_def a1 split: option.splits)
qed

lemma touches_refl [simp]: "touches K a a"
  by (simp add: touches_def)

lemma touches_trans: "touches K a b \<Longrightarrow> touches K b c \<Longrightarrow> touches K a c"
  by (auto simp: touches_def intro: sameOutside_trans)

lemma touches_mono: "touches K a b \<Longrightarrow> K \<subseteq> L \<Longrightarrow> touches L a b"
  by (auto simp: touches_def intro: sameOutside_mono)

lemma touches_updatePending:
  assumes "updatePendingControllers ftc obj b = (obj', r)"
  shows "touches writtenKeys obj obj'"
proof -
  have "PendingControllersAnnotation \<in> writtenKeys" by (simp add: writtenKeys_def)
  then show ?thesis
    using UpdatePendingControllers_annotations [OF assms [unfolded updatePendingControllers_def]]
    by (auto simp: touches_def intro: sameOutside_mput)
qed

lemma touches_apply:
  assumes "applySchedulingResult k8s ftc obj result aux = Inr (obj', changed)"
  shows "touches resultKeys obj obj'"
proof -
  have "SchedulingAnnotation \<in> resultKeys" by (simp add: resultKeys_def)
  then have "sameOutside resultKeys (MAnnotations obj) (mput SchedulingAnnotation v (fst (auxAnnotations aux (MAnnotations obj))))" for v
    using auxAnnotations_same sameOutside_trans sameOutside_mput by blast
  then show ?thesis
    using applySchedulingResult_spec [OF assms] auxAnnotations_same by (auto simp: touches_def)
qed

lemma touches_update:
  assumes "updateSchedulingAnnotations tr rs obj = (obj', r)"
  shows "touches triggerKeys obj obj'"
proof -
  have k: "SchedulingTriggersAnnotation \<in> triggerKeys" "SchedulingDeferredReasonsAnnotation \<in> triggerKeys"
    by (simp_all add: triggerKeys_def)
  have 1: "sameOutside triggerKeys a (mput SchedulingTriggersAnnotation tr a)" for a using k by (intro sameOutside_mput)
  have 2: "sameOutside triggerKeys a (mput SchedulingDeferredReasonsAnnotation rs a)" for a using k by (intro sameOutside_mput)
  have 3: "sameOutside triggerKeys a (mdel SchedulingDeferredReasonsAnnotation a)" for a using k by (intro sameOutside_mdel)
  note 4 = 1 2 3 sameOutside_trans [OF 1 2] sameOutside_trans [OF 1 3]
  show ?thesis using assms keys_differ 4
    by (auto simp: updateSchedulingAnnotations_def AddAnnotation_def RemoveAnnotation_def HasAnnotationKey_def
      HasAnnotationKeyValue_def touches_def split: option.splits if_splits)
qed

lemma touches_refresh: "refreshTriggers t policy obj = (obj', r, changed) \<Longrightarrow> touches triggerKeys obj obj'"
  using touches_update by (auto simp: refreshTriggers_def split: prod.splits)


section \<open>A second reconciliation\<close>

lemma refresh_again:
  assumes "refreshTriggers t policy obj1 = (obj2, r, changed)" "touches writtenKeys obj2 x"
  shows "refreshTriggers t policy x = (x, Inr False, False)"
proof -
  obtain tr rs where c: "computeSchedulingAnnotations t obj1 policy = (tr, rs, changed)"
    and u: "updateSchedulingAnnotations tr rs obj1 = (obj2, r)"
    using assms(1) by (auto simp: refreshTriggers_def split: prod.splits)
  have s: "sameOutside writtenKeys (MAnnotations obj2) (MAnnotations x)" using assms(2) by (simp add: touches_def)
  have "map_of (MAnnotations x) SchedulingTriggersAnnotation = Some tr"
    "map_of (MAnnotations x) SchedulingDeferredReasonsAnnotation = (if rs = [] then None else Some rs)"
    using updateSchedulingAnnotations_spec [of tr rs obj1] u sameOutside_map_of [OF s] keys_free by auto
  from computeSchedulingAnnotations_again [OF c this(1)] updateSchedulingAnnotations_id [OF this]
  show ?thesis by (simp add: refreshTriggers_def)
qed

lemma template_cong:
  assumes "FTemplate b = FTemplate a"
  shows "GetTemplateAsUnstructured k8s b = GetTemplateAsUnstructured k8s a"
    and "GetTemplateMetadata k8s b = GetTemplateMetadata k8s a"
    and "getReplicaCount k8s ftc b = getReplicaCount k8s ftc a"
    and "getResourceRequest k8s ext ftc b = getResourceRequest k8s ext ftc a"
    and "getCustomMigrationInfoBytes k8s bytes b ftc = getCustomMigrationInfoBytes k8s bytes a ftc"
proof -
  show t: "GetTemplateAsUnstructured k8s b = GetTemplateAsUnstructured k8s a"
    using assms by (simp add: GetTemplateAsUnstructured_def)
  show "GetTemplateMetadata k8s b = GetTemplateMetadata k8s a" using assms by (simp add: GetTemplateMetadata_def)
  show "getReplicaCount k8s ftc b = getReplicaCount k8s ftc a" by (simp add: getReplicaCount_def t)
  show "getResourceRequest k8s ext ftc b = getResourceRequest k8s ext ftc a"
    unfolding getResourceRequest_def GetResourcePodSpec_def GetPodSpec_def option.case t ..
  show "getCustomMigrationInfoBytes k8s bytes b ftc = getCustomMigrationInfoBytes k8s bytes a ftc"
    unfolding getCustomMigrationInfoBytes_def validateMigrationConfig_def replicasMigrationSupported_def t ..
qed

lemma triggers_again:
  assumes "touches (writtenKeys \<union> triggerKeys) a b"
  shows "computeSchedulingTriggers k8s ext ftc b policy clusters = computeSchedulingTriggers k8s ext ftc a policy clusters"
proof -
  have s: "sameOutside (writtenKeys \<union> triggerKeys) (MAnnotations a) (MAnnotations b)" and t: "FTemplate b = FTemplate a"
    using assms by (simp_all add: touches_def)
  have h: "getSchedulingAnnotationsHash b = getSchedulingAnnotationsHash a"
    using sameOutside_filter [OF s, of "\<lambda>k. k \<in> set knownSchedulingAnnotations"] known_free
    by (simp add: getSchedulingAnnotationsHash_def)
  show ?thesis
    unfolding computeSchedulingTriggers_def template_cong(3,4) [OF t] h sameOutside_map_of [OF s keys_free(3)] ..
qed

lemma migration_again:
  assumes "touches (writtenKeys \<union> triggerKeys) (applyMigrationConfig k8s ftc obj) x"
  shows "applyMigrationConfig k8s ftc x = x"
proof -
  let ?a = "applyMigrationConfig k8s ftc obj"
  have "FTemplate ?a = FTemplate obj" by (simp add: applyMigrationConfig_def split: option.splits sum.splits)
  then have t: "FTemplate x = FTemplate obj" using assms by (simp add: touches_def)
  have s: "sameOutside (writtenKeys \<union> triggerKeys) (MAnnotations ?a) (MAnnotations x)" using assms by (simp add: touches_def)
  have m: "map_of (MAnnotations ?a) MigrationConfigurationAnnotation = map_of (MAnnotations obj) MigrationConfigurationAnnotation"
    using keys_free(6) by (auto simp: applyMigrationConfig_def map_of_mput map_of_mdel split: option.splits sum.splits)
  note same = sameOutside_map_of [OF s keys_free(4), symmetric] sameOutside_map_of [OF s keys_free(5), symmetric]
  show ?thesis
  proof (cases "map_of (MAnnotations obj) MigrationConfigurationAnnotation")
    case None
    then have "map_of (MAnnotations ?a) AppliedMigrationConfigurationAnnotation = None"
      by (simp add: applyMigrationConfig_def map_of_mdel)
    then show ?thesis using None same m by (simp add: applyMigrationConfig_def)
  next
    case (Some bytes)
    note b = template_cong(5) [OF t, of k8s bytes ftc]
    show ?thesis
    proof (cases "getCustomMigrationInfoBytes k8s bytes obj ftc")
      case (Inl err)
      then show ?thesis using Some same m b by (simp add: applyMigrationConfig_def)
    next
      case (Inr v)
      then have "map_of (MAnnotations ?a) AppliedMigrationConfigurationAnnotation = Some v"
        using Some by (simp add: applyMigrationConfig_def map_of_mput)
      then have "mput AppliedMigrationConfigurationAnnotation v (MAnnotations x) = MAnnotations x"
        using same by (intro mput_same) simp
      then show ?thesis using Inr Some same m b by (simp add: applyMigrationConfig_def)
    qed
  qed
qed

lemma pending_annotation:
  assumes "SetPendingControllers obj cs = (obj', r)"
  shows "map_of (MAnnotations obj') PendingControllersAnnotation = Some (encodeControllers (NormalizeControllers cs))"
  using assms by (auto simp: SetPendingControllers_def AddAnnotation_def HasAnnotationKeyValue_def map_of_mput
    PendingControllersAnnotation_def DefaultPrefix_def split: if_splits)

lemma pending_empty:
  assumes "map_of (MAnnotations x) PendingControllersAnnotation = Some (encodeControllers [])"
  shows "UpdatePendingControllers x c False all = (x, Inr False)"
  using assms
  by (simp add: UpdatePendingControllers_def GetPendingControllers_def decode_encodeControllers NormalizeControllers_def
    SetPendingControllers_def AddAnnotation_def HasAnnotationKeyValue_def PendingControllersAnnotation_def DefaultPrefix_def)

text \<open>A controller that has removed itself is not up again before the others, or the pipeline is empty.\<close>

lemma pending_done:
  assumes "UpdatePendingControllers obj c b (GetControllers ftc) = (x, Inr r)"
    and "ControllerDependenciesFulfilled obj c = Inr True" "pipeline_ok obj ftc"
  shows "ControllerDependenciesFulfilled x c = Inr False \<or>
     ControllerDependenciesFulfilled x c = Inr True \<and>
       map_of (MAnnotations x) PendingControllersAnnotation = Some (encodeControllers [])"
proof -
  obtain p where p: "GetPendingControllers obj = Inr p"
    using assms(2) by (auto simp: ControllerDependenciesFulfilled_def split: sum.splits)
  let ?cs = "remove1 c (case p of [] \<Rightarrow> [] | g # _ \<Rightarrow> g) # (if b then GetDownstreamControllers (FTCControllers ftc) c else tl p)"
  have u: "SetPendingControllers obj ?cs = (x, Inr r)"
    using assms(1) p by (cases p; cases b) (simp_all add: UpdatePendingControllers_def GetControllers_def)
  have d: "distinct (concat p)" "distinct (concat (FTCControllers ftc))" using assms(3) p by (simp_all add: pipeline_ok_def)
  have "c \<notin> set (concat (GetDownstreamControllers all c))" if "distinct (concat all)" for all
    using that by (induction all) auto
  moreover have "c \<notin> set (concat (tl p))"
    using assms(2) p d(1) by (cases p) (auto simp: ControllerDependenciesFulfilled_def)
  moreover have "c \<notin> set (remove1 c (case p of [] \<Rightarrow> [] | g # _ \<Rightarrow> g))" using d(1) by (cases p) auto
  ultimately have n: "c \<notin> set (concat (NormalizeControllers ?cs))" using d(2) by (auto simp: NormalizeControllers_def)
  have g: "GetPendingControllers x = Inr (NormalizeControllers ?cs)" using Get_Set [OF u] by simp
  show ?thesis
  proof (cases "NormalizeControllers ?cs")
    case Nil
    then show ?thesis using g pending_annotation [OF u] by (simp add: ControllerDependenciesFulfilled_def)
  next
    case (Cons g' gs)
    then show ?thesis using g n by (auto simp: ControllerDependenciesFulfilled_def)
  qed
qed

lemma pipeline_ok_cong:
  assumes "map_of (MAnnotations a) PendingControllersAnnotation = map_of (MAnnotations b) PendingControllersAnnotation"
  shows "pipeline_ok a ftc = pipeline_ok b ftc"
    and "ControllerDependenciesFulfilled a c = ControllerDependenciesFulfilled b c"
  using assms by (simp_all add: pipeline_ok_def ControllerDependenciesFulfilled_def GetPendingControllers_def)

lemma matchedPolicy_cong:
  assumes "touches K a b"
  shows "matchedPolicy w b = matchedPolicy w a"
proof -
  have eq: "MLabels b = MLabels a" "MNamespace b = MNamespace a" using assms by (simp_all add: touches_def)
  have "GetMatchedPolicyKey b = GetMatchedPolicyKey a" unfolding GetMatchedPolicyKey_def eq ..
  then show ?thesis unfolding matchedPolicy_def by simp
qed

text \<open>An object that a reconciliation has just written is left alone by the next one.\<close>

lemma prepare_again:
  assumes refresh: "refreshTriggers triggers policy (applyMigrationConfig (swK8s w) ftc obj) = (obj2, r, changed)"
    and cl: "swClusters w = Inr allClusters" "clusters = filter (\<lambda>c. IsClusterJoined (CConditions c)) allClusters"
    and pol: "matchedPolicy w (applyMigrationConfig (swK8s w) ftc obj) = Inr (policy, profile)"
    and trig: "computeSchedulingTriggers (swK8s w) (swExterns w) ftc (applyMigrationConfig (swK8s w) ftc obj) policy clusters = Inr triggers"
    and x: "touches writtenKeys obj2 x"
    and pending: "ControllerDependenciesFulfilled x PrefixedGlobalSchedulerName = Inr False \<or>
       ControllerDependenciesFulfilled x PrefixedGlobalSchedulerName = Inr True \<and>
         map_of (MAnnotations x) PendingControllersAnnotation = Some (encodeControllers [])"
  shows "prepareToSchedule w x ftc = Inl (StatusAllOK, None)"
proof -
  let ?a = "applyMigrationConfig (swK8s w) ftc obj"
  have t: "touches (writtenKeys \<union> triggerKeys) ?a x"
    using touches_trans [OF touches_mono [OF touches_refresh [OF refresh]] touches_mono [OF x]] by blast
  have skip: "skipScheduling w ftc x False = (StatusAllOK, None)"
    if "map_of (MAnnotations x) PendingControllersAnnotation = Some (encodeControllers [])"
    using pending_empty [OF that] by (simp add: skipScheduling_def updatePendingControllers_def)
  show ?thesis
    using pending skip cl pol trig refresh_again [OF refresh x]
    by (auto simp: prepareToSchedule_def migration_again [OF t] matchedPolicy_cong [OF t] triggers_again [OF t] Let_def)
qed

lemma applyMigrationConfig_pending:
  "map_of (MAnnotations (applyMigrationConfig k8s ftc obj)) PendingControllersAnnotation =
     map_of (MAnnotations obj) PendingControllersAnnotation"
  by (auto simp: applyMigrationConfig_def map_of_mput map_of_mdel key_defs split: option.splits sum.splits)

lemma applyMigrationConfig_same:
  "FTemplate (applyMigrationConfig k8s ftc obj) = FTemplate obj"
  "ODeletionTimestamp (applyMigrationConfig k8s ftc obj) = ODeletionTimestamp obj"
  by (auto simp: applyMigrationConfig_def split: option.splits sum.splits)

lemma prepareToSchedule_cases:
  assumes "prepareToSchedule w obj ftc = res"
  shows "(\<exists>st. res = Inl (st, None)) \<or>
     (\<exists>policy clusters profile obj2. prepared w ftc obj policy clusters profile obj2 \<and>
        ((\<exists>changed. res = Inl (skipScheduling w ftc obj2 changed)) \<or> res = Inr (obj2, policy, clusters, profile)))"
proof -
  let ?obj1 = "applyMigrationConfig (swK8s w) ftc obj"
  show ?thesis
  proof (cases "ControllerDependenciesFulfilled ?obj1 PrefixedGlobalSchedulerName = Inr True")
    case False
    then show ?thesis
      using assms by (auto simp: prepareToSchedule_def Let_def split: sum.splits bool.splits)
  next
    case dep: True
    show ?thesis
    proof (cases "swClusters w")
      case (Inl err)
      then show ?thesis using assms dep by (auto simp: prepareToSchedule_def Let_def)
    next
      case cl: (Inr all)
      let ?cl = "filter (\<lambda>c. IsClusterJoined (CConditions c)) all"
      show ?thesis
      proof (cases "matchedPolicy w ?obj1")
        case (Inl err)
        then show ?thesis using assms dep cl by (auto simp: prepareToSchedule_def Let_def)
      next
        case (Inr pp)
        then obtain policy profile where pol: "matchedPolicy w ?obj1 = Inr (policy, profile)" by (cases pp) auto
        show ?thesis
        proof (cases "computeSchedulingTriggers (swK8s w) (swExterns w) ftc ?obj1 policy ?cl")
          case (Inl err)
          then show ?thesis using assms dep cl pol by (auto simp: prepareToSchedule_def Let_def)
        next
          case trig: (Inr triggers)
          obtain obj2 r changed where ref: "refreshTriggers triggers policy ?obj1 = (obj2, r, changed)" by (metis prod_cases3)
          then have "prepared w ftc obj policy ?cl profile obj2"
            using dep cl pol trig by (auto simp: prepared_def Let_def)
          moreover have "(\<exists>st. res = Inl (st, None)) \<or> (\<exists>changed. res = Inl (skipScheduling w ftc obj2 changed)) \<or>
              res = Inr (obj2, policy, ?cl, profile)"
            using assms dep cl pol trig ref by (auto simp: prepareToSchedule_def Let_def split: sum.splits if_splits)
          ultimately show ?thesis by blast
        qed
      qed
    qed
  qed
qed

lemma skip_written:
  "skipScheduling w ftc obj2 changed = (st, Some obj') \<Longrightarrow> \<exists>r. updatePendingControllers ftc obj2 False = (obj', Inr r)"
  by (auto simp: skipScheduling_def afterUpdate_def split: prod.splits sum.splits if_splits)

lemma schedule_written:
  assumes "scheduleAndPersist w ftc obj2 policy clusters profile = Some (st, Some obj')"
  shows "\<exists>obj3 b r. touches resultKeys obj2 obj3 \<and> updatePendingControllers ftc obj3 b = (obj', Inr r)"
proof -
  obtain result aux where "persistSchedulingResult w ftc obj2 result aux = (st, Some obj')"
    using assms by (auto simp: scheduleAndPersist_def split: option.splits sum.splits)
  then show ?thesis using persistSchedulingResult_object touches_apply by meson
qed

text \<open>The next reconciliation of a written object, possibly with a new generation, does nothing.\<close>

lemma prepared_again:
  assumes "prepared w ftc obj policy clusters profile obj2" "touches resultKeys obj2 obj3"
    and "updatePendingControllers ftc obj3 b = (obj', Inr r)" "pipeline_ok obj ftc"
    and "touches {} obj' x" "MAnnotations x = MAnnotations obj'"
  shows "prepareToSchedule w x ftc = Inl (StatusAllOK, None) \<and> FTemplate x = FTemplate obj \<and>
     ODeletionTimestamp x = ODeletionTimestamp obj"
proof -
  let ?a = "applyMigrationConfig (swK8s w) ftc obj"
  obtain all triggers r' changed where p: "ControllerDependenciesFulfilled ?a PrefixedGlobalSchedulerName = Inr True"
      "swClusters w = Inr all" "clusters = filter (\<lambda>c. IsClusterJoined (CConditions c)) all"
      "matchedPolicy w ?a = Inr (policy, profile)"
      "computeSchedulingTriggers (swK8s w) (swExterns w) ftc ?a policy clusters = Inr triggers"
      and ref: "refreshTriggers triggers policy ?a = (obj2, r', changed)"
    using assms(1) unfolding prepared_def Let_def by auto
  have t3: "touches (resultKeys \<union> triggerKeys) ?a obj3"
    using touches_trans [OF touches_mono [OF touches_refresh [OF ref]] touches_mono [OF assms(2)]] by blast
  have "PendingControllersAnnotation \<notin> resultKeys \<union> triggerKeys"
    by (simp add: resultKeys_def triggerKeys_def key_defs)
  then have pend: "map_of (MAnnotations obj3) PendingControllersAnnotation = map_of (MAnnotations obj) PendingControllersAnnotation"
    using t3 sameOutside_map_of applyMigrationConfig_pending unfolding touches_def by metis
  have "ControllerDependenciesFulfilled obj3 PrefixedGlobalSchedulerName = Inr True" "pipeline_ok obj3 ftc"
    using p(1) assms(4) pipeline_ok_cong [OF pend] pipeline_ok_cong [OF applyMigrationConfig_pending] by metis+
  note fin = pending_done [OF assms(3) [unfolded updatePendingControllers_def] this, folded assms(6)]
  have x: "ControllerDependenciesFulfilled x c = ControllerDependenciesFulfilled obj' c" for c
    using assms(6) by (intro pipeline_ok_cong) simp
  have w3: "touches writtenKeys obj2 obj3" using touches_mono [OF assms(2)] by (auto simp: writtenKeys_def)
  have wx: "touches writtenKeys obj2 x"
    using touches_trans [OF touches_trans [OF w3 touches_updatePending [OF assms(3)]] touches_mono [OF assms(5)]] by blast
  have "prepareToSchedule w x ftc = Inl (StatusAllOK, None)"
    using fin by (intro prepare_again [OF ref p(2-5) wx]) (simp add: x)
  moreover have "touches (writtenKeys \<union> triggerKeys) ?a x"
    using touches_trans [OF touches_mono [OF touches_refresh [OF ref]] touches_mono [OF wx]] by blast
  ultimately show ?thesis by (simp add: touches_def applyMigrationConfig_same)
qed


section \<open>Properties\<close>

text \<open>
  C28.  What the scheduler persists is what it decided: the object sent to the API server, read as the
  next scheduling reads it, has exactly the suggested clusters with the suggested replicas; the
  sections of every other controller and the template are untouched, and the status tells whether the API
  server took the update.
\<close>

theorem persisted_result:
  assumes "sections_ok obj" "result_ok result"
    and "persistSchedulingResult w ftc obj result aux = (st, Some obj')"
  shows "map_of (getCurrentReplicasFromObject ftc obj') = map_of (SuggestedClusters result) \<and>
     (\<forall>c. c = PrefixedGlobalSchedulerName \<or>
        (GetControllerPlacement (Placements obj') c = GetControllerPlacement (Placements obj) c \<and>
         GetControllerOverrides (Overrides obj') c = GetControllerOverrides (Overrides obj) c)) \<and>
     FTemplate obj' = FTemplate obj \<and> sections_ok obj' \<and> (st = StatusAllOK \<longleftrightarrow> swUpdate w obj' = Updated)"
proof -
  note p = persisted_sections [OF assms(3)]
  have d: "distinct (map PlController (Placements obj))" "distinct (map OvController (Overrides obj))"
    using assms(1) by (simp_all add: sections_ok_def)
  have wf: "wf_map (SuggestedClusters result)" using assms(2) by (simp add: result_ok_def)
  have i: "in64 v" if "(c, Some v) \<in> set (SuggestedClusters result)" for c v
    using assms(2) that by (force simp: result_ok_def list_all_iff mvals_def split: option.splits)
  have "map_of (getCurrentReplicasFromObject ftc obj') = map_of (SuggestedClusters result)"
    by (rule getCurrentReplicas_read [OF _ _ wf desiredOverrides_def i])
      (simp_all add: p PlacementSection.get_put [OF d(1)] OverrideSection.get_put [OF d(2)] sorted_sort_id)
  moreover have "sections_ok obj'"
    using PlacementSection.put_distinct [OF d(1)] OverrideSection.put_distinct [OF d(2)] by (simp add: sections_ok_def p)
  moreover have "st = StatusAllOK \<longleftrightarrow> swUpdate w obj' = Updated"
    using assms(3) by (auto simp: persistSchedulingResult_def afterUpdate_def split: sum.splits prod.splits updateResult.splits)
  ultimately show ?thesis
    using p by (auto simp: PlacementSection.get_put_other OverrideSection.get_put_other)
qed

theorem persisted_result_witness:
  "\<exists>obj'. persistSchedulingResult sampleWorld ftcSample schedSample \<lparr>SuggestedClusters = [(''C'', Some 2), (''A'', Some 1)]\<rparr>
       \<lparr>enableFollowerScheduling = True, unschedulableThreshold = Some 90000000000\<rparr> = (StatusAllOK, Some obj') \<and>
     map_of (getCurrentReplicasFromObject ftcSample obj') ''C'' = Some (Some 2)"
proof -
  let ?r = "\<lparr>SuggestedClusters = [(''C'', Some 2), (''A'', Some 1)]\<rparr>"
  let ?aux = "\<lparr>enableFollowerScheduling = True, unschedulableThreshold = Some 90000000000\<rparr>"
  have "sections_ok schedSample" "result_ok ?r" by code_simp+
  note * = persisted_result [OF this, of sampleWorld ftcSample ?aux StatusAllOK]
  have "case persistSchedulingResult sampleWorld ftcSample schedSample ?r ?aux of (st, x) \<Rightarrow> st = StatusAllOK \<and> x \<noteq> None"
    by code_simp
  then obtain obj' where p: "persistSchedulingResult sampleWorld ftcSample schedSample ?r ?aux = (StatusAllOK, Some obj')"
    by (auto split: prod.splits)
  show ?thesis using *[OF p] p by auto
qed

text \<open>
  C29.  The scheduler converges: when a reconciliation has written an object and the API server has
  stored it, with whatever new generation, reconciling it again in the same world succeeds without a
  write.  No controller may be configured or pending twice.
\<close>

theorem reconcile_converges:
  assumes "swFedObject w key = Found obj"
    and "reconcile w key = Some (StatusAllOK, Some obj')"
    and "\<forall>gvk ftc. swFTC w gvk = Some ftc \<longrightarrow> pipeline_ok obj ftc"
  shows "reconcile (w\<lparr>swFedObject := (swFedObject w)(key := Found (obj'\<lparr>OGeneration := g\<rparr>))\<rparr>) key = Some (StatusAllOK, None)"
proof -
  let ?x = "obj'\<lparr>OGeneration := g\<rparr>"
  let ?w = "w\<lparr>swFedObject := (swFedObject w)(key := Found ?x)\<rparr>"
  obtain meta ftc where f: "ODeletionTimestamp obj = None" "GetTemplateMetadata (swK8s w) obj = Inr meta"
      "swFTC w (TMGroupVersionKind meta) = Some ftc"
      "(case prepareToSchedule w obj ftc of Inl (status, written) \<Rightarrow> Some (status, written)
        | Inr (obj1, policy, clusters, profile) \<Rightarrow> scheduleAndPersist w ftc obj1 policy clusters profile) =
       Some (StatusAllOK, Some obj')"
    using assms(1,2) by (auto simp: reconcile_def split: if_splits sum.splits option.splits)
  obtain policy clusters profile obj2 obj3 b r where p: "prepared w ftc obj policy clusters profile obj2"
      "touches resultKeys obj2 obj3" "updatePendingControllers ftc obj3 b = (obj', Inr r)"
    using prepareToSchedule_cases [OF refl, of w obj ftc] f(4)
    by (auto dest!: skip_written schedule_written split: sum.splits) (metis skip_written touches_refl)
  have ok: "pipeline_ok obj ftc" using assms(3) f(3) by blast
  have "prepareToSchedule w ?x ftc = Inl (StatusAllOK, None)" "FTemplate ?x = FTemplate obj"
      "ODeletionTimestamp ?x = ODeletionTimestamp obj"
    using prepared_again [OF p ok, of ?x] by (simp_all add: touches_def)
  moreover have eqs: "swClusters ?w = swClusters w" "swK8s ?w = swK8s w" "swEnv ?w = swEnv w" "swPropagationPolicies ?w = swPropagationPolicies w"
      "swClusterPropagationPolicies ?w = swClusterPropagationPolicies w"
      "swProfile ?w = swProfile w" "swUpdate ?w = swUpdate w"
    by simp_all
  have "prepareToSchedule ?w y ftc = prepareToSchedule w y ftc" for y
    unfolding prepareToSchedule_def skipScheduling_def afterUpdate_def matchedPolicy_def policyFromStore_def eqs ..
  ultimately show ?thesis using f template_cong(2) [of ?x obj "swK8s w"]
    by (simp add: reconcile_def)
qed

theorem reconcile_converges_witness:
  "\<exists>obj'. reconcile quietWorld (''ns'', ''web'') = Some (StatusAllOK, Some obj') \<and>
     reconcile (quietWorld\<lparr>swFedObject := (swFedObject quietWorld)((''ns'', ''web'') := Found (obj'\<lparr>OGeneration := 2\<rparr>))\<rparr>)
       (''ns'', ''web'') = Some (StatusAllOK, None)"
proof -
  let ?obj = "schedSample\<lparr>MLabels := []\<rparr>"
  have f: "swFedObject quietWorld (''ns'', ''web'') = Found ?obj" by (simp add: quietWorld_def)
  have "pipeline_ok ?obj ftcSample" by code_simp
  then have p: "\<forall>gvk ftc. swFTC quietWorld gvk = Some ftc \<longrightarrow> pipeline_ok ?obj ftc" by (simp add: quietWorld_def sampleWorld_def)
  have "case reconcile quietWorld (''ns'', ''web'') of None \<Rightarrow> False | Some (st, x) \<Rightarrow> st = StatusAllOK \<and> x \<noteq> None"
    by code_simp
  then obtain obj' where r: "reconcile quietWorld (''ns'', ''web'') = Some (StatusAllOK, Some obj')"
    by (auto split: option.splits)
  from reconcile_converges [OF f r p] r show ?thesis by blast
qed

end
