(* ===== verification/Override_Controller.thy ===== *)
theory Override_Controller
  imports Override_Patches Scheduler
begin

text \<open>
  The override policy controller, \<open>pkg/controllers/override/{util,overridepolicy_controller}.go\<close> and
  \<open>pkg/controllers/util/overridepolicy.go\<close>.  The record \<open>overrideWorld\<close> holds what one reconciliation reads
  and the answer of the API server to its update.  The resolved objects of the clusters, which the code
  changes in place while it walks over the rules, are passed along as a map.
\<close>


section \<open>Model: policies\<close>

record OverrideRule =
  RuleTargetClusters :: "TargetClusters option"
  RuleOverriders :: "Overriders option"

record OverridePolicy =
  OvpName :: string
  OvpNamespace :: string
  OverrideRules :: "OverrideRule list"

type_synonym overridesMap = "(string, OverridePatch list) gomap"
type_synonym helpers = "(string, helpData) gomap"

record overrideWorld =
  owEnv :: overrideEnv
  owFedObject :: "string \<times> string \<Rightarrow> SchedObject lookup"
  owFTC :: "gvk \<Rightarrow> FederatedTypeConfig option"
  owClusters :: "string + FederatedCluster list"
  owOverridePolicies :: "string \<Rightarrow> string \<Rightarrow> OverridePolicy lookup"
  owClusterOverridePolicies :: "string \<Rightarrow> OverridePolicy lookup"
  owUpdate :: "SchedObject \<Rightarrow> updateResult"

definition OverridePolicyNameLabel :: string where
  "OverridePolicyNameLabel = DefaultPrefix @ ''override-policy-name''"

definition ClusterOverridePolicyNameLabel :: string where
  "ClusterOverridePolicyNameLabel = DefaultPrefix @ ''cluster-override-policy-name''"

definition PrefixedControllerName :: string where
  "PrefixedControllerName = DefaultPrefix @ ''overridepolicy-controller''"

text \<open>An error carries whether the object is checked again.\<close>

definition lookForMatchedPolicies ::
    "overrideWorld \<Rightarrow> SchedObject \<Rightarrow> bool \<Rightarrow> (bool \<times> string) + OverridePolicy list" where
  "lookForMatchedPolicies w obj isNamespaced =
     (let look = (\<lambda>label get. case map_of (MLabels obj) label of
            None \<Rightarrow> Inr []
          | Some policyName \<Rightarrow>
              if length policyName = 0 then Inl (False, ''policy name cannot be empty'')
              else case get policyName of
                LookupFailed \<Rightarrow> Inl (True, ''failed to get policy'')
              | NotFound \<Rightarrow> Inl (False, policyName @ '' not found'')
              | Found policy \<Rightarrow> Inr [policy])
      in case look ClusterOverridePolicyNameLabel (owClusterOverridePolicies w) of
        Inl err \<Rightarrow> Inl err
      | Inr clusterPolicies \<Rightarrow>
          if isNamespaced then map_sum id ((@) clusterPolicies) (look OverridePolicyNameLabel (owOverridePolicies w (MNamespace obj)))
          else Inr clusterPolicies)"

definition getGVKFromFederatedObject :: "overrideEnv \<Rightarrow> SchedObject \<Rightarrow> string + gvk" where
  "getGVKFromFederatedObject env fedObject =
     map_sum (\<lambda>err. ''failed to get sourceObj from fedObj: '' @ err) (UnsGVK env) (GetTemplateAsUnstructured (oeK8s env) fedObject)"

definition getHelpDataFromFedObj :: "overrideEnv \<Rightarrow> SchedObject \<Rightarrow> string + helpData" where
  "getHelpDataFromFedObj env fedObj =
     (case getGVKFromFederatedObject env fedObj of
        Inl err \<Rightarrow> Inl (''failed to get gvk from fedObj: '' @ err)
      | Inr g \<Rightarrow>
          (case GetTemplateAsUnstructured (oeK8s env) fedObj of
             Inl err \<Rightarrow> Inl (''failed to get sourceObj from fedObj: '' @ err)
           | Inr sourceObj \<Rightarrow> Inr \<lparr>hdGvk = g, hdSourceObj = sourceObj\<rparr>))"


section \<open>Model: matching clusters\<close>

definition isClusterMatchedByClusterNames :: "string list \<Rightarrow> FederatedCluster \<Rightarrow> bool" where
  "isClusterMatchedByClusterNames clusterNames cluster =
     (if clusterNames = [] then True else list_ex (\<lambda>clusterName. clusterName = CName cluster) clusterNames)"

definition isClusterMatchedByClusterSelector ::
    "overrideEnv \<Rightarrow> (string, string) gomap \<Rightarrow> FederatedCluster \<Rightarrow> string + bool" where
  "isClusterMatchedByClusterSelector env clusterSelector cluster =
     map_sum (\<lambda>err. ''failed to interpret clusterSelector: '' @ err) (\<lambda>selector. selector (CLabels cluster))
       (LabelSelectorAsSelector env clusterSelector)"

definition isClusterMatchedByClusterAffinity ::
    "overrideEnv \<Rightarrow> ClusterSelectorTerm list \<Rightarrow> FederatedCluster \<Rightarrow> string + bool" where
  "isClusterMatchedByClusterAffinity env clusterAffinity cluster =
     (if clusterAffinity = [] then Inr True else MatchClusterSelectorTerms (oeExterns env) clusterAffinity cluster)"

definition isClusterMatched :: "overrideEnv \<Rightarrow> TargetClusters option \<Rightarrow> FederatedCluster \<Rightarrow> string + bool" where
  "isClusterMatched env targetClusters cluster =
     (case targetClusters of
        None \<Rightarrow> Inr True
      | Some tc \<Rightarrow>
          if \<not> isClusterMatchedByClusterNames (TCClusters tc) cluster then Inr False
          else case isClusterMatchedByClusterSelector env (TCClusterSelector tc) cluster of
            Inl err \<Rightarrow> Inl err
          | Inr False \<Rightarrow> Inr False
          | Inr True \<Rightarrow>
              (case isClusterMatchedByClusterAffinity env (TCClusterAffinity tc) cluster of
                 Inl err \<Rightarrow> Inl err
               | Inr matched \<Rightarrow> Inr matched))"


section \<open>Model: resolving overrides\<close>

definition defaultOps :: "OverridePatch list \<Rightarrow> OverridePatch list" where
  "defaultOps overrides = map (\<lambda>p. if POp p = [] then p\<lparr>POp := ''replace''\<rparr> else p) overrides"

definition ApplyJSONPatch :: "overrideEnv \<Rightarrow> json \<Rightarrow> OverridePatch list \<Rightarrow> string + json" where
  "ApplyJSONPatch env obj overrides =
     JsonPatchApply env (defaultOps overrides) obj"

definition ignoreFinalizerPatches :: "OverridePatch list \<Rightarrow> OverridePatch list" where
  "ignoreFinalizerPatches p = filter (\<lambda>patch. \<not> hasPrefix (PPath patch) ''/metadata/finalizers'') p"

text \<open>The rules of a policy for one cluster.\<close>

fun parseRules ::
    "overrideEnv \<Rightarrow> SchedObject \<Rightarrow> FederatedCluster \<Rightarrow> OverrideRule list \<Rightarrow> helpers \<Rightarrow> OverridePatch list
     \<Rightarrow> string + helpers \<times> OverridePatch list" where
  "parseRules env fedObject cluster [] helpers patches = Inr (helpers, patches)"
| "parseRules env fedObject cluster (rule # rules) helpers patches =
     (case isClusterMatched env (RuleTargetClusters rule) cluster of
        Inl err \<Rightarrow> Inl (''failed to match cluster '' @ CName cluster @ '': '' @ err)
      | Inr False \<Rightarrow> parseRules env fedObject cluster rules helpers patches
      | Inr True \<Rightarrow>
          (case (case map_of helpers (CName cluster) of Some v \<Rightarrow> Inr v | None \<Rightarrow> getHelpDataFromFedObj env fedObject) of
             Inl err \<Rightarrow> Inl err
           | Inr helper \<Rightarrow>
               (case parsePatchesFromOverriders env helper (RuleOverriders rule) of
                  Inl err \<Rightarrow> Inl (''failed to parse patches: '' @ err)
                | Inr currPatches \<Rightarrow>
                    (case ApplyJSONPatch env (hdSourceObj helper) (ignoreFinalizerPatches currPatches) of
                       Inl err \<Rightarrow> Inl err
                     | Inr sourceObj \<Rightarrow>
                         parseRules env fedObject cluster rules (mput (CName cluster) (helper\<lparr>hdSourceObj := sourceObj\<rparr>) helpers)
                           (patches @ currPatches)))))"

fun parseClusters ::
    "overrideEnv \<Rightarrow> SchedObject \<Rightarrow> OverrideRule list \<Rightarrow> FederatedCluster list \<Rightarrow> helpers \<Rightarrow> overridesMap
     \<Rightarrow> string + helpers \<times> overridesMap" where
  "parseClusters env fedObject rules [] helpers overrides = Inr (helpers, overrides)"
| "parseClusters env fedObject rules (cluster # clusters) helpers overrides =
     (case parseRules env fedObject cluster rules helpers [] of
        Inl err \<Rightarrow> Inl err
      | Inr (helpers', patches) \<Rightarrow>
          parseClusters env fedObject rules clusters helpers'
            (if length patches > 0 then mput (CName cluster) patches overrides else overrides))"

definition parseOverrides ::
    "overrideEnv \<Rightarrow> OverridePolicy \<Rightarrow> FederatedCluster list \<Rightarrow> SchedObject \<Rightarrow> helpers \<Rightarrow> string + helpers \<times> overridesMap" where
  "parseOverrides env policy clusters fedObject helpers =
     parseClusters env fedObject (OverrideRules policy) clusters helpers []"

definition mergeOverrides :: "overridesMap \<Rightarrow> overridesMap \<Rightarrow> overridesMap" where
  "mergeOverrides dest src =
     fold (\<lambda>(clusterName, srcOverrides) d. mput clusterName (mget [] d clusterName @ srcOverrides) d) src dest"

fun resolvePolicies ::
    "overrideEnv \<Rightarrow> FederatedCluster list \<Rightarrow> SchedObject \<Rightarrow> OverridePolicy list \<Rightarrow> helpers \<Rightarrow> overridesMap
     \<Rightarrow> string + helpers \<times> overridesMap" where
  "resolvePolicies env placedClusters fedObject [] helpers overrides = Inr (helpers, overrides)"
| "resolvePolicies env placedClusters fedObject (policy # policies) helpers overrides =
     (case parseOverrides env policy placedClusters fedObject helpers of
        Inl err \<Rightarrow> Inl err
      | Inr (helpers', newOverrides) \<Rightarrow>
          resolvePolicies env placedClusters fedObject policies helpers' (mergeOverrides overrides newOverrides))"

definition setOverrides :: "SchedObject \<Rightarrow> overridesMap \<Rightarrow> SchedObject" where
  "setOverrides federatedObj overrides =
     (let overrides' = filter (\<lambda>(clusterName, clusterOverrides). clusterOverrides \<noteq> []) overrides in
      if overrides' = [] then
        federatedObj\<lparr>Overrides := fst (DeleteControllerOverrides PrefixedControllerName (Overrides federatedObj))\<rparr>
      else
        federatedObj\<lparr>Overrides := fst (SetControllerOverrides PrefixedControllerName
          (map (\<lambda>(clusterName, clusterOverrides). \<lparr>OCluster = clusterName, Patches = clusterOverrides\<rparr>) overrides')
          (Overrides federatedObj))\<rparr>)"

definition convertOverridesListToMap :: "ClusterReferenceWithPatches list \<Rightarrow> overridesMap" where
  "convertOverridesListToMap overridesList = fold (\<lambda>override ret. mput (OCluster override) (Patches override) ret) overridesList []"

definition getPlacedClusters :: "overrideWorld \<Rightarrow> SchedObject \<Rightarrow> string + FederatedCluster list" where
  "getPlacedClusters w fedObject =
     map_sum (\<lambda>err. ''failed to list federated cluster: '' @ err)
       (filter (\<lambda>clusterObj. CName clusterObj \<in> GetPlacementUnion (Placements fedObject))) (owClusters w)"


section \<open>Model: reconciliation\<close>

text \<open>A failed update that is not a conflict is only logged.\<close>

definition afterOverrideUpdate :: "overrideWorld \<Rightarrow> SchedObject \<Rightarrow> Result \<times> SchedObject option" where
  "afterOverrideUpdate w obj =
     ((case owUpdate w obj of UpdateConflict \<Rightarrow> StatusConflict | UpdateFailed \<Rightarrow> StatusAllOK | Updated \<Rightarrow> StatusAllOK), Some obj)"

text \<open>\<open>equality.Semantic.DeepEqual\<close> compares the maps; a \<open>nil\<close> map is empty.\<close>

definition applyOverrides ::
    "overrideWorld \<Rightarrow> FederatedTypeConfig \<Rightarrow> SchedObject \<Rightarrow> overridesMap \<Rightarrow> Result \<times> SchedObject option" where
  "applyOverrides w typeConfig fedObject overrides =
     (let currentOverrides = convertOverridesListToMap (GetControllerOverrides (Overrides fedObject) PrefixedControllerName);
          needsUpdate = (\<not> sameMap overrides currentOverrides);
          obj1 = (if needsUpdate then setOverrides fedObject overrides else fedObject)
      in case UpdatePendingControllers obj1 PrefixedControllerName needsUpdate (GetControllers typeConfig) of
        (_, Inl err) \<Rightarrow> (StatusError, None)
      | (obj2, Inr pendingControllersUpdated) \<Rightarrow>
          if needsUpdate \<or> pendingControllersUpdated then afterOverrideUpdate w obj2 else (StatusAllOK, None))"

definition reconcileOverrides :: "overrideWorld \<Rightarrow> string \<times> string \<Rightarrow> Result \<times> SchedObject option" where
  "reconcileOverrides w qualifiedName =
     (case owFedObject w qualifiedName of
        LookupFailed \<Rightarrow> (StatusError, None)
      | NotFound \<Rightarrow> (StatusAllOK, None)
      | Found fedObject \<Rightarrow>
          if ODeletionTimestamp fedObject \<noteq> None then (StatusAllOK, None)
          else case GetTemplateMetadata (oeK8s (owEnv w)) fedObject of
            Inl err \<Rightarrow> (StatusError, None)
          | Inr templateMetadata \<Rightarrow>
     (case owFTC w (TMGroupVersionKind templateMetadata) of
        None \<Rightarrow> (StatusAllOK, None)
      | Some typeConfig \<Rightarrow>
     (case ControllerDependenciesFulfilled fedObject PrefixedControllerName of
        Inl err \<Rightarrow> (StatusError, None)
      | Inr False \<Rightarrow> (StatusAllOK, None)
      | Inr True \<Rightarrow>
     (case lookForMatchedPolicies w fedObject (MNamespace fedObject \<noteq> []) of
        Inl (recheckOnErr, err) \<Rightarrow> (if recheckOnErr then StatusError else StatusAllOK, None)
      | Inr policies \<Rightarrow>
     (case getPlacedClusters w fedObject of
        Inl err \<Rightarrow> (StatusError, None)
      | Inr placedClusters \<Rightarrow>
     (case resolvePolicies (owEnv w) placedClusters fedObject policies [] [] of
        Inl err \<Rightarrow> (StatusError, None)
      | Inr (_, overrides) \<Rightarrow> applyOverrides w typeConfig fedObject overrides))))))"


section \<open>Model: enqueueing\<close>

definition enqueueFedObjectsUsingPolicy ::
    "externs \<Rightarrow> SchedObject list \<Rightarrow> SchedObject list \<Rightarrow> OverridePolicy \<Rightarrow> string \<Rightarrow> (string \<times> string) list" where
  "enqueueFedObjectsUsingPolicy ext fedObjects clusterFedObjects policy labelKey =
     (let select = filter (\<lambda>obj. SelectorFromSetMatches ext [(labelKey, OvpName policy)] (MLabels obj)) in
      map (\<lambda>obj. ([], MName obj)) (select clusterFedObjects) @
      map keyOf (select (filter (\<lambda>obj. OvpNamespace policy = [] \<or> MNamespace obj = OvpNamespace policy) fedObjects)))"

text \<open>\<open>None\<close> is the dereference of a requirement that the library rejected.\<close>

definition reconcileOnClusterChange ::
    "externs \<Rightarrow> SchedObject list \<Rightarrow> SchedObject list \<Rightarrow> (string \<times> string) list option" where
  "reconcileOnClusterChange ext fedObjects clusterFedObjects =
     (case (NewRequirement ext OverridePolicyNameLabel OpExists [], NewRequirement ext ClusterOverridePolicyNameLabel OpExists []) of
        (Inr op, Inr cop) \<Rightarrow>
          Some (map keyOf (filter (\<lambda>obj. op (MLabels obj)) fedObjects) @ map keyOf (filter (\<lambda>obj. cop (MLabels obj)) fedObjects) @
            map (\<lambda>obj. ([], MName obj)) (filter (\<lambda>obj. cop (MLabels obj)) clusterFedObjects))
      | _ \<Rightarrow> None)"


section \<open>Statement vocabulary\<close>

text \<open>A JSON patch applies its operations one after the other (RFC 6902).\<close>

definition patches_compose :: "overrideEnv \<Rightarrow> bool" where
  "patches_compose env \<longleftrightarrow> (\<forall>a b j. JsonPatchApply env (a @ b) j =
     (case JsonPatchApply env a j of Inl err \<Rightarrow> Inl err | Inr j' \<Rightarrow> JsonPatchApply env b j'))"

text \<open>
  The object kept for a cluster is the template with the patches of that cluster, without those on
  finalizers; there is none for a cluster without patches that no rule matched.
\<close>

definition resolvedFor :: "overrideEnv \<Rightarrow> json \<Rightarrow> helpers \<Rightarrow> string \<Rightarrow> OverridePatch list \<Rightarrow> bool" where
  "resolvedFor env template helpers c patches \<longleftrightarrow>
     (case map_of helpers c of
        None \<Rightarrow> patches = []
      | Some h \<Rightarrow> ApplyJSONPatch env template (ignoreFinalizerPatches patches) = Inr (hdSourceObj h))"

definition sampleRule :: OverrideRule where
  "sampleRule = \<lparr>RuleTargetClusters = Some \<lparr>TCClusters = [''A''], TCClusterSelector = [], TCClusterAffinity = []\<rparr>,
     RuleOverriders = Some \<lparr>OvImage = [\<lparr>ContainerNames = [], ImagePath = [],
         Operations = [\<lparr>ImageComponent = ''Tag'', Operator = [], OpValue = ''v2''\<rparr>]\<rparr>],
       OvCommand = [], OvArgs = [], OvAnnotations = [], OvLabels = [], OvEnvs = [], OvJsonPatch = []\<rparr>\<rparr>"

definition samplePolicy :: OverridePolicy where
  "samplePolicy = \<lparr>OvpName = ''o'', OvpNamespace = ''ns'', OverrideRules = [sampleRule]\<rparr>"

definition overriddenSample :: SchedObject where
  "overriddenSample = schedSample\<lparr>MLabels := [(OverridePolicyNameLabel, ''o'')],
     MAnnotations := [(PendingControllersAnnotation, encodeControllers [[PrefixedControllerName], [''sync'']])],
     Placements := [\<lparr>PlController = PrefixedGlobalSchedulerName, Placement = [''A'']\<rparr>]\<rparr>"

definition sampleOverrideWorld :: overrideWorld where
  "sampleOverrideWorld = \<lparr>owEnv = sampleOverrideEnv, owFedObject = (\<lambda>_. Found overriddenSample),
     owFTC = (\<lambda>_. Some (ftcSample\<lparr>FTCControllers := [[PrefixedControllerName], [''sync'']]\<rparr>)),
     owClusters = Inr [joinedCluster ''A''], owOverridePolicies = (\<lambda>_ _. Found samplePolicy),
     owClusterOverridePolicies = (\<lambda>_. NotFound), owUpdate = (\<lambda>_. Updated)\<rparr>"


section \<open>Resolution in order\<close>

lemma ApplyJSONPatch_append:
  "patches_compose env \<Longrightarrow> ApplyJSONPatch env obj (a @ b) =
     (case ApplyJSONPatch env obj a of Inl err \<Rightarrow> Inl err | Inr obj' \<Rightarrow> ApplyJSONPatch env obj' b)"
  by (simp add: ApplyJSONPatch_def defaultOps_def patches_compose_def split: sum.splits)

lemma ignoreFinalizerPatches_append: "ignoreFinalizerPatches (a @ b) = ignoreFinalizerPatches a @ ignoreFinalizerPatches b"
  by (simp add: ignoreFinalizerPatches_def)

lemma resolvedFor_other: "c' \<noteq> c \<Longrightarrow> resolvedFor env t (mput c h helpers) c' p = resolvedFor env t helpers c' p"
  by (simp add: resolvedFor_def map_of_mput)

lemma getHelpData_template:
  "GetTemplateAsUnstructured (oeK8s env) obj = Inr t \<Longrightarrow> getHelpDataFromFedObj env obj = Inr h \<Longrightarrow> hdSourceObj h = t"
  by (auto simp: getHelpDataFromFedObj_def split: sum.splits)

lemma parseRules_resolved:
  assumes "patches_compose env" "GetTemplateAsUnstructured (oeK8s env) obj = Inr t"
    and "resolvedFor env t helpers (CName cluster) base"
    and "parseRules env obj cluster rules helpers patches = Inr (helpers', patches')"
  shows "\<exists>new. patches' = patches @ new \<and> resolvedFor env t helpers' (CName cluster) (base @ new) \<and>
     (\<forall>c. c = CName cluster \<or> map_of helpers' c = map_of helpers c)"
  using assms(3,4)
proof (induction rules arbitrary: helpers patches base)
  case (Cons rule rules)
  let ?n = "CName cluster"
  show ?case
  proof (cases "isClusterMatched env (RuleTargetClusters rule) cluster = Inr True")
    case False
    then have "parseRules env obj cluster rules helpers patches = Inr (helpers', patches')"
      using Cons.prems(2) by (auto split: sum.splits bool.splits)
    from Cons.IH [OF Cons.prems(1) this] show ?thesis .
  next
    case True
    let ?found = "case map_of helpers ?n of Some v \<Rightarrow> Inr v | None \<Rightarrow> getHelpDataFromFedObj env obj"
    obtain helper curr src where h: "?found = Inr helper"
        "parsePatchesFromOverriders env helper (RuleOverriders rule) = Inr curr"
        "ApplyJSONPatch env (hdSourceObj helper) (ignoreFinalizerPatches curr) = Inr src"
        "parseRules env obj cluster rules (mput ?n (helper\<lparr>hdSourceObj := src\<rparr>) helpers) (patches @ curr) = Inr (helpers', patches')"
      using Cons.prems(2) True by (auto split: sum.splits)
    have "ApplyJSONPatch env t (ignoreFinalizerPatches (base @ curr)) = Inr src"
    proof (cases "map_of helpers ?n")
      case None
      then show ?thesis using h Cons.prems(1) getHelpData_template [OF assms(2)] by (auto simp: resolvedFor_def)
    next
      case (Some v)
      then show ?thesis using h Cons.prems(1) by (auto simp: resolvedFor_def ignoreFinalizerPatches_append ApplyJSONPatch_append [OF assms(1)])
    qed
    then have "resolvedFor env t (mput ?n (helper\<lparr>hdSourceObj := src\<rparr>) helpers) ?n (base @ curr)"
      by (simp add: resolvedFor_def map_of_mput)
    from Cons.IH [OF this h(4)] obtain new where new: "patches' = (patches @ curr) @ new"
        "resolvedFor env t helpers' ?n ((base @ curr) @ new)"
        "\<forall>c. c = ?n \<or> map_of helpers' c = map_of (mput ?n (helper\<lparr>hdSourceObj := src\<rparr>) helpers) c"
      by blast
    have "\<forall>c. c = ?n \<or> map_of helpers' c = map_of helpers c" using new(3) by (metis map_of_mput)
    with new(1,2) show ?thesis by (intro exI [of _ "curr @ new"]) simp
  qed
qed auto

lemma parseClusters_resolved:
  assumes "patches_compose env" "GetTemplateAsUnstructured (oeK8s env) obj = Inr t"
    and "distinct (map CName clusters)" "\<forall>c \<in> CName ` set clusters. map_of overrides c = None" "wf_map overrides"
    and "\<And>c. resolvedFor env t helpers c (mget [] base c @ mget [] overrides c)"
    and "parseClusters env obj rules clusters helpers overrides = Inr (helpers', overrides')"
  shows "(\<forall>c. resolvedFor env t helpers' c (mget [] base c @ mget [] overrides' c)) \<and> wf_map overrides' \<and>
     set (mkeys overrides') \<subseteq> set (mkeys overrides) \<union> CName ` set clusters"
  using assms(3-)
proof (induction clusters arbitrary: helpers overrides)
  case (Cons cluster clusters)
  let ?n = "CName cluster"
  obtain h1 patches where r: "parseRules env obj cluster rules helpers [] = Inr (h1, patches)"
      "parseClusters env obj rules clusters h1 (if length patches > 0 then mput ?n patches overrides else overrides) = Inr (helpers', overrides')"
    using Cons.prems(5) by (auto split: sum.splits)
  let ?ov = "if length patches > 0 then mput ?n patches overrides else overrides"
  have none: "mget [] overrides ?n = []" using Cons.prems(2) by (simp add: mget_def)
  obtain new where new: "patches = new" "resolvedFor env t h1 ?n (mget [] base ?n @ new)"
      "\<forall>c. c = ?n \<or> map_of h1 c = map_of helpers c"
    using parseRules_resolved [OF assms(1,2) _ r(1), of "mget [] base ?n"] Cons.prems(4) [of ?n] none by auto
  have inv: "resolvedFor env t h1 c (mget [] base c @ mget [] ?ov c)" for c
  proof (cases "c = ?n")
    case True
    then show ?thesis using new(1,2) none by (auto simp: mget_mput)
  next
    case False
    then have "mget [] ?ov c = mget [] overrides c" "map_of h1 c = map_of helpers c" using new(3) by (auto simp: mget_mput)
    then show ?thesis using Cons.prems(4) [of c] unfolding resolvedFor_def by presburger
  qed
  have n: "map_of overrides ?n = None" using Cons.prems(2) by simp
  have "distinct (map CName clusters)" "\<forall>c \<in> CName ` set clusters. map_of ?ov c = None" "wf_map ?ov"
    using Cons.prems(1-3) by (auto simp: map_of_mput image_iff)
  from Cons.IH [OF this inv r(2)] show ?case by (auto simp: set_mkeys_mput split: if_split_asm)
qed auto

lemma mget_mergeOverrides:
  "wf_map src \<Longrightarrow> mget [] (mergeOverrides dest src) c = mget [] dest c @ mget [] src c"
proof (induction src arbitrary: dest)
  case (Cons p src)
  obtain k v where p: "p = (k, v)" by fastforce
  have wf: "wf_map src" "k \<notin> set (mkeys src)" using Cons.prems p by (simp_all add: wf_map_def mkeys_def)
  have "mergeOverrides dest (p # src) = mergeOverrides (mput k (mget [] dest k @ v) dest) src" by (simp add: mergeOverrides_def p)
  then show ?case using Cons.IH [OF wf(1)] wf(2) p by (auto simp: mget_mput mget_notin) (simp_all add: mget_def)
qed (simp add: mergeOverrides_def)

lemma mergeOverrides_keys:
  "set (mkeys (mergeOverrides dest src)) = set (mkeys dest) \<union> set (mkeys src)"
  "wf_map dest \<Longrightarrow> wf_map (mergeOverrides dest src)"
  by (induction src arbitrary: dest) (auto simp: mergeOverrides_def set_mkeys_mput)

lemma mergeOverrides_nonempty:
  "(\<And>c. map_of dest c \<noteq> Some []) \<Longrightarrow> (\<And>c. (c, []) \<notin> set src) \<Longrightarrow> map_of (mergeOverrides dest src) c \<noteq> Some []"
proof (induction src arbitrary: dest)
  case (Cons p src)
  obtain k v where p: "p = (k, v)" by fastforce
  have "v \<noteq> []" using Cons.prems(2) [of k] p by auto
  then have "map_of (mput k (mget [] dest k @ v) dest) c \<noteq> Some []" for c using Cons.prems(1) by (auto simp: map_of_mput)
  moreover have "mergeOverrides dest (p # src) = mergeOverrides (mput k (mget [] dest k @ v) dest) src" by (simp add: mergeOverrides_def p)
  ultimately show ?case using Cons.IH Cons.prems(2) by simp
qed (simp add: mergeOverrides_def)

lemma resolvePolicies_resolved:
  assumes "patches_compose env" "GetTemplateAsUnstructured (oeK8s env) obj = Inr t" "distinct (map CName clusters)"
    and "\<And>c. resolvedFor env t helpers c (mget [] overrides c)"
    and "resolvePolicies env clusters obj policies helpers overrides = Inr (helpers', overrides')"
  shows "resolvedFor env t helpers' c (mget [] overrides' c)"
  using assms(4,5)
proof (induction policies arbitrary: helpers overrides)
  case (Cons policy policies)
  obtain h1 new where r: "parseClusters env obj (OverrideRules policy) clusters helpers [] = Inr (h1, new)"
      "resolvePolicies env clusters obj policies h1 (mergeOverrides overrides new) = Inr (helpers', overrides')"
    using Cons.prems(2) by (auto simp: parseOverrides_def split: sum.splits)
  have "wf_map new" "\<And>c. resolvedFor env t h1 c (mget [] overrides c @ mget [] new c)"
    using parseClusters_resolved [OF assms(1-3) _ _ _ r(1), of overrides] Cons.prems(1) by auto
  then show ?case using Cons.IH [OF _ r(2)] by (simp add: mget_mergeOverrides)
qed simp


section \<open>What is written\<close>

lemma sameMap_iff: "sameMap a b \<longleftrightarrow> map_of a = map_of b"
proof
  assume e: "sameMap a b"
  show "map_of a = map_of b"
  proof
    fix k
    show "map_of a k = map_of b k"
    proof (cases "k \<in> set (mkeys a @ mkeys b)")
      case False
      then show ?thesis by (metis UnCI map_of_in_mkeys not_Some_eq set_append)
    qed (use e in \<open>auto simp: sameMap_def list_all_iff\<close>)
  qed
qed (simp add: sameMap_def list_all_iff)

lemma mset_map_of:
  assumes "wf_map a" "mset a = mset b"
  shows "map_of a = map_of b"
proof
  fix k
  have "wf_map b" using assms unfolding wf_map_def mkeys_def by (metis mset_eq_imp_distinct_iff mset_map)
  then have "map_of a k = Some v \<longleftrightarrow> map_of b k = Some v" for v
    using assms(1) mset_eq_setD [OF assms(2)] by (simp add: wf_map_def mkeys_def)
  then show "map_of a k = map_of b k" by (metis option.exhaust)
qed

lemma map_of_convert:
  "distinct (map OCluster xs) \<Longrightarrow> map_of (fold (\<lambda>override ret. mput (OCluster override) (Patches override) ret) xs m) c =
     (case map_of (map (\<lambda>r. (OCluster r, Patches r)) xs) c of None \<Rightarrow> map_of m c | Some p \<Rightarrow> Some p)"
proof (induction xs arbitrary: m)
  case (Cons x xs)
  then have "OCluster x \<notin> set (map OCluster xs)" by simp
  then have "map_of (map (\<lambda>r. (OCluster r, Patches r)) xs) (OCluster x) = None" by (auto simp: map_of_eq_None_iff)
  then show ?case using Cons by (auto simp: map_of_mput split: option.splits)
qed simp

lemma convertOverrides_sorted:
  assumes "wf_map m"
  shows "map_of (convertOverridesListToMap (sort_key OCluster (map (\<lambda>(c, p). \<lparr>OCluster = c, Patches = p\<rparr>) m))) = map_of m"
proof -
  let ?l = "map (\<lambda>(c, p). \<lparr>OCluster = c, Patches = p\<rparr>) m"
  let ?pair = "\<lambda>r. (OCluster r, Patches r)"
  have l: "map ?pair ?l = m" by (simp add: comp_def case_prod_beta)
  have ms: "mset (map ?pair (sort_key OCluster ?l)) = mset m"
    unfolding mset_map [of ?pair] mset_sort unfolding mset_map [of ?pair, symmetric] l ..
  have "mset (map fst (map ?pair (sort_key OCluster ?l))) = mset (map fst m)"
    unfolding mset_map [of fst] ms ..
  from mset_eq_imp_distinct_iff [OF this]
  have d: "distinct (map fst (map ?pair (sort_key OCluster ?l)))" using assms by (simp add: wf_map_def mkeys_def)
  have "map fst (map ?pair (sort_key OCluster ?l)) = map OCluster (sort_key OCluster ?l)" by simp
  then have "distinct (map OCluster (sort_key OCluster ?l))"
    using d by (simp only:)
  from map_of_convert [OF this, of "[]"]
  have "map_of (convertOverridesListToMap (sort_key OCluster ?l)) = map_of (map ?pair (sort_key OCluster ?l))"
    by (auto simp: convertOverridesListToMap_def split: option.splits)
  also have "\<dots> = map_of m" using mset_map_of [OF assms ms [symmetric]] by simp
  finally show ?thesis .
qed

lemma setOverrides_sections:
  assumes "sections_ok obj" "wf_map overrides" "\<And>c. map_of overrides c \<noteq> Some []"
  shows "map_of (convertOverridesListToMap (GetControllerOverrides (Overrides (setOverrides obj overrides)) PrefixedControllerName)) =
       map_of overrides"
    and "c \<noteq> PrefixedControllerName \<Longrightarrow> GetControllerOverrides (Overrides (setOverrides obj overrides)) c = GetControllerOverrides (Overrides obj) c"
    and "setOverrides obj overrides = obj\<lparr>Overrides := Overrides (setOverrides obj overrides)\<rparr>"
proof -
  let ?l = "map (\<lambda>(c, p). \<lparr>OCluster = c, Patches = p\<rparr>) overrides"
  have "(c, []) \<notin> set overrides" for c using assms(2,3) by (metis map_of_eq_Some_iff mkeys_def wf_map_def)
  then have f: "filter (\<lambda>(c, p). p \<noteq> []) overrides = overrides" by (auto simp: filter_id_conv)
  have s: "setOverrides obj overrides = obj\<lparr>Overrides := fst (SetControllerOverrides PrefixedControllerName ?l (Overrides obj))\<rparr>"
    by (simp add: setOverrides_def Let_def f SetControllerOverrides_def)
  have d: "distinct (map OvController (Overrides obj))" using assms(1) by (simp add: sections_ok_def)
  show "map_of (convertOverridesListToMap (GetControllerOverrides (Overrides (setOverrides obj overrides)) PrefixedControllerName)) =
       map_of overrides"
    using convertOverrides_sorted [OF assms(2)] by (simp add: s OverrideSection.get_put [OF d])
  show "c \<noteq> PrefixedControllerName \<Longrightarrow> GetControllerOverrides (Overrides (setOverrides obj overrides)) c = GetControllerOverrides (Overrides obj) c"
    by (simp add: s OverrideSection.get_put_other)
  show "setOverrides obj overrides = obj\<lparr>Overrides := Overrides (setOverrides obj overrides)\<rparr>" by (simp add: s)
qed

lemma parseClusters_wf:
  "parseClusters env obj rules clusters helpers overrides = Inr (helpers', overrides') \<Longrightarrow> wf_map overrides \<Longrightarrow>
     (\<And>c. (c, []) \<notin> set overrides) \<Longrightarrow> wf_map overrides' \<and> (\<forall>c. (c, []) \<notin> set overrides')"
proof (induction clusters arbitrary: helpers overrides)
  case (Cons cluster clusters)
  obtain h1 patches where r: "parseClusters env obj rules clusters h1
      (if length patches > 0 then mput (CName cluster) patches overrides else overrides) = Inr (helpers', overrides')"
    using Cons.prems(1) by (auto split: sum.splits)
  have "(c, []) \<notin> set (mput (CName cluster) patches overrides)" if "patches \<noteq> []" for c
    using that Cons.prems(2,3) wf_map_mput [OF Cons.prems(2)]
    by (metis (no_types, lifting) map_of_eq_Some_iff map_of_mput mkeys_def option.inject wf_map_def)
  then show ?case using Cons.IH [OF r] Cons.prems(2,3) by auto
qed auto

lemma resolvePolicies_wf:
  "resolvePolicies env clusters obj policies helpers overrides = Inr (helpers', overrides') \<Longrightarrow> wf_map overrides \<Longrightarrow>
     (\<And>c. map_of overrides c \<noteq> Some []) \<Longrightarrow> wf_map overrides' \<and> (\<forall>c. map_of overrides' c \<noteq> Some [])"
proof (induction policies arbitrary: helpers overrides)
  case (Cons policy policies)
  obtain h1 new where r: "parseClusters env obj (OverrideRules policy) clusters helpers [] = Inr (h1, new)"
      "resolvePolicies env clusters obj policies h1 (mergeOverrides overrides new) = Inr (helpers', overrides')"
    using Cons.prems(1) by (auto simp: parseOverrides_def split: sum.splits)
  then have "\<And>c. map_of (mergeOverrides overrides new) c \<noteq> Some []"
    using mergeOverrides_nonempty [OF Cons.prems(3)] parseClusters_wf [OF r(1)] by simp
  then show ?case using Cons.IH [OF r(2)] mergeOverrides_keys(2) [OF Cons.prems(2)] by blast
qed simp

lemma resolvePolicies_cong:
  assumes "FTemplate x = FTemplate obj"
  shows "resolvePolicies env clusters x policies helpers overrides = resolvePolicies env clusters obj policies helpers overrides"
proof -
  have h: "getHelpDataFromFedObj env x = getHelpDataFromFedObj env obj"
    unfolding getHelpDataFromFedObj_def getGVKFromFederatedObject_def template_cong(1) [OF assms] ..
  have rl: "parseRules env x cluster rules helpers patches = parseRules env obj cluster rules helpers patches" for cluster rules helpers patches
    by (induction rules arbitrary: helpers patches) (simp_all only: parseRules.simps h)
  have "parseClusters env x rules clusters helpers overrides = parseClusters env obj rules clusters helpers overrides" for rules helpers overrides
    by (induction clusters arbitrary: helpers overrides) (simp_all only: parseClusters.simps rl)
  then show ?thesis by (induction policies arbitrary: helpers overrides) (simp_all only: resolvePolicies.simps parseOverrides_def)
qed

text \<open>What a reconciliation that writes an object has computed before.\<close>

lemma reconcileOverrides_written:
  assumes "reconcileOverrides w key = (st, Some obj')" "owFedObject w key = Found obj"
  shows "\<exists>meta ftc policies clusters helpers overrides. ODeletionTimestamp obj = None \<and>
     GetTemplateMetadata (oeK8s (owEnv w)) obj = Inr meta \<and> owFTC w (TMGroupVersionKind meta) = Some ftc \<and>
     ControllerDependenciesFulfilled obj PrefixedControllerName = Inr True \<and>
     lookForMatchedPolicies w obj (MNamespace obj \<noteq> []) = Inr policies \<and> getPlacedClusters w obj = Inr clusters \<and>
     resolvePolicies (owEnv w) clusters obj policies [] [] = Inr (helpers, overrides) \<and>
     applyOverrides w ftc obj overrides = (st, Some obj')"
proof -
  obtain meta where 1: "ODeletionTimestamp obj = None" "GetTemplateMetadata (oeK8s (owEnv w)) obj = Inr meta"
    using assms by (auto simp: reconcileOverrides_def split: if_splits sum.splits)
  obtain ftc where 2: "owFTC w (TMGroupVersionKind meta) = Some ftc"
    using assms 1 by (auto simp: reconcileOverrides_def split: option.splits)
  have 3: "ControllerDependenciesFulfilled obj PrefixedControllerName = Inr True"
    using assms 1 2 by (auto simp: reconcileOverrides_def split: sum.splits bool.splits)
  obtain policies where 4: "lookForMatchedPolicies w obj (MNamespace obj \<noteq> []) = Inr policies"
    using assms 1 2 3 by (auto simp: reconcileOverrides_def split: sum.splits)
  obtain clusters where 5: "getPlacedClusters w obj = Inr clusters"
    using assms 1 2 3 4 by (auto simp: reconcileOverrides_def split: sum.splits)
  obtain helpers overrides where 6: "resolvePolicies (owEnv w) clusters obj policies [] [] = Inr (helpers, overrides)"
    using assms 1 2 3 4 5 by (auto simp: reconcileOverrides_def split: sum.splits)
  have "applyOverrides w ftc obj overrides = (st, Some obj')"
    using assms 1 2 3 4 5 6 by (simp add: reconcileOverrides_def)
  with 1 2 3 4 5 6 show ?thesis by blast
qed

lemma applyOverrides_written:
  assumes "applyOverrides w ftc obj overrides = (st, Some obj')" "sections_ok obj" "wf_map overrides" "\<And>c. map_of overrides c \<noteq> Some []"
  shows "map_of (convertOverridesListToMap (GetControllerOverrides (Overrides obj') PrefixedControllerName)) = map_of overrides"
    and "c \<noteq> PrefixedControllerName \<Longrightarrow> GetControllerOverrides (Overrides obj') c = GetControllerOverrides (Overrides obj) c"
    and "\<exists>b r obj1. UpdatePendingControllers obj1 PrefixedControllerName b (GetControllers ftc) = (obj', Inr r) \<and>
      obj1 = obj\<lparr>Overrides := Overrides obj1\<rparr>"
proof -
  let ?cur = "convertOverridesListToMap (GetControllerOverrides (Overrides obj) PrefixedControllerName)"
  let ?need = "\<not> sameMap overrides ?cur"
  define obj1 where "obj1 = (if ?need then setOverrides obj overrides else obj)"
  obtain r where u: "UpdatePendingControllers obj1 PrefixedControllerName ?need (GetControllers ftc) = (obj', Inr r)"
    using assms(1) unfolding applyOverrides_def Let_def obj1_def [symmetric]
    by (auto simp: afterOverrideUpdate_def split: prod.splits sum.splits if_split_asm)
  note set = setOverrides_sections [OF assms(2-4)]
  have o: "Overrides obj' = Overrides obj1" using UpdatePendingControllers_annotations [OF u] by auto
  have obj1: "obj1 = obj\<lparr>Overrides := Overrides obj1\<rparr>" using set(3) by (simp add: obj1_def)
  show "map_of (convertOverridesListToMap (GetControllerOverrides (Overrides obj') PrefixedControllerName)) = map_of overrides"
    using set(1) by (simp add: o obj1_def sameMap_iff)
  show "c \<noteq> PrefixedControllerName \<Longrightarrow> GetControllerOverrides (Overrides obj') c = GetControllerOverrides (Overrides obj) c"
    using set(2) by (simp add: o obj1_def)
  show "\<exists>b r obj1. UpdatePendingControllers obj1 PrefixedControllerName b (GetControllers ftc) = (obj', Inr r) \<and>
      obj1 = obj\<lparr>Overrides := Overrides obj1\<rparr>" using u obj1 by blast
qed

lemma applyOverrides_quiet:
  assumes "map_of (MAnnotations x) PendingControllersAnnotation = Some (encodeControllers [])"
    and "map_of (convertOverridesListToMap (GetControllerOverrides (Overrides x) PrefixedControllerName)) = map_of overrides"
  shows "applyOverrides w ftc x overrides = (StatusAllOK, None)"
  using assms(2) by (simp add: applyOverrides_def Let_def sameMap_iff pending_empty [OF assms(1)])

text \<open>An object as the controller leaves it is left alone by the next reconciliation.\<close>

lemma reconcileOverrides_rests:
  fixes w key obj' g
  defines "x \<equiv> obj'\<lparr>OGeneration := g\<rparr>"
  defines "w' \<equiv> w\<lparr>owFedObject := (owFedObject w)(key := Found x)\<rparr>"
  assumes p: "ODeletionTimestamp obj = None" "GetTemplateMetadata (oeK8s (owEnv w)) obj = Inr meta"
      "owFTC w (TMGroupVersionKind meta) = Some ftc" "ControllerDependenciesFulfilled obj PrefixedControllerName = Inr True"
      "lookForMatchedPolicies w obj (MNamespace obj \<noteq> []) = Inr policies" "getPlacedClusters w obj = Inr clusters"
      "resolvePolicies (owEnv w) clusters obj policies [] [] = Inr (helpers, overrides)"
    and written: "map_of (convertOverridesListToMap (GetControllerOverrides (Overrides obj') PrefixedControllerName)) = map_of overrides"
    and u: "UpdatePendingControllers obj1 PrefixedControllerName b (GetControllers ftc) = (obj', Inr r)"
    and obj1: "obj1 = obj\<lparr>Overrides := Overrides obj1\<rparr>" and pipeline: "pipeline_ok obj ftc"
  shows "reconcileOverrides w' key = (StatusAllOK, None)"
proof -
  have ann: "MAnnotations obj1 = MAnnotations obj" by (subst obj1) simp
  have ok: "ControllerDependenciesFulfilled obj1 PrefixedControllerName = Inr True" "pipeline_ok obj1 ftc"
    using p(4) pipeline pipeline_ok_cong [of obj1 obj] ann by simp_all
  have same: "MLabels x = MLabels obj" "MNamespace x = MNamespace obj" "FTemplate x = FTemplate obj"
      "Placements x = Placements obj" "ODeletionTimestamp x = ODeletionTimestamp obj"
    using UpdatePendingControllers_annotations [OF u] unfolding x_def by (auto, (subst obj1, simp)+)
  have fin: "ControllerDependenciesFulfilled x PrefixedControllerName = Inr False \<or>
      ControllerDependenciesFulfilled x PrefixedControllerName = Inr True \<and>
        map_of (MAnnotations x) PendingControllersAnnotation = Some (encodeControllers [])"
    using pending_done [OF u ok] pipeline_ok_cong(2) [of x obj'] by (simp add: x_def)
  have eqs: "owOverridePolicies w' = owOverridePolicies w" "owClusterOverridePolicies w' = owClusterOverridePolicies w" by (simp_all add: w'_def)
  have look: "lookForMatchedPolicies w' x n = lookForMatchedPolicies w obj n" for n
    unfolding lookForMatchedPolicies_def same eqs ..
  have placed: "getPlacedClusters w' x = getPlacedClusters w obj"
    unfolding getPlacedClusters_def same by (simp add: w'_def)
  have quiet: "applyOverrides w' ftc x overrides = (StatusAllOK, None)"
    if "map_of (MAnnotations x) PendingControllersAnnotation = Some (encodeControllers [])"
    using applyOverrides_quiet [OF that] written by (simp add: x_def)
  show ?thesis
    using fin
  proof
    assume "ControllerDependenciesFulfilled x PrefixedControllerName = Inr False"
    then show ?thesis using p(1-3) same template_cong(2) [of x obj] by (simp add: reconcileOverrides_def w'_def)
  next
    assume "ControllerDependenciesFulfilled x PrefixedControllerName = Inr True \<and>
        map_of (MAnnotations x) PendingControllersAnnotation = Some (encodeControllers [])"
    then show ?thesis
      using p same template_cong(2) [of x obj] resolvePolicies_cong [of x obj] quiet look placed
      by (simp add: reconcileOverrides_def w'_def)
  qed
qed


section \<open>Properties\<close>



text \<open>
  C33.  The override controller writes exactly the resolved overrides and then rests: read back, its
  section holds them, every other controller keeps its overrides, and reconciling the stored object
  again, with whatever new generation, writes nothing.  No controller may own two sections, be configured
  or be pending twice.
\<close>

theorem override_controller_converges:
  assumes "owFedObject w key = Found obj" "reconcileOverrides w key = (st, Some obj')" "sections_ok obj"
    and "\<forall>gvk ftc. owFTC w gvk = Some ftc \<longrightarrow> pipeline_ok obj ftc"
  shows "(\<exists>policies clusters helpers overrides. lookForMatchedPolicies w obj (MNamespace obj \<noteq> []) = Inr policies \<and>
       getPlacedClusters w obj = Inr clusters \<and> resolvePolicies (owEnv w) clusters obj policies [] [] = Inr (helpers, overrides) \<and>
       map_of (convertOverridesListToMap (GetControllerOverrides (Overrides obj') PrefixedControllerName)) = map_of overrides) \<and>
     (\<forall>c. c = PrefixedControllerName \<or> GetControllerOverrides (Overrides obj') c = GetControllerOverrides (Overrides obj) c) \<and>
     reconcileOverrides (w\<lparr>owFedObject := (owFedObject w)(key := Found (obj'\<lparr>OGeneration := g\<rparr>))\<rparr>) key = (StatusAllOK, None)"
proof -
  obtain meta ftc policies clusters helpers overrides where p: "ODeletionTimestamp obj = None"
      "GetTemplateMetadata (oeK8s (owEnv w)) obj = Inr meta" "owFTC w (TMGroupVersionKind meta) = Some ftc"
      "ControllerDependenciesFulfilled obj PrefixedControllerName = Inr True"
      "lookForMatchedPolicies w obj (MNamespace obj \<noteq> []) = Inr policies" "getPlacedClusters w obj = Inr clusters"
      and res: "resolvePolicies (owEnv w) clusters obj policies [] [] = Inr (helpers, overrides)"
      "applyOverrides w ftc obj overrides = (st, Some obj')"
    using reconcileOverrides_written [OF assms(2,1)] by blast
  have wf: "wf_map overrides" "\<And>c. map_of overrides c \<noteq> Some []" using resolvePolicies_wf [OF res(1)] by simp_all
  note wr = applyOverrides_written [OF res(2) assms(3) wf]
  obtain b r obj1 where u: "UpdatePendingControllers obj1 PrefixedControllerName b (GetControllers ftc) = (obj', Inr r)"
      and obj1: "obj1 = obj\<lparr>Overrides := Overrides obj1\<rparr>" using wr(3) by blast
  have pipeline: "pipeline_ok obj ftc" using p(3) assms(4) by blast
  from reconcileOverrides_rests [OF p res(1) wr(1) u obj1 pipeline, of key g] show ?thesis using wr p(5,6) res(1) by blast
qed

theorem override_controller_converges_witness:
  "\<exists>obj'. reconcileOverrides sampleOverrideWorld (''ns'', ''web'') = (StatusAllOK, Some obj') \<and>
     reconcileOverrides (sampleOverrideWorld\<lparr>owFedObject := (owFedObject sampleOverrideWorld)((''ns'', ''web'') := Found (obj'\<lparr>OGeneration := 2\<rparr>))\<rparr>)
       (''ns'', ''web'') = (StatusAllOK, None)"
proof -
  have f: "owFedObject sampleOverrideWorld (''ns'', ''web'') = Found overriddenSample" by (simp add: sampleOverrideWorld_def)
  have s: "sections_ok overriddenSample" by code_simp
  have "pipeline_ok overriddenSample (ftcSample\<lparr>FTCControllers := [[PrefixedControllerName], [''sync'']]\<rparr>)" by code_simp
  then have p: "\<forall>gvk ftc. owFTC sampleOverrideWorld gvk = Some ftc \<longrightarrow> pipeline_ok overriddenSample ftc"
    by (simp add: sampleOverrideWorld_def)
  have "case reconcileOverrides sampleOverrideWorld (''ns'', ''web'') of (st, x) \<Rightarrow> st = StatusAllOK \<and> x \<noteq> None" by code_simp
  then obtain obj' where r: "reconcileOverrides sampleOverrideWorld (''ns'', ''web'') = (StatusAllOK, Some obj')"
    by (auto split: prod.splits)
  from override_controller_converges [OF f r s p] r show ?thesis by blast
qed

end
