(* ===== verification/Sync_Dispatch.thy ===== *)
theory Sync_Dispatch
  imports Sync_Status Sync_Retain Override_Controller
begin

text \<open>
  The federated resource and the operations that the sync controller dispatches to member clusters,
  \<open>pkg/controllers/sync/{resource,overrides,placement,util}.go\<close> and \<open>pkg/controllers/sync/dispatch\<close>.

  An operation runs in a goroutine of its own and touches only the entries of its cluster; it is a
  function from the answers of the member cluster to its outcome: the status and the version it
  records, whether it succeeded and the requests it sent.  \<open>None\<close> is a panic.  Events and metrics are
  left out.
\<close>


section \<open>Model: the federated resource\<close>

record SyncObject = SchedObject +
  OStatus :: GenericFederatedObjectStatus
  OUID :: string

text \<open>Libraries: apimachinery's JSON, its patches, the MD5 digest and regular expressions.\<close>

record syncEnv =
  seOps :: unstructuredOps
  MarshalTemplate :: "MemberObject \<Rightarrow> string + string"
  MarshalOverrides :: "OverrideWithController list \<Rightarrow> string + string"
  HexMD5 :: "string \<Rightarrow> string"
  PatchObject :: "OverridePatch list \<Rightarrow> MemberObject \<Rightarrow> string + MemberObject"
  CompileRegexp :: "string \<Rightarrow> string + (string \<Rightarrow> bool)"

record federatedResource =
  frTypeConfig :: FederatedTypeConfig
  frFederatedName :: "string \<times> string"
  frTargetName :: "string \<times> string"
  frObject :: SyncObject
  frTemplate :: MemberObject

definition TargetGVK :: "federatedResource \<Rightarrow> gvk" where
  "TargetGVK r = GetSourceTypeGVK (frTypeConfig r)"

definition TemplateVersionOf :: "syncEnv \<Rightarrow> federatedResource \<Rightarrow> string + string" where
  "TemplateVersionOf env r = map_sum (\<lambda>err. ''failed to hash template: '' @ err) (HexMD5 env) (MarshalTemplate env (frTemplate r))"

definition OverrideVersionOf :: "syncEnv \<Rightarrow> federatedResource \<Rightarrow> string + string" where
  "OverrideVersionOf env r =
     map_sum (\<lambda>err. ''failed to hash overrides: '' @ err) (HexMD5 env) (MarshalOverrides env (Overrides (frObject r)))"

definition versionedResource :: "syncEnv \<Rightarrow> federatedResource \<Rightarrow> VersionedResource" where
  "versionedResource env r = \<lparr>FederatedName = frFederatedName r, TemplateVersion = TemplateVersionOf env r,
     OverrideVersion = OverrideVersionOf env r,
     FederatedGVK = (''core.kubeadmiral.io/v1alpha1'',
       if fst (frFederatedName r) = [] then ''ClusterFederatedObject'' else ''FederatedObject''),
     ResourceUID = OUID (frObject r)\<rparr>"

definition VersionForCluster :: "syncEnv \<Rightarrow> VersionManager \<Rightarrow> federatedResource \<Rightarrow> string \<Rightarrow> string + string" where
  "VersionForCluster env vm r cluster = map_sum id (\<lambda>versionMap. mget [] versionMap cluster) (Get_versions vm (versionedResource env r))"

definition computePlacement :: "SyncObject \<Rightarrow> string list \<Rightarrow> string list" where
  "computePlacement resource clusterNames = filter (\<lambda>c. c \<in> GetPlacementUnion (Placements resource)) (remdups clusterNames)"

definition CentralizedHPAEnableKey :: string where
  "CentralizedHPAEnableKey = DefaultPrefix @ ''centralized-hpa-enabled''"

definition isCentralizedHPAObject :: "syncEnv \<Rightarrow> SyncObject \<Rightarrow> string + bool" where
  "isCentralizedHPAObject env fedObject =
     map_sum id (\<lambda>templateMetadata. map_of (MLabels templateMetadata) CentralizedHPAEnableKey = Some AnnotationValueTrue)
       (GetTemplateMetadata (uK8s (seOps env)) fedObject)"

definition SourceGenerationAnnotation :: string where
  "SourceGenerationAnnotation = DefaultPrefix @ ''source-generation''"

definition RetainTerminatingObjectFinalizer :: string where
  "RetainTerminatingObjectFinalizer = DefaultPrefix @ ''retain-terminating-object''"

definition dropJobFields :: "unstructuredOps \<Rightarrow> json \<Rightarrow> json" where
  "dropJobFields ops obj =
     (if NestedBool ops obj [''spec'', ''manualSelector''] = Inr (Some True) then obj
      else RemoveNestedField (uK8s ops)
        (RemoveNestedField (uK8s ops) obj [''spec'', ''template'', ''metadata'', ''labels'', ''controller-uid''])
        [''spec'', ''selector'', ''matchLabels'', ''controller-uid''])"

definition dropServiceFields :: "unstructuredOps \<Rightarrow> json \<Rightarrow> json" where
  "dropServiceFields ops obj =
     (case NestedString ops obj [''spec'', ''clusterIP''] of
        Inr (Some clusterIP) \<Rightarrow>
          if clusterIP \<noteq> ''None'' then
            RemoveNestedField (uK8s ops) (RemoveNestedField (uK8s ops) obj [''spec'', ''clusterIP'']) [''spec'', ''clusterIPs'']
          else obj
      | _ \<Rightarrow> obj)"

definition dropPodFields :: "unstructuredOps \<Rightarrow> json \<Rightarrow> json" where
  "dropPodFields ops obj = RemoveNestedField (uK8s ops) obj [''spec'', ''ephemeralContainers'']"

definition addRetainObjectFinalizer :: "MemberObject \<Rightarrow> MemberObject" where
  "addRetainObjectFinalizer obj = fst (AddFinalizers obj [RetainTerminatingObjectFinalizer])"

definition ObjectForCluster :: "syncEnv \<Rightarrow> federatedResource \<Rightarrow> string + MemberObject" where
  "ObjectForCluster env r =
     (let obj = frTemplate r in
      case (if UGeneration obj \<noteq> 0 then AddAnnotation (Some obj) SourceGenerationAnnotation (formatInt (UGeneration obj))
            else (Some obj, Inr False)) of
        (_, Inl err) \<Rightarrow> Inl err
      | (annotated, Inr _) \<Rightarrow>
          let obj1 = (case annotated of None \<Rightarrow> obj | Some o1 \<Rightarrow> o1) in
          Inr (if TargetGVK r = JobGVK then addRetainObjectFinalizer (obj1\<lparr>UBody := dropJobFields (seOps env) (UBody obj1)\<rparr>)
               else if TargetGVK r = ServiceGVK then obj1\<lparr>UBody := dropServiceFields (seOps env) (UBody obj1)\<rparr>
               else if TargetGVK r = PodGVK then addRetainObjectFinalizer (obj1\<lparr>UBody := dropPodFields (seOps env) (UBody obj1)\<rparr>)
               else obj1))"

text \<open>
  \<open>sort.SliceStable\<close> with the order that the code gives it, as insertion of every element before the
  first one that is not less.
\<close>

fun insertStable :: "('a \<Rightarrow> 'a \<Rightarrow> bool) \<Rightarrow> 'a \<Rightarrow> 'a list \<Rightarrow> 'a list" where
  "insertStable lt x [] = [x]"
| "insertStable lt x (y # ys) = (if lt y x then y # insertStable lt x ys else x # y # ys)"

definition sliceStable :: "('a \<Rightarrow> 'a \<Rightarrow> bool) \<Rightarrow> 'a list \<Rightarrow> 'a list" where
  "sliceStable lt xs = foldr (insertStable lt) xs []"

definition controllerOrder :: "PendingControllers \<Rightarrow> (string, nat) gomap" where
  "controllerOrder controllers = fold (\<lambda>controller order. mput controller (length order) order) (concat controllers) []"

definition overrideLess :: "(string, nat) gomap \<Rightarrow> OverrideWithController \<Rightarrow> OverrideWithController \<Rightarrow> bool" where
  "overrideLess order a b =
     (case map_of order (OvController a) of
        None \<Rightarrow> False
      | Some lhs \<Rightarrow> (case map_of order (OvController b) of None \<Rightarrow> True | Some rhs \<Rightarrow> lhs < rhs))"

definition mergeClusterOverrides :: "OverrideWithController list \<Rightarrow> (string, OverridePatch list) gomap" where
  "mergeClusterOverrides overrides =
     fold (\<lambda>controllerOverride m. fold (\<lambda>clusterOverride m.
       mput (OCluster clusterOverride) (mget [] m (OCluster clusterOverride) @ Patches clusterOverride) m)
         (Override controllerOverride) m) overrides []"

definition overridesForCluster :: "federatedResource \<Rightarrow> string \<Rightarrow> OverridePatch list" where
  "overridesForCluster r cluster =
     mget [] (mergeClusterOverrides (sliceStable (overrideLess (controllerOrder (GetControllers (frTypeConfig r))))
       (Overrides (frObject r)))) cluster"

definition invalidOverridePaths :: "string list" where
  "invalidOverridePaths = [''/metadata/namespace'', ''/metadata/name'', ''/metadata/generateName'', ''/kind'']"

definition ApplyOverrides :: "syncEnv \<Rightarrow> federatedResource \<Rightarrow> MemberObject \<Rightarrow> string \<Rightarrow> string + MemberObject" where
  "ApplyOverrides env r obj cluster =
     (let overrides = overridesForCluster r cluster;
          invalidPathsFound = remdups (filter (\<lambda>p. p \<in> set invalidOverridePaths) (map PPath overrides)) in
      if invalidPathsFound \<noteq> [] then Inl (''invalid override path(s): ['' @ joinStr '' '' invalidPathsFound @ '']'')
      else case (if overrides \<noteq> [] then PatchObject env (defaultOps overrides) obj else Inr obj) of
        Inl err \<Rightarrow> Inl err
      | Inr patched \<Rightarrow> Inr (AddManagedLabel patched))"


section \<open>Model: operations on a member cluster\<close>

text \<open>
  The answers of one member cluster: whether the client exists, and what its API server answers to each
  request, of which an operation sends every kind at most once.
\<close>

record memberAnswers =
  HasClient :: bool
  OnCreate :: "apiError + MemberObject"
  OnGet :: "apiError + MemberObject"
  OnUpdate :: "apiError + MemberObject"
  OnDelete :: "apiError option"

datatype memberCall = CreateObject MemberObject | GetObject | UpdateObject MemberObject | DeleteObject

record opOutcome =
  OpStatus :: PropagationStatusType
  OpVersion :: "string option"
  OpUpdated :: bool
  OpOk :: bool
  OpCalls :: "memberCall list"

definition opFailed :: "PropagationStatusType \<Rightarrow> memberCall list \<Rightarrow> opOutcome" where
  "opFailed status calls = \<lparr>OpStatus = status, OpVersion = None, OpUpdated = False, OpOk = False, OpCalls = calls\<rparr>"

definition opDone :: "PropagationStatusType \<Rightarrow> string option \<Rightarrow> bool \<Rightarrow> memberCall list \<Rightarrow> opOutcome" where
  "opDone status version updated calls = \<lparr>OpStatus = status, OpVersion = version, OpUpdated = updated, OpOk = True, OpCalls = calls\<rparr>"

definition removeRetainObjectFinalizer :: "MemberObject \<Rightarrow> MemberObject \<times> bool" where
  "removeRetainObjectFinalizer obj = RemoveFinalizers obj [RetainTerminatingObjectFinalizer]"

text \<open>\<open>Update\<close>: the object to send, or the status of the failure; the outer \<open>None\<close> is a panic.\<close>

definition desiredUpdate ::
    "syncEnv \<Rightarrow> federatedResource \<Rightarrow> string \<Rightarrow> MemberObject \<Rightarrow> (PropagationStatusType + MemberObject) option" where
  "desiredUpdate env r cluster clusterObj =
     (case ObjectForCluster env r of
        Inl err \<Rightarrow> Some (Inl ''ComputeResourceFailed'')
      | Inr obj \<Rightarrow>
     (case ApplyOverrides env r (obj\<lparr>MFinalizers := MFinalizers clusterObj\<rparr>) cluster of
        Inl err \<Rightarrow> Some (Inl ''ApplyOverridesFailed'')
      | Inr obj1 \<Rightarrow>
          let obj2 = obj1\<lparr>MFinalizers := List.rev (remdups (List.rev (MFinalizers obj1)))\<rparr> in
     (case RetainOrMergeClusterFields (seOps env) (TargetGVK r) (recordPropagatedLabelsAndAnnotations obj2) clusterObj of
        None \<Rightarrow> None
      | Some (Inl err) \<Rightarrow> Some (Inl ''FieldRetentionFailed'')
      | Some (Inr obj3) \<Rightarrow>
     (case retainReplicas (seOps env) obj3 clusterObj (frObject r) (FTCReplicasSpec (frTypeConfig r)) of
        Inl err \<Rightarrow> Some (Inl ''FieldRetentionFailed'')
      | Inr obj4 \<Rightarrow> Some (Inr obj4)))))"

definition updateOp ::
    "syncEnv \<Rightarrow> VersionManager \<Rightarrow> federatedResource \<Rightarrow> string \<Rightarrow> MemberObject \<Rightarrow> memberAnswers \<Rightarrow> opOutcome option" where
  "updateOp env vm r cluster clusterObj answers =
     (if \<not> HasClient answers then Some (opFailed ''ClientRetrievalFailed'' [])
      else if IsExplicitlyUnmanaged clusterObj then Some (opFailed ''ManagedLabelFalse'' [])
      else case desiredUpdate env r cluster clusterObj of
        None \<Rightarrow> None
      | Some (Inl status) \<Rightarrow> Some (opFailed status [])
      | Some (Inr obj) \<Rightarrow>
     (case VersionForCluster env vm r cluster of
        Inl err \<Rightarrow> Some (opFailed ''VersionRetrievalFailed'' [])
      | Inr version \<Rightarrow>
          if \<not> ObjectNeedsUpdate obj clusterObj version then Some (opDone ''UpdateTimedOut'' (Some version) False [])
          else case OnUpdate answers of
            Inl err \<Rightarrow> Some (opFailed ''UpdateFailed'' [UpdateObject obj])
          | Inr updated \<Rightarrow> Some (opDone ''UpdateTimedOut'' (Some (ObjectVersion updated)) True [UpdateObject obj])))"

text \<open>Whether a failed creation may mean that the object exists, and whether that has to be checked.\<close>

definition needsExistenceRecheck :: "gvk \<Rightarrow> apiError \<Rightarrow> bool option" where
  "needsExistenceRecheck targetGVK createErr =
     (if createErr = IsAlreadyExists then Some False
      else if targetGVK = NamespaceGVK \<and> createErr = IsServerTimeout then Some True
      else if targetGVK = ServiceGVK \<and> createErr = IsInvalid then Some True
      else None)"

definition desiredCreate :: "syncEnv \<Rightarrow> federatedResource \<Rightarrow> string \<Rightarrow> PropagationStatusType + MemberObject" where
  "desiredCreate env r cluster =
     (case ObjectForCluster env r of
        Inl err \<Rightarrow> Inl ''ComputeResourceFailed''
      | Inr obj \<Rightarrow>
          (case ApplyOverrides env r (obj\<lparr>MFinalizers := []\<rparr>) cluster of
             Inl err \<Rightarrow> Inl ''ApplyOverridesFailed''
           | Inr obj1 \<Rightarrow> Inr (recordPropagatedLabelsAndAnnotations obj1)))"

definition addCalls :: "memberCall list \<Rightarrow> opOutcome \<Rightarrow> opOutcome" where
  "addCalls calls o1 = o1\<lparr>OpCalls := calls @ OpCalls o1\<rparr>"

definition createOp ::
    "syncEnv \<Rightarrow> VersionManager \<Rightarrow> federatedResource \<Rightarrow> string \<Rightarrow> memberAnswers \<Rightarrow> opOutcome option" where
  "createOp env vm r cluster answers =
     (if \<not> HasClient answers then Some (opFailed ''ClientRetrievalFailed'' [])
      else case desiredCreate env r cluster of
        Inl status \<Rightarrow> Some (opFailed status [])
      | Inr obj \<Rightarrow>
     (case OnCreate answers of
        Inr created \<Rightarrow> Some (opDone ''CreationTimedOut'' (Some (ObjectVersion created)) False [CreateObject obj])
      | Inl createErr \<Rightarrow>
     (case needsExistenceRecheck (TargetGVK r) createErr of
        None \<Rightarrow> Some (opFailed ''CreationFailed'' [CreateObject obj])
      | Some recheck \<Rightarrow>
     (case OnGet answers of
        Inl getErr \<Rightarrow>
          Some (opFailed (if recheck \<and> getErr = IsNotFound then ''CreationFailed'' else ''RetrievalFailed'') [CreateObject obj, GetObject])
      | Inr existing \<Rightarrow>
     (case FilterToAdoptCluster (CompileRegexp env) (frObject r) cluster of
        Inl err \<Rightarrow> Some (opFailed ''AlreadyExists'' [CreateObject obj, GetObject])
      | Inr canAdopt \<Rightarrow>
          if \<not> ShouldAdoptPreexistingResources (frObject r) \<or> \<not> canAdopt
          then Some (opFailed ''AlreadyExists'' [CreateObject obj, GetObject])
          else map_option (addCalls [CreateObject obj, GetObject])
            (updateOp env vm r cluster
              (if HasManagedLabel existing then existing else fst (AddAdoptedAnnotation existing)) answers))))))"

text \<open>
  \<open>Delete\<close> of the unmanaged dispatcher.  An update that finds no object leaves the code with a nil
  object, whose deletion timestamp it reads.
\<close>

definition deleteOp :: "MemberObject \<Rightarrow> memberAnswers \<Rightarrow> opOutcome option" where
  "deleteOp clusterObj answers =
     (if \<not> HasClient answers then Some (opFailed ''ClientRetrievalFailed'' [])
      else
        let (obj1, needUpdate) = removeRetainObjectFinalizer clusterObj;
            calls = (if needUpdate then [UpdateObject obj1] else []) in
        if needUpdate \<and> OnUpdate answers = Inl IsNotFound then None
        else case (if needUpdate then OnUpdate answers else Inr obj1) of
          Inl err \<Rightarrow> Some (opFailed ''DeletionFailed'' calls)
        | Inr obj2 \<Rightarrow>
            if UDeletionTimestamp obj2 \<noteq> None then Some (opDone ''DeletionTimedOut'' None False calls)
            else if OnDelete answers = None \<or> OnDelete answers = Some IsNotFound
            then Some (opDone ''DeletionTimedOut'' None False (calls @ [DeleteObject]))
            else Some (opFailed ''DeletionFailed'' (calls @ [DeleteObject])))"

definition removeManagedLabelOp :: "MemberObject \<Rightarrow> memberAnswers \<Rightarrow> opOutcome option" where
  "removeManagedLabelOp clusterObj answers =
     (if \<not> HasClient answers then Some (opFailed ''ClientRetrievalFailed'' [])
      else
        let updateObj = fst (removeRetainObjectFinalizer (RemoveManagedLabel clusterObj)) in
        case OnUpdate answers of
          Inl err \<Rightarrow> Some (opFailed ''LabelRemovalFailed'' [UpdateObject updateObj])
        | Inr _ \<Rightarrow> Some (opDone ''LabelRemovalTimedOut'' None False [UpdateObject updateObj]))"

definition checkRemovedOrUnlabeled :: "memberAnswers \<Rightarrow> bool" where
  "checkRemovedOrUnlabeled answers =
     (if \<not> HasClient answers then False
      else case OnGet answers of
        Inl err \<Rightarrow> err = IsNotFound \<or> err = IsNoMatch
      | Inr clusterObj \<Rightarrow>
          if UDeletionTimestamp clusterObj \<noteq> None then False else \<not> HasManagedLabel clusterObj)"


section \<open>Model: the dispatcher\<close>

record dispatcher =
  dStatusMap :: PropagationStatusMap
  dVersionMap :: "(string, string) gomap"
  dResourcesUpdated :: bool
  dInitiated :: bool
  dOk :: bool
  dCalls :: "(string \<times> memberCall) list"

definition NewManagedDispatcher :: dispatcher where
  "NewManagedDispatcher = \<lparr>dStatusMap = [], dVersionMap = [], dResourcesUpdated = False, dInitiated = False, dOk = True, dCalls = []\<rparr>"

definition RecordStatus :: "string \<Rightarrow> PropagationStatusType \<Rightarrow> dispatcher \<Rightarrow> dispatcher" where
  "RecordStatus cluster propStatus d = d\<lparr>dStatusMap := mput cluster propStatus (dStatusMap d)\<rparr>"

definition finishOp :: "string \<Rightarrow> opOutcome option \<Rightarrow> dispatcher \<Rightarrow> dispatcher option" where
  "finishOp cluster outcome d =
     map_option (\<lambda>o1. d\<lparr>dStatusMap := mput cluster (OpStatus o1) (dStatusMap d),
        dVersionMap := (case OpVersion o1 of None \<Rightarrow> dVersionMap d | Some v \<Rightarrow> mput cluster v (dVersionMap d)),
        dResourcesUpdated := (dResourcesUpdated d \<or> OpUpdated o1), dInitiated := True, dOk := (dOk d \<and> OpOk o1),
        dCalls := dCalls d @ map (Pair cluster) (OpCalls o1)\<rparr>) outcome"

text \<open>\<open>Wait\<close>, after the last operation has finished.\<close>

definition settleStatus :: "PropagationStatusType \<Rightarrow> PropagationStatusType option" where
  "settleStatus value =
     (if value = ''CreationTimedOut'' \<or> value = ''UpdateTimedOut'' then Some ClusterPropagationOK
      else if value = ''DeletionTimedOut'' then Some ''WaitingForRemoval''
      else if value = ''LabelRemovalTimedOut'' then None
      else Some value)"

definition settleAll :: "PropagationStatusMap \<Rightarrow> PropagationStatusMap" where
  "settleAll statusMap = List.map_filter (\<lambda>(key, value). map_option (Pair key) (settleStatus value)) statusMap"

definition CollectedStatus :: "dispatcher \<Rightarrow> CollectedPropagationStatus" where
  "CollectedStatus d = \<lparr>StatusMap = settleAll (dStatusMap d),
     GenerationMap = ConvertVersionMapToGenerationMap (dVersionMap d), ResourcesUpdated = dResourcesUpdated d\<rparr>"


section \<open>Statement vocabulary\<close>

text \<open>The rank of a controller in the configuration; unknown controllers come last.\<close>

fun position :: "'a \<Rightarrow> 'a list \<Rightarrow> nat" where
  "position x [] = 0"
| "position x (y # ys) = (if x = y then 0 else Suc (position x ys))"

definition patchesFor :: "string \<Rightarrow> OverrideWithController \<Rightarrow> OverridePatch list" where
  "patchesFor cluster override = concat (map Patches (filter (\<lambda>o1. OCluster o1 = cluster) (Override override)))"

text \<open>What holds of a request of the operations that create and update, given the existing object.\<close>

definition createRequest :: "syncEnv \<Rightarrow> federatedResource \<Rightarrow> string \<Rightarrow> MemberObject \<Rightarrow> bool" where
  "createRequest env r cluster x \<longleftrightarrow> HasManagedLabel x \<and>
     (overridesForCluster r cluster \<noteq> [] \<or> MName x = MName (frTemplate r) \<and> MNamespace x = MNamespace (frTemplate r) \<and> MFinalizers x = [])"

definition updateRequest :: "federatedResource \<Rightarrow> string \<Rightarrow> MemberObject \<Rightarrow> MemberObject \<Rightarrow> bool" where
  "updateRequest r cluster existing x \<longleftrightarrow> HasManagedLabel x \<and> \<not> IsExplicitlyUnmanaged existing \<and>
     UResourceVersion x = UResourceVersion existing \<and>
     (overridesForCluster r cluster \<noteq> [] \<or> MName x = MName (frTemplate r) \<and> MNamespace x = MNamespace (frTemplate r) \<and>
        set (MFinalizers x) = set (MFinalizers existing))"

text \<open>The invariant of a dispatcher: only clusters with a pending or a successful write have a version.\<close>

definition dispatcher_ok :: "dispatcher \<Rightarrow> bool" where
  "dispatcher_ok d \<longleftrightarrow> wf_map (dStatusMap d) \<and> wf_map (dVersionMap d) \<and> list_all (\<lambda>v. v \<noteq> []) (mvals (dStatusMap d)) \<and>
     list_all (\<lambda>c. mget [] (dStatusMap d) c \<in> {''CreationTimedOut'', ''UpdateTimedOut''}) (mkeys (dVersionMap d))"

definition outcome_ok :: "opOutcome \<Rightarrow> bool" where
  "outcome_ok o1 \<longleftrightarrow> OpStatus o1 \<noteq> [] \<and> (OpVersion o1 = None \<or> OpStatus o1 \<in> {''CreationTimedOut'', ''UpdateTimedOut''})"

text \<open>Example values for the witnesses.\<close>

definition syncEnvSample :: syncEnv where
  "syncEnvSample = \<lparr>seOps = retainOpsSample, MarshalTemplate = (\<lambda>_. Inr ''t''), MarshalOverrides = (\<lambda>_. Inr ''o''), HexMD5 = (\<lambda>s. s),
     PatchObject = (\<lambda>_ obj. Inr obj), CompileRegexp = (\<lambda>_. Inr (\<lambda>_. True))\<rparr>"

definition syncObjectSample :: SyncObject where
  "syncObjectSample = SchedObject.extend schedSample \<lparr>OStatus = statusSample, OUID = ''u''\<rparr>"

definition resourceSample :: federatedResource where
  "resourceSample = \<lparr>frTypeConfig = ftcSample, frFederatedName = (''ns'', ''web''), frTargetName = (''ns'', ''web''),
     frObject = syncObjectSample, frTemplate = templateSample\<rparr>"

definition answersSample :: memberAnswers where
  "answersSample = \<lparr>HasClient = True, OnCreate = Inr clusterSample, OnGet = Inr clusterSample, OnUpdate = Inr clusterSample, OnDelete = None\<rparr>"


section \<open>Overrides in the configured order\<close>

lemma insertStable_insort:
  "(\<And>a b. lt a b \<longleftrightarrow> (key a :: nat) < key b) \<Longrightarrow> insertStable lt x xs = insort_key key x xs"
  by (induction xs) (auto simp: not_less)

lemma sliceStable_sort: "(\<And>a b. lt a b \<longleftrightarrow> (key a :: nat) < key b) \<Longrightarrow> sliceStable lt xs = sort_key key xs"
  unfolding sliceStable_def sort_key_def
  by (rule arg_cong2 [where f = "\<lambda>f. foldr f xs"]) (auto simp: insertStable_insort fun_eq_iff)

lemma position_append: "position x (xs @ ys) = (if x \<in> set xs then position x xs else length xs + position x ys)"
  by (induction xs) auto

lemma position_less: "x \<in> set xs \<Longrightarrow> position x xs < length xs"
  by (induction xs) auto

lemma position_notin: "x \<notin> set xs \<Longrightarrow> position x xs = length xs"
  by (induction xs) auto

lemma controllerOrder_positions:
  assumes "distinct (concat controllers)"
  shows "map_of (controllerOrder controllers) c = (if c \<in> set (concat controllers) then Some (position c (concat controllers)) else None)"
proof -
  have "mkeys (fold (\<lambda>c order. mput c (length order) order) cs []) = cs \<and>
      map_of (fold (\<lambda>c order. mput c (length order) order) cs []) c = (if c \<in> set cs then Some (position c cs) else None)"
    if "distinct cs" for cs :: "string list"
    using that
  proof (induction cs rule: rev_induct)
    case (snoc x xs)
    let ?m = "fold (\<lambda>c order. mput c (length order) order) xs []"
    have k: "mkeys ?m = xs" "x \<notin> set xs" using snoc by simp_all
    moreover have "length (mkeys ?m) = length ?m" by (simp add: mkeys_def)
    ultimately have "length ?m = length xs" by simp
    moreover have "map_of ?m c = (if c \<in> set xs then Some (position c xs) else None)" using snoc by simp
    ultimately show ?case using k by (simp add: mkeys_mput_fresh map_of_mput position_append)
  qed simp
  from this [OF assms] show ?thesis by (simp add: controllerOrder_def)
qed

lemma overrideLess_position:
  assumes "distinct (concat controllers)"
  shows "overrideLess (controllerOrder controllers) a b \<longleftrightarrow>
     position (OvController a) (concat controllers) < position (OvController b) (concat controllers)"
proof -
  define cs where "cs = concat controllers"
  have "map_of (controllerOrder controllers) c = (if c \<in> set cs then Some (position c cs) else None)" for c
    unfolding cs_def by (rule controllerOrder_positions [OF assms])
  then show ?thesis
    unfolding overrideLess_def cs_def [symmetric]
    using position_less [of _ cs] position_notin [of _ cs] by (auto simp: not_less intro: less_imp_le)
qed

lemma mget_clusterOverrides:
  "mget [] (fold (\<lambda>o1 m. mput (OCluster o1) (mget [] m (OCluster o1) @ Patches o1) m) os m) c =
     mget [] m c @ concat (map Patches (filter (\<lambda>o1. OCluster o1 = c) os))"
  by (induction os arbitrary: m) (auto simp: gomap_simps)

lemma mergeClusterOverrides_get: "mget [] (mergeClusterOverrides overrides) c = concat (map (patchesFor c) overrides)"
proof -
  have "mget [] (fold (\<lambda>co m. fold (\<lambda>o1 m. mput (OCluster o1) (mget [] m (OCluster o1) @ Patches o1) m) (Override co) m) overrides m) c =
      mget [] m c @ concat (map (patchesFor c) overrides)" for m
    by (induction overrides arbitrary: m) (auto simp: mget_clusterOverrides patchesFor_def)
  then show ?thesis by (simp add: mergeClusterOverrides_def)
qed

lemma overridesForCluster_sorted:
  assumes "distinct (concat (GetControllers (frTypeConfig r)))"
  shows "overridesForCluster r c = concat (map (patchesFor c)
     (sort_key (\<lambda>o1. position (OvController o1) (concat (GetControllers (frTypeConfig r)))) (Overrides (frObject r))))"
  unfolding overridesForCluster_def mergeClusterOverrides_get
  by (rule arg_cong [where f = "\<lambda>xs. concat (map (patchesFor c) xs)"]) (rule sliceStable_sort [OF overrideLess_position [OF assms]])


section \<open>The objects that are sent\<close>

lemma ObjectForCluster_names:
  assumes "ObjectForCluster env r = Inr obj"
  shows "MName obj = MName (frTemplate r)" "MNamespace obj = MNamespace (frTemplate r)"
proof -
  have add: "MName (addRetainObjectFinalizer x) = MName x \<and> MNamespace (addRetainObjectFinalizer x) = MNamespace x" for x
    by (simp add: addRetainObjectFinalizer_def AddFinalizers_def)
  have ann: "MName y = MName x \<and> MNamespace y = MNamespace x" if "AddAnnotation (Some x) k v = (Some y, res)" for x y :: MemberObject and k v res
    using that by (auto simp: AddAnnotation_def HasAnnotationKeyValue_def split: if_splits)
  have "MName obj = MName (frTemplate r) \<and> MNamespace obj = MNamespace (frTemplate r)"
    using assms add ann by (fastforce simp: ObjectForCluster_def Let_def split: prod.splits sum.splits if_splits option.splits)
  then show "MName obj = MName (frTemplate r)" "MNamespace obj = MNamespace (frTemplate r)" by simp_all
qed

lemma HasManagedLabel_Add [simp]: "HasManagedLabel (AddManagedLabel obj)"
  by (simp add: HasManagedLabel_def AddManagedLabel_def mget_mput)

lemma ApplyOverrides_result:
  assumes "ApplyOverrides env r obj c = Inr x"
  shows "map_of (MLabels x) ManagedByKubeAdmiralLabelKey = Some ''true''"
    and "overridesForCluster r c = [] \<Longrightarrow> MName x = MName obj \<and> MNamespace x = MNamespace obj \<and> MFinalizers x = MFinalizers obj"
  using assms by (auto simp: ApplyOverrides_def Let_def AddManagedLabel_def map_of_mput split: if_splits sum.splits)

lemma mergeStringMaps_template:
  assumes "map_of template k = Some v"
  shows "map_of (mergeStringMaps template observed prev) k = Some v"
proof -
  have "map_of m k = Some v \<Longrightarrow> map_of (fold (\<lambda>(k, v) m. if k \<in> D then m else if map_of m k = None then mput k v m else m) obs m) k = Some v"
    for obs D and m :: "(string, string) gomap"
  proof (induction obs arbitrary: m)
    case (Cons p obs)
    show ?case
    proof (cases p)
      case (Pair a b)
      with Cons.prems show ?thesis by (auto simp: map_of_mput intro!: Cons.IH)
    qed
  qed simp
  from this [OF assms] show ?thesis unfolding mergeStringMaps_def Let_def .
qed

lemma retainReplicas_metadata:
  assumes "retainReplicas ops d c f path = Inr x"
  shows "MLabels x = MLabels d" "MName x = MName d" "MNamespace x = MNamespace d" "MFinalizers x = MFinalizers d" "UResourceVersion x = UResourceVersion d"
proof -
  have "\<exists>body. x = d\<lparr>UBody := body\<rparr>"
  proof (cases "retainReplicas ops d c f path = Inr d")
    case True
    then have "x = d\<lparr>UBody := UBody d\<rparr>" using assms by simp
    then show ?thesis ..
  next
    case False
    then obtain y where "map_sum id (\<lambda>body. d\<lparr>UBody := body\<rparr>) (y :: string + json) = Inr x"
      using assms unfolding retainReplicas_def by (auto split: if_splits sum.splits option.splits)
    then show ?thesis by (cases y) auto
  qed
  then show "MLabels x = MLabels d" "MName x = MName d" "MNamespace x = MNamespace d" "MFinalizers x = MFinalizers d" "UResourceVersion x = UResourceVersion d"
    by auto
qed

lemma desiredUpdate_result:
  assumes "desiredUpdate env r c cobj = Some (Inr x)"
  shows "HasManagedLabel x" "UResourceVersion x = UResourceVersion cobj"
    and "overridesForCluster r c = [] \<Longrightarrow> MName x = MName (frTemplate r) \<and> MNamespace x = MNamespace (frTemplate r) \<and> set (MFinalizers x) = set (MFinalizers cobj)"
proof -
  obtain obj where 1: "ObjectForCluster env r = Inr obj" using assms by (auto simp: desiredUpdate_def split: sum.splits)
  obtain obj1 where 2: "ApplyOverrides env r (obj\<lparr>MFinalizers := MFinalizers cobj\<rparr>) c = Inr obj1"
    using assms 1 by (auto simp: desiredUpdate_def split: sum.splits)
  let ?obj2 = "obj1\<lparr>MFinalizers := List.rev (remdups (List.rev (MFinalizers obj1)))\<rparr>"
  obtain obj3 where 3: "RetainOrMergeClusterFields (seOps env) (TargetGVK r) (recordPropagatedLabelsAndAnnotations ?obj2) cobj = Some (Inr obj3)"
      and 4: "retainReplicas (seOps env) obj3 cobj (frObject r) (FTCReplicasSpec (frTypeConfig r)) = Inr x"
    using assms 1 2 by (auto simp: desiredUpdate_def Let_def split: sum.splits option.splits)
  note a = ApplyOverrides_result [OF 2] and m = RetainOrMerge_metadata [OF 3] and p = retainReplicas_metadata [OF 4] and n = ObjectForCluster_names [OF 1]
  have "map_of (MLabels x) ManagedByKubeAdmiralLabelKey = Some ''true''"
    unfolding p(1) m(1) using a(1) by (intro mergeStringMaps_template) (simp add: record_annotations)
  then show "HasManagedLabel x" by (simp add: HasManagedLabel_def mget_def)
  show "UResourceVersion x = UResourceVersion cobj" using p(5) m(3) by simp
  show "MName x = MName (frTemplate r) \<and> MNamespace x = MNamespace (frTemplate r) \<and> set (MFinalizers x) = set (MFinalizers cobj)"
    if "overridesForCluster r c = []"
    using a(2) [OF that] m(4-6) p(2-4) n by (simp add: recordPropagatedLabelsAndAnnotations_def)
qed

lemma desiredCreate_result:
  assumes "desiredCreate env r c = Inr x"
  shows "createRequest env r c x"
proof -
  obtain obj obj1 where 1: "ObjectForCluster env r = Inr obj" and 2: "ApplyOverrides env r (obj\<lparr>MFinalizers := []\<rparr>) c = Inr obj1"
      and x: "x = recordPropagatedLabelsAndAnnotations obj1"
    using assms by (auto simp: desiredCreate_def split: sum.splits)
  show ?thesis using ApplyOverrides_result [OF 2] ObjectForCluster_names [OF 1]
    by (auto simp: createRequest_def x recordPropagatedLabelsAndAnnotations_def HasManagedLabel_def mget_def)
qed

lemma updateOp_calls:
  assumes "updateOp env vm r c cobj ans = Some o1" "call \<in> set (OpCalls o1)"
  shows "\<exists>x. call = UpdateObject x \<and> updateRequest r c cobj x"
proof -
  obtain x where u: "\<not> IsExplicitlyUnmanaged cobj" "desiredUpdate env r c cobj = Some (Inr x)" "call = UpdateObject x"
    using assms by (auto simp: updateOp_def opFailed_def opDone_def split: if_splits option.splits sum.splits)
  then show ?thesis using desiredUpdate_result [OF u(2)] by (auto simp: updateRequest_def)
qed

lemma adopted_same:
  "IsExplicitlyUnmanaged (fst (AddAdoptedAnnotation obj)) = IsExplicitlyUnmanaged obj"
  "UResourceVersion (fst (AddAdoptedAnnotation obj)) = UResourceVersion obj" "MFinalizers (fst (AddAdoptedAnnotation obj)) = MFinalizers obj"
  by (simp_all add: AddAdoptedAnnotation_def IsExplicitlyUnmanaged_def)

lemma createOp_calls:
  assumes "createOp env vm r c ans = Some o1" "call \<in> set (OpCalls o1)"
  shows "(\<exists>x. call = CreateObject x \<and> createRequest env r c x) \<or> call = GetObject \<or>
     (\<exists>x existing. call = UpdateObject x \<and> OnGet ans = Inr existing \<and> updateRequest r c existing x \<and>
        ShouldAdoptPreexistingResources (frObject r) \<and> FilterToAdoptCluster (CompileRegexp env) (frObject r) c = Inr True)"
proof -
  from assms consider (create) x where "desiredCreate env r c = Inr x" "call = CreateObject x" | (get) "call = GetObject"
    | (adopt) existing o2 where "OnGet ans = Inr existing" "ShouldAdoptPreexistingResources (frObject r)"
      "FilterToAdoptCluster (CompileRegexp env) (frObject r) c = Inr True" "call \<in> set (OpCalls o2)"
      "updateOp env vm r c (if HasManagedLabel existing then existing else fst (AddAdoptedAnnotation existing)) ans = Some o2"
    by (auto simp: createOp_def opFailed_def opDone_def addCalls_def split: if_splits option.splits sum.splits)
  then show ?thesis
  proof cases
    case create
    with desiredCreate_result show ?thesis by blast
  next
    case adopt
    from updateOp_calls [OF adopt(5,4)] obtain x where "call = UpdateObject x"
        "updateRequest r c (if HasManagedLabel existing then existing else fst (AddAdoptedAnnotation existing)) x" by blast
    with adopt(1-3) show ?thesis by (auto simp: updateRequest_def adopted_same split: if_splits)
  qed simp
qed


section \<open>The dispatcher\<close>

lemma outcome_ok_updateOp: "updateOp env vm r c cobj ans = Some o1 \<Longrightarrow> outcome_ok o1"
proof -
  have "desiredUpdate env r c cobj = Some (Inl st) \<Longrightarrow> st \<noteq> []" for st
    by (auto simp: desiredUpdate_def Let_def split: sum.splits option.splits)
  then show "updateOp env vm r c cobj ans = Some o1 \<Longrightarrow> outcome_ok o1"
    by (auto simp: updateOp_def outcome_ok_def opFailed_def opDone_def split: if_splits option.splits sum.splits)
qed

lemma outcome_ok_createOp: "createOp env vm r c ans = Some o1 \<Longrightarrow> outcome_ok o1"
proof -
  have "desiredCreate env r c = Inl st \<Longrightarrow> st \<noteq> []" for st
    by (auto simp: desiredCreate_def split: sum.splits)
  moreover have "outcome_ok (addCalls calls o2) = outcome_ok o2" for calls o2 by (simp add: outcome_ok_def addCalls_def)
  moreover have "outcome_ok (opFailed st calls)" if "st \<noteq> []" for st calls using that by (simp add: outcome_ok_def opFailed_def)
  moreover have "outcome_ok (opDone ''CreationTimedOut'' v u calls)" for v u calls by (simp add: outcome_ok_def opDone_def)
  ultimately show "createOp env vm r c ans = Some o1 \<Longrightarrow> outcome_ok o1"
    using outcome_ok_updateOp by (auto simp: createOp_def split: if_splits option.splits sum.splits)
qed

lemma outcome_ok_deleteOp: "deleteOp cobj ans = Some o1 \<Longrightarrow> outcome_ok o1"
  by (auto simp: deleteOp_def outcome_ok_def opFailed_def opDone_def Let_def split: if_splits prod.splits sum.splits)

lemma outcome_ok_removeManagedLabelOp: "removeManagedLabelOp cobj ans = Some o1 \<Longrightarrow> outcome_ok o1"
  by (auto simp: removeManagedLabelOp_def outcome_ok_def opFailed_def opDone_def Let_def split: if_splits sum.splits)

lemmas outcome_ok_ops = outcome_ok_updateOp outcome_ok_createOp outcome_ok_deleteOp outcome_ok_removeManagedLabelOp

lemma mvals_mput: "set (mvals (mput k v m)) \<subseteq> insert v (set (mvals m))"
  unfolding mvals_def mput_def by (induction m) auto

lemma dispatcher_ok_new [simp]: "dispatcher_ok NewManagedDispatcher"
  by (simp add: dispatcher_ok_def NewManagedDispatcher_def mvals_def mkeys_def)

lemma dispatcher_ok_put:
  assumes "dispatcher_ok d" "c \<notin> set (mkeys (dVersionMap d))" "st \<noteq> []" "v = None \<or> st \<in> {''CreationTimedOut'', ''UpdateTimedOut''}"
    and "dStatusMap d' = mput c st (dStatusMap d)" "dVersionMap d' = (case v of None \<Rightarrow> dVersionMap d | Some x \<Rightarrow> mput c x (dVersionMap d))"
  shows "dispatcher_ok d'"
proof -
  have vals: "list_all (\<lambda>v. v \<noteq> []) (mvals (dStatusMap d'))"
    using assms(1,3,5) mvals_mput [of c st "dStatusMap d"] by (auto simp: dispatcher_ok_def list_all_iff)
  have "mget [] (dStatusMap d') k \<in> {''CreationTimedOut'', ''UpdateTimedOut''}" if "k \<in> set (mkeys (dVersionMap d'))" for k
  proof (cases "k = c")
    case True
    with that assms(2,4,6) have "st \<in> {''CreationTimedOut'', ''UpdateTimedOut''}" by (cases v) auto
    with True assms(5) show ?thesis by (simp add: mget_mput)
  next
    case False
    with that assms(6) have "k \<in> set (mkeys (dVersionMap d))" by (cases v) (auto simp: set_mkeys_mput)
    with False assms(1,5) show ?thesis by (auto simp: mget_mput dispatcher_ok_def list_all_iff)
  qed
  with vals assms(1,5,6) show ?thesis by (cases v) (auto simp: dispatcher_ok_def list_all_iff)
qed

lemma settleAll_get: "wf_map m \<Longrightarrow> map_of (settleAll m) k = Option.bind (map_of m k) settleStatus"
proof (induction m)
  case (Cons p m)
  obtain a b where p: "p = (a, b)" by fastforce
  have "wf_map m" "map_of m a = None" using Cons.prems by (auto simp: p wf_map_def map_of_eq_None_iff)
  with Cons.IH show ?case by (auto simp: p settleAll_def map_filter_simps split: option.splits)
qed (simp add: settleAll_def map_filter_simps)

lemma settleAll_keys: "map fst (settleAll m) = filter (\<lambda>k. True) (map fst (filter (\<lambda>(k, v). settleStatus v \<noteq> None) m))"
  by (induction m) (auto simp: settleAll_def map_filter_simps split: option.splits)

text \<open>What a dispatcher has collected is fit for the status of the object.\<close>

lemma collected_ok_CollectedStatus:
  assumes "dispatcher_ok d"
  shows "collected_ok (CollectedStatus d)"
proof -
  have wf: "wf_map (settleAll (dStatusMap d))"
    using assms by (simp add: wf_map_def settleAll_keys dispatcher_ok_def distinct_map_filter)
  have "v \<noteq> []" if "v \<in> set (mvals (settleAll (dStatusMap d)))" for v
  proof -
    from that obtain k where "(k, v) \<in> set (settleAll (dStatusMap d))" by (auto simp: mvals_def)
    then obtain u where "u \<in> set (mvals (dStatusMap d))" "settleStatus u = Some v"
      by (force simp: settleAll_def map_filter_def mvals_def split: option.splits)
    with assms show ?thesis by (auto simp: dispatcher_ok_def list_all_iff settleStatus_def split: if_splits)
  qed
  moreover have "k \<in> set (mkeys (settleAll (dStatusMap d)))" if "k \<in> set (mkeys (ConvertVersionMapToGenerationMap (dVersionMap d)))" for k
  proof -
    have "map_of (dVersionMap d) k \<noteq> None"
      using that assms map_of_ConvertVersionMap [of "dVersionMap d" k] by (auto simp: mkeys_iff dispatcher_ok_def split: option.splits)
    then have "mget [] (dStatusMap d) k \<in> {''CreationTimedOut'', ''UpdateTimedOut''}"
      using assms by (auto simp: dispatcher_ok_def list_all_iff mkeys_iff)
    then obtain u where "map_of (dStatusMap d) k = Some u" "settleStatus u = Some ClusterPropagationOK"
      by (auto simp: mget_def settleStatus_def split: option.splits)
    with settleAll_get [of "dStatusMap d" k] assms show ?thesis by (simp add: mkeys_iff dispatcher_ok_def)
  qed
  ultimately show ?thesis using wf wf_ConvertVersionMap by (auto simp: collected_ok_def CollectedStatus_def list_all_iff)
qed

lemma finishOp_Some:
  assumes "finishOp c o1 d = Some d1"
  shows "dStatusMap d1 = mput c (OpStatus (the o1)) (dStatusMap d)"
    and "dVersionMap d1 = (case OpVersion (the o1) of None \<Rightarrow> dVersionMap d | Some v \<Rightarrow> mput c v (dVersionMap d))"
    and "dResourcesUpdated d1 = (dResourcesUpdated d \<or> OpUpdated (the o1))" "dOk d1 = (dOk d \<and> OpOk (the o1))"
    and "dCalls d1 = dCalls d @ map (Pair c) (OpCalls (the o1))"
  using assms by (auto simp: finishOp_def)

text \<open>Operations on different clusters may finish in any order.\<close>

lemma finishOp_commute:
  assumes "c \<noteq> c'" "finishOp c o1 d = Some d1" "finishOp c' o2 d1 = Some d2" "finishOp c' o2 d = Some e1" "finishOp c o1 e1 = Some e2"
  shows "map_of (dStatusMap d2) = map_of (dStatusMap e2)" "map_of (dVersionMap d2) = map_of (dVersionMap e2)"
    "dResourcesUpdated d2 = dResourcesUpdated e2" "dOk d2 = dOk e2" "mset (dCalls d2) = mset (dCalls e2)"
proof -
  note f = finishOp_Some [OF assms(2)] finishOp_Some [OF assms(3)] finishOp_Some [OF assms(4)] finishOp_Some [OF assms(5)]
  show "map_of (dStatusMap d2) = map_of (dStatusMap e2)" using assms(1) by (simp add: f(1,6,11,16) map_of_mput fun_eq_iff)
  show "map_of (dVersionMap d2) = map_of (dVersionMap e2)" using assms(1) by (simp add: f(2,7,12,17) map_of_mput fun_eq_iff split: option.split)
  show "dResourcesUpdated d2 = dResourcesUpdated e2" by (auto simp: f(3,8,13,18))
  show "dOk d2 = dOk e2" by (auto simp: f(4,9,14,19))
  show "mset (dCalls d2) = mset (dCalls e2)" by (simp add: f(5,10,15,20))
qed


section \<open>Properties\<close>



end
