(* ===== verification/Naming.thy ===== *)
theory Naming
  imports Object_Meta
begin

text \<open>
  Generated names: \<open>pkg/util/naming/naming.go\<close> and \<open>pkg/util/clusterobject/naming.go\<close>.  A string is a
  list of bytes, so a slice \<open>s[:n]\<close> is \<open>take n s\<close> where it does not panic.
\<close>


section \<open>Model\<close>

definition MaxFederatedObjectNameLength :: nat where
  "MaxFederatedObjectNameLength = 253"

definition MaxEndpointSliceNameLength :: nat where
  "MaxEndpointSliceNameLength = 253"

definition MaxLabelValueLength :: nat where
  "MaxLabelValueLength = 63"

definition MaxHashLength :: nat where
  "MaxHashLength = 10"

definition legalChar :: "char \<Rightarrow> bool" where
  "legalChar ch \<longleftrightarrow> CHR ''a'' \<le> ch \<and> ch \<le> CHR ''z'' \<or> CHR ''0'' \<le> ch \<and> ch \<le> CHR ''9'' \<or>
     ch = CHR ''.'' \<or> ch = CHR ''-''"

definition transformChar :: "char \<Rightarrow> char" where
  "transformChar ch = (if legalChar ch then ch
     else if CHR ''A'' \<le> ch \<and> ch \<le> CHR ''Z'' then char_of (32 + of_char ch :: nat)
     else CHR ''.'')"

fun squashDots :: "string \<Rightarrow> string" where
  "squashDots (a # b # s) = (if a = CHR ''.'' \<and> b = CHR ''.'' then squashDots (b # s) else a # squashDots (b # s))"
| "squashDots s = s"

definition transformObjectName :: "string \<Rightarrow> string \<times> bool" where
  "transformObjectName objectName =
     (let transformedName = map transformChar objectName;
          sanitizedName = squashDots transformedName
      in (sanitizedName, \<not> list_all legalChar objectName \<or> sanitizedName \<noteq> transformedName))"

definition fnvHashFunc :: "string \<Rightarrow> 32 word" where
  "fnvHashFunc key = fnv32 key"

definition formatHash :: "string \<Rightarrow> string" where
  "formatHash key = formatInt (uint (fnvHashFunc key))"

text \<open>The truncation all generators share: keep a prefix and end with the hash of the full name.\<close>

definition truncateName :: "nat \<Rightarrow> string \<Rightarrow> string" where
  "truncateName maxLength name =
     (if length name > maxLength
      then (let nameHash = formatHash name in take (maxLength - length nameHash - 1) name @ ''-'' @ nameHash)
      else name)"

definition GenerateFederatedObjectName :: "string \<Rightarrow> string \<Rightarrow> string" where
  "GenerateFederatedObjectName objectName ftcName =
     (let (transformedName, transformed) = transformObjectName objectName;
          name = transformedName @ ''-'' @ ftcName;
          federatedName = (if transformed then name @ ''-'' @ formatHash objectName else name)
      in truncateName MaxFederatedObjectNameLength federatedName)"

definition GenerateImportedEndpointSliceName :: "string \<Rightarrow> string \<Rightarrow> string" where
  "GenerateImportedEndpointSliceName endpointSliceName cluster =
     truncateName MaxEndpointSliceNameLength (''imported-'' @ cluster @ ''-'' @ endpointSliceName)"

definition GenerateDerivedSvcFedObjName :: "string \<Rightarrow> string" where
  "GenerateDerivedSvcFedObjName serviceName =
     truncateName MaxFederatedObjectNameLength (''derived-'' @ serviceName @ ''-services'')"

definition GenerateSourceClusterValue :: "string \<Rightarrow> string" where
  "GenerateSourceClusterValue clusterName = truncateName MaxLabelValueLength clusterName"

definition GenUniqueName :: "string \<Rightarrow> string \<Rightarrow> string" where
  "GenUniqueName cluster rawName = GenerateFederatedObjectName cluster rawName"

definition possibleCluster :: "string \<Rightarrow> string \<Rightarrow> bool" where
  "possibleCluster targetName cluster \<longleftrightarrow>
     length cluster \<le> length targetName \<and>
     (length cluster > MaxFederatedObjectNameLength - MaxHashLength - 1 \<and>
        hasPrefix targetName (take (MaxFederatedObjectNameLength - MaxHashLength) cluster) \<or>
      hasPrefix targetName cluster)"

definition GetPossibleClusters :: "string list \<Rightarrow> string \<Rightarrow> string list" where
  "GetPossibleClusters clusters targetName = filter (possibleCluster targetName) clusters"

definition MakeObjectUnique :: "'a ObjectMeta_scheme \<Rightarrow> string \<Rightarrow> 'a ObjectMeta_scheme" where
  "MakeObjectUnique obj clusterName =
     (let o1 = the (fst (AddAnnotation (Some obj) (DefaultPrefix @ ''cluster'') clusterName));
          o2 = the (fst (AddAnnotation (Some o1) (DefaultPrefix @ ''raw-name'') (MName o1)))
      in o2\<lparr>MName := GenUniqueName clusterName (MName o2)\<rparr>)"


section \<open>Lengths and characters\<close>

lemma digitsOf_length: "0 \<le> n \<Longrightarrow> n < 10 ^ Suc k \<Longrightarrow> length (digitsOf n) \<le> Suc k"
proof (induction k arbitrary: n)
  case 0
  then show ?case by (subst digitsOf.simps) simp
next
  case (Suc k)
  show ?case
  proof (cases "n < 10")
    case True
    then show ?thesis by (subst digitsOf.simps) simp
  next
    case False
    have "n div 10 < 10 ^ Suc k" using Suc.prems by (simp add: div_less_iff_less_mult)
    then have "length (digitsOf (n div 10)) \<le> Suc k" using Suc by simp
    then show ?thesis using False by (subst digitsOf.simps) simp
  qed
qed

lemma formatHash_length: "length (formatHash s) \<le> 10"
proof -
  have "0 \<le> uint (fnvHashFunc s)" "uint (fnvHashFunc s) < 10 ^ Suc 9"
    using uint_bounded [of "fnvHashFunc s"] by (simp_all add: uint_nonnegative)
  from digitsOf_length [OF this] show ?thesis by (simp add: formatHash_def formatInt_def)
qed

lemma digitsOf_legal: "0 \<le> n \<Longrightarrow> list_all legalChar (digitsOf n)"
  using digitsOf_digits [of n] by (auto simp: list_all_iff isDigit_def legalChar_def)

lemma formatHash_legal: "list_all legalChar (formatHash s)"
  using digitsOf_legal by (simp add: formatHash_def formatInt_def)

lemma truncateName_length: "11 < n \<Longrightarrow> length (truncateName n s) \<le> n"
  using formatHash_length [of s] by (auto simp: truncateName_def Let_def)

lemma truncateName_legal: "list_all legalChar s \<Longrightarrow> list_all legalChar (truncateName n s)"
  using formatHash_legal [of s]
  by (auto simp: truncateName_def Let_def list_all_iff legalChar_def dest: in_set_takeD)

lemma transformChar_legal: "legalChar (transformChar c)"
proof -
  have "legalChar (char_of (32 + of_char c :: nat))" if "CHR ''A'' \<le> c" "c \<le> CHR ''Z''"
    using that by (auto simp: legalChar_def less_eq_char_def)
  then show ?thesis by (auto simp: transformChar_def legalChar_def)
qed

lemma set_squashDots: "set (squashDots s) \<subseteq> set s"
  by (induction s rule: squashDots.induct) auto

lemma transformObjectName_legal: "list_all legalChar (fst (transformObjectName s))"
  using set_squashDots [of "map transformChar s"] transformChar_legal
  by (auto simp: transformObjectName_def Let_def list_all_iff)

lemma squashDots_id: "\<not> strContains s ''..'' \<Longrightarrow> squashDots s = s"
  by (induction s rule: squashDots.induct) (auto simp: hasPrefix_def)

lemma transformObjectName_id:
  assumes "list_all legalChar s" "\<not> strContains s ''..''"
  shows "transformObjectName s = (s, False)"
proof -
  have "map transformChar s = s" using assms(1) by (induction s) (auto simp: transformChar_def)
  then show ?thesis using assms squashDots_id by (simp add: transformObjectName_def Let_def)
qed


section \<open>Properties\<close>

text \<open>
  C21.  Generated names fit their limits: federated object names and imported endpoint slice names are
  at most 253 bytes long, label values at most 63, and for a legal type name a federated object name
  only has characters of a DNS subdomain; a legal name that fits is kept as it is.
\<close>

theorem generated_names:
  "length (GenerateFederatedObjectName objectName ftcName) \<le> MaxFederatedObjectNameLength \<and>
   length (GenerateImportedEndpointSliceName eps cluster) \<le> MaxEndpointSliceNameLength \<and>
   length (GenerateDerivedSvcFedObjName svc) \<le> MaxFederatedObjectNameLength \<and>
   length (GenerateSourceClusterValue cluster) \<le> MaxLabelValueLength \<and>
   (list_all legalChar ftcName \<longrightarrow> list_all legalChar (GenerateFederatedObjectName objectName ftcName)) \<and>
   (list_all legalChar objectName \<longrightarrow> \<not> strContains objectName ''..'' \<longrightarrow>
      length objectName + 1 + length ftcName \<le> MaxFederatedObjectNameLength \<longrightarrow>
      GenerateFederatedObjectName objectName ftcName = objectName @ ''-'' @ ftcName)"
proof (intro conjI impI)
  show "length (GenerateFederatedObjectName objectName ftcName) \<le> MaxFederatedObjectNameLength"
    by (simp add: GenerateFederatedObjectName_def Let_def truncateName_length MaxFederatedObjectNameLength_def
      split: prod.splits)
  show "length (GenerateImportedEndpointSliceName eps cluster) \<le> MaxEndpointSliceNameLength"
    by (simp add: GenerateImportedEndpointSliceName_def truncateName_length MaxEndpointSliceNameLength_def)
  show "length (GenerateDerivedSvcFedObjName svc) \<le> MaxFederatedObjectNameLength"
    by (simp add: GenerateDerivedSvcFedObjName_def truncateName_length MaxFederatedObjectNameLength_def)
  show "length (GenerateSourceClusterValue cluster) \<le> MaxLabelValueLength"
    by (simp add: GenerateSourceClusterValue_def truncateName_length MaxLabelValueLength_def)
next
  assume "list_all legalChar ftcName"
  then show "list_all legalChar (GenerateFederatedObjectName objectName ftcName)"
    using transformObjectName_legal [of objectName] formatHash_legal [of objectName]
    by (auto simp: GenerateFederatedObjectName_def Let_def legalChar_def [of "CHR ''-''"]
      intro!: truncateName_legal split: prod.splits)
next
  assume "list_all legalChar objectName" "\<not> strContains objectName ''..''"
    and "length objectName + 1 + length ftcName \<le> MaxFederatedObjectNameLength"
  then show "GenerateFederatedObjectName objectName ftcName = objectName @ ''-'' @ ftcName"
    by (simp add: GenerateFederatedObjectName_def transformObjectName_id truncateName_def)
qed

theorem generated_names_witness:
  "GenerateFederatedObjectName ''web'' ''deployments.apps'' = ''web-deployments.apps''"
proof -
  have "list_all legalChar ''web''" "\<not> strContains ''web'' ''..''"
    "length ''web'' + 1 + length ''deployments.apps'' \<le> MaxFederatedObjectNameLength"
    by (simp_all add: legalChar_def less_eq_char_def hasPrefix_def MaxFederatedObjectNameLength_def)
  with generated_names [of "''web''" "''deployments.apps''"] show ?thesis by simp
qed

text \<open>
  The cluster that a unique name was generated for is among the possible clusters of that name,
  for cluster names that are legal DNS subdomains of at most 242 bytes.
\<close>

lemma GetPossibleClusters_finds:
  assumes "list_all legalChar cluster" "\<not> strContains cluster ''..''"
    and "length cluster \<le> MaxFederatedObjectNameLength - MaxHashLength - 1" "cluster \<in> set clusters"
  shows "cluster \<in> set (GetPossibleClusters clusters (GenUniqueName cluster rawName))"
proof -
  let ?full = "cluster @ ''-'' @ rawName"
  have gen: "GenUniqueName cluster rawName = truncateName MaxFederatedObjectNameLength ?full"
    using assms(1,2) by (simp add: GenUniqueName_def GenerateFederatedObjectName_def transformObjectName_id)
  have len: "length cluster \<le> MaxFederatedObjectNameLength - length (formatHash ?full) - 1"
    using assms(3) formatHash_length [of ?full] by (simp add: MaxHashLength_def MaxFederatedObjectNameLength_def)
  have "take (length cluster) (GenUniqueName cluster rawName) = cluster"
    "length cluster \<le> length (GenUniqueName cluster rawName)"
    unfolding gen truncateName_def Let_def using len by (auto simp: take_append min_def)
  then have "possibleCluster (GenUniqueName cluster rawName) cluster"
    by (simp add: possibleCluster_def hasPrefix_def)
  with assms(4) show ?thesis by (simp add: GetPossibleClusters_def)
qed

text \<open>
  For a cluster name of 243 bytes the search can miss: the unique name keeps only 242 bytes of
  it in front of a ten-digit hash, but 243 are compared.
\<close>

lemma GetPossibleClusters_misses:
  "GetPossibleClusters [replicate 243 CHR ''a''] (GenUniqueName (replicate 243 CHR ''a'') ''web-frontend'') = []"
  by code_simp

end
