(* ===== verification/Sync_Controller.thy ===== *)
theory Sync_Controller
  imports Sync_Dispatch Naming
begin

text \<open>
  The sync controller, \<open>pkg/controllers/sync/{controller,accessor}.go\<close>.  The record \<open>syncWorld\<close> holds what one
  reconciliation reads, the listers' contents and the answers of the API servers; a polling loop takes
  its answers from a list of rounds and times out when the list is used up.  A run of the controller
  returns the result for the work queue, the version manager and everything sent to the host and to the
  member clusters; \<open>None\<close> is a panic.  Operations of different clusters commute (\<open>finishOp_commute\<close>), so
  they are run one after the other.
\<close>


section \<open>Model: the world of a reconciliation\<close>

record SyncCluster = FederatedCluster +
  CMeta :: ObjectMeta

record statusRound =
  RoundNow :: int
  RoundUpdateStatus :: "apiError + SyncObject"
  RoundGet :: "apiError + SyncObject"

record syncWorld =
  syEnv :: syncEnv
  syFedObject :: "string \<times> string \<Rightarrow> SyncObject lookup"
  syTemplate :: "SyncObject \<Rightarrow> string + MemberObject"
  syTemplateGVK :: "MemberObject \<Rightarrow> gvk"
  syFTC :: "gvk \<Rightarrow> FederatedTypeConfig option"
  syFedNamespace :: string
  syAllClusters :: "string + SyncCluster list"
  syLister :: "string \<Rightarrow> MemberObject lookup option"
  syLiveGet :: "string \<Rightarrow> apiError + MemberObject"
  syMember :: "string \<Rightarrow> memberAnswers"
  syTimedOut :: bool
  syUpdate :: "SyncObject \<Rightarrow> apiError + SyncObject"
  syPrepareRounds :: "statusRound list"
  syStatusRounds :: "statusRound list"
  syVersionRounds :: "writeRound list"

record syncRun =
  runResult :: Result
  runVersions :: VersionManager
  runObjectWrites :: "SyncObject list"
  runStatusWrites :: "SyncObject list"
  runCalls :: "(string \<times> memberCall) list"

definition quietRun :: "Result \<Rightarrow> VersionManager \<Rightarrow> syncRun" where
  "quietRun result vm = \<lparr>runResult = result, runVersions = vm, runObjectWrites = [], runStatusWrites = [], runCalls = []\<rparr>"

definition FinalizerSyncController :: string where
  "FinalizerSyncController = DefaultPrefix @ ''sync-controller''"

definition FinalizerCascadingDelete :: string where
  "FinalizerCascadingDelete = DefaultPrefix @ ''cascading-delete''"

definition DerivedServiceAnnotation :: string where
  "DerivedServiceAnnotation = DefaultPrefix @ ''derived-service''"

definition DryRunAnnotation :: string where
  "DryRunAnnotation = DefaultPrefix @ ''dry-run''"

definition IsDerivedService :: "(string, string) gomap \<Rightarrow> bool" where
  "IsDerivedService annotations \<longleftrightarrow> map_of annotations DerivedServiceAnnotation \<noteq> None"

definition requeueAfter :: "int64 \<Rightarrow> Result" where
  "requeueAfter delay = \<lparr>ResultSuccess = False, RequeueAfter = Some delay, Backoff = False\<rparr>"

definition recheckAfterDispatchDelay :: int64 where
  "recheckAfterDispatchDelay = 10000000000"

definition ensureDeletionRecheckDelay :: int64 where
  "ensureDeletionRecheckDelay = 5000000000"

definition cascadingDeletionRecheckDelay :: int64 where
  "cascadingDeletionRecheckDelay = 10000000000"


section \<open>Model: the accessor\<close>

definition isSystemNamespace :: "syncWorld \<Rightarrow> string \<Rightarrow> bool" where
  "isSystemNamespace w namespace \<longleftrightarrow> namespace \<in> {''kube-system'', ''kube-public'', ''default'', syFedNamespace w}"

definition FederatedResource :: "syncWorld \<Rightarrow> string \<times> string \<Rightarrow> string + federatedResource option" where
  "FederatedResource w qualifiedName =
     (case syFedObject w qualifiedName of
        NotFound \<Rightarrow> Inr None
      | LookupFailed \<Rightarrow> Inl ''failed to get object''
      | Found federatedObject \<Rightarrow>
          (case syTemplate w federatedObject of
             Inl err \<Rightarrow> Inl (''failed to unmarshal template: '' @ err)
           | Inr template \<Rightarrow>
               let targetGVK = syTemplateGVK w template in
               if targetGVK = NamespaceGVK \<and> isSystemNamespace w (MName template) then Inr None
               else case syFTC w targetGVK of
                 None \<Rightarrow> Inr None
               | Some typeConfig \<Rightarrow> Inr (Some \<lparr>frTypeConfig = typeConfig, frFederatedName = qualifiedName,
                   frTargetName = (MNamespace template, MName template), frObject = federatedObject, frTemplate = template\<rparr>)))"

definition GetJoinedClusters :: "syncWorld \<Rightarrow> string + SyncCluster list" where
  "GetJoinedClusters w =
     map_sum (\<lambda>err. ''failed to list clusters: '' @ err) (filter (\<lambda>c. IsClusterJoined (CConditions c))) (syAllClusters w)"

definition GetClusterObject :: "syncWorld \<Rightarrow> string \<Rightarrow> gvk \<Rightarrow> string + MemberObject option" where
  "GetClusterObject w cluster g =
     (case syLister w cluster of
        Some (Found clusterObj) \<Rightarrow> Inr (Some clusterObj)
      | Some NotFound \<Rightarrow> Inr None
      | Some LookupFailed \<Rightarrow> Inl ''failed to get object''
      | None \<Rightarrow>
          if \<not> HasClient (syMember w cluster) then Inl ''cluster client does not exist for cluster''
          else if syFTC w g = None then Inl ''FTC does not exist for GVK''
          else case syLiveGet w cluster of
            Inl err \<Rightarrow> if err = IsNotFound \<or> err = IsNoMatch then Inr None else Inl ''failed to get object with client''
          | Inr clusterObj \<Rightarrow> Inr (if HasManagedLabel clusterObj then Some clusterObj else None))"


section \<open>Model: the status of the federated object\<close>

fun setStatusLoop ::
    "statusRound list \<Rightarrow> SyncObject \<Rightarrow> string \<Rightarrow> CollectedPropagationStatus \<Rightarrow> SyncObject list \<times> bool" where
  "setStatusLoop [] obj reason collectedStatus = ([], False)"
| "setStatusLoop (rnd # rounds) obj reason collectedStatus =
     (let (status, updateRequired) = update_status (RoundNow rnd) (OStatus obj) (OGeneration obj) reason collectedStatus;
          obj' = obj\<lparr>OStatus := status\<rparr> in
      if \<not> updateRequired then ([], True)
      else case RoundUpdateStatus rnd of
        Inr _ \<Rightarrow> ([obj'], True)
      | Inl IsConflict \<Rightarrow>
          (case RoundGet rnd of
             Inl err \<Rightarrow> ([obj'], False)
           | Inr fresh \<Rightarrow>
               let (writes, ok) = setStatusLoop rounds fresh reason collectedStatus in (obj' # writes, ok))
      | Inl err \<Rightarrow> ([obj'], False))"

definition setFederatedStatus ::
    "syncWorld \<Rightarrow> SyncObject \<Rightarrow> string \<Rightarrow> CollectedPropagationStatus option \<Rightarrow> SyncObject list \<times> Result" where
  "setFederatedStatus w obj reason collectedStatus =
     (let collected = (case collectedStatus of
            None \<Rightarrow> \<lparr>StatusMap = [], GenerationMap = [], ResourcesUpdated = False\<rparr> | Some cs \<Rightarrow> cs);
          (writes, ok) = setStatusLoop (syStatusRounds w) obj reason collected
      in (writes, if ok then StatusAllOK else StatusError))"


section \<open>Model: preparing\<close>

text \<open>The loop of \<open>prepareToSync\<close> that records the clusters to create in; it returns the stored object.\<close>

fun pendingCreateLoop ::
    "statusRound list \<Rightarrow> SyncObject \<Rightarrow> PropagationStatus list \<Rightarrow> SyncObject list \<times> SyncObject option" where
  "pendingCreateLoop [] obj clusters = ([], None)"
| "pendingCreateLoop (rnd # rounds) obj clusters =
     (let obj' = obj\<lparr>OStatus := (OStatus obj)\<lparr>StatusClusters := clusters\<rparr>\<rparr> in
      case RoundUpdateStatus rnd of
        Inr stored \<Rightarrow> ([obj'], Some stored)
      | Inl IsConflict \<Rightarrow>
          (case RoundGet rnd of
             Inl err \<Rightarrow> ([obj'], None)
           | Inr fresh \<Rightarrow> let (writes, r) = pendingCreateLoop rounds fresh clusters in (obj' # writes, r))
      | Inl err \<Rightarrow> ([obj'], None))"

definition clusterNamed :: "SyncCluster list \<Rightarrow> string \<Rightarrow> SyncCluster option" where
  "clusterNamed clusters name = find (\<lambda>c. CName c = name) clusters"

definition syncedClusters :: "SyncCluster list \<Rightarrow> SyncObject \<Rightarrow> SyncCluster list" where
  "syncedClusters clusters obj = List.map_filter (\<lambda>p. clusterNamed clusters (PSCluster p)) (StatusClusters (OStatus obj))"

text \<open>A failure carries the status writes; a success the clusters, the selected names and the object.\<close>

definition prepareToSync ::
    "syncWorld \<Rightarrow> federatedResource \<Rightarrow> bool
     \<Rightarrow> SyncObject list \<times> (SyncCluster list \<times> string list \<times> SyncObject) option" where
  "prepareToSync w r isCentralizedHPA =
     (case GetJoinedClusters w of
        Inl err \<Rightarrow> (fst (setFederatedStatus w (frObject r) ''ClusterRetrievalFailed'' None), None)
      | Inr clusters \<Rightarrow>
          let obj = frObject r;
              selected = (if isCentralizedHPA then [] else computePlacement obj (map CName clusters));
              pendingCreateClusters = filter (\<lambda>c. c \<notin> PSCluster ` set (StatusClusters (OStatus obj))) selected;
              requireSync = syncedClusters clusters obj in
          if pendingCreateClusters = [] then ([], Some (requireSync, selected, obj))
          else
            let created = filter (\<lambda>c. CDeletionTimestamp c = None) (List.map_filter (clusterNamed clusters) pendingCreateClusters);
                statuses = StatusClusters (OStatus obj) @
                  map (\<lambda>c. \<lparr>PSCluster = CName c, PSStatus = ''PendingCreate'', LastObservedGeneration = 0\<rparr>) created
            in (case pendingCreateLoop (syPrepareRounds w) obj statuses of
                  (writes, None) \<Rightarrow> (writes, None)
                | (writes, Some stored) \<Rightarrow> (writes, Some (requireSync @ created, selected, stored))))"


section \<open>Model: synchronising\<close>

datatype syncAction = Skip | Report PropagationStatusType bool | Remove MemberObject | Create | Update MemberObject

definition removeFromCluster :: "SyncObject \<Rightarrow> MemberObject \<Rightarrow> bool \<Rightarrow> memberAnswers \<Rightarrow> opOutcome option" where
  "removeFromCluster fedObj clusterObj respectOrphaningBehavior answers =
     (if \<not> respectOrphaningBehavior then deleteOp clusterObj answers
      else if ShouldBeOrphaned fedObj clusterObj then removeManagedLabelOp clusterObj answers
      else deleteOp clusterObj answers)"

text \<open>\<open>syncToClusters\<close>: what is done for one cluster.  The flag of a report asks for a recheck.\<close>

definition clusterAction :: "syncWorld \<Rightarrow> federatedResource \<Rightarrow> string list \<Rightarrow> SyncCluster \<Rightarrow> syncAction" where
  "clusterAction w r selected cluster =
     (let shouldBeDeleted = (CName cluster \<notin> set selected);
          terminating = (CDeletionTimestamp cluster \<noteq> None);
          isCascadingDeletionTriggered = (terminating \<and> IsCascadingDeleteEnabled (CMeta cluster)) in
      if \<not> IsClusterReady (CConditions cluster) then (if shouldBeDeleted then Skip else Report ''ClusterNotReady'' False)
      else case GetClusterObject w (CName cluster) (TargetGVK r) of
        Inl err \<Rightarrow> Report ''CachedRetrievalFailed'' False
      | Inr cached \<Rightarrow>
          let clusterObj = (case cached of
                None \<Rightarrow> None
              | Some o1 \<Rightarrow>
                  if IsDerivedService (MAnnotations (frObject r)) \<noteq> IsDerivedService (MAnnotations o1) then None else Some o1) in
          if isCascadingDeletionTriggered then
            (case clusterObj of
               Some o1 \<Rightarrow> if UDeletionTimestamp o1 = None then Report ''WaitingForCascadingDeletion'' False else Skip
             | None \<Rightarrow> Skip)
          else if shouldBeDeleted then
            (case clusterObj of
               None \<Rightarrow> Skip
             | Some o1 \<Rightarrow>
                 if UDeletionTimestamp o1 \<noteq> None then Report ''WaitingForRemoval'' False
                 else if terminating then Skip
                 else Remove o1)
          else if terminating then Report ''ClusterTerminating'' False
          else if \<not> HasFinalizer (CMeta cluster) FinalizerCascadingDelete then Report ''FinalizerCheckFailed'' True
          else (case clusterObj of None \<Rightarrow> Create | Some o1 \<Rightarrow> Update o1))"

definition dispatchAction ::
    "syncWorld \<Rightarrow> VersionManager \<Rightarrow> federatedResource \<Rightarrow> string \<Rightarrow> syncAction \<Rightarrow> dispatcher \<times> bool \<Rightarrow> (dispatcher \<times> bool) option" where
  "dispatchAction w vm r cluster action = (\<lambda>(d, recheck).
     let answers = syMember w cluster in
     case action of
       Skip \<Rightarrow> Some (d, recheck)
     | Report status again \<Rightarrow> Some (RecordStatus cluster status d, recheck \<or> again)
     | Remove o1 \<Rightarrow> map_option (\<lambda>d'. (d', recheck)) (finishOp cluster (removeFromCluster (frObject r) o1 False answers) d)
     | Create \<Rightarrow> map_option (\<lambda>d'. (d', recheck)) (finishOp cluster (createOp (syEnv w) vm r cluster answers) d)
     | Update o1 \<Rightarrow> map_option (\<lambda>d'. (d', recheck)) (finishOp cluster (updateOp (syEnv w) vm r cluster o1 answers) d))"

fun dispatchAll ::
    "syncWorld \<Rightarrow> VersionManager \<Rightarrow> federatedResource \<Rightarrow> string list \<Rightarrow> SyncCluster list \<Rightarrow> dispatcher \<times> bool
     \<Rightarrow> (dispatcher \<times> bool) option" where
  "dispatchAll w vm r selected [] d = Some d"
| "dispatchAll w vm r selected (cluster # clusters) d =
     Option.bind (dispatchAction w vm r (CName cluster) (clusterAction w r selected cluster) d)
       (dispatchAll w vm r selected clusters)"

definition syncToClusters ::
    "syncWorld \<Rightarrow> VersionManager \<Rightarrow> federatedResource \<Rightarrow> SyncCluster list \<Rightarrow> string list \<Rightarrow> syncRun option" where
  "syncToClusters w vm r clusters selected =
     map_option (\<lambda>(d, shouldRecheckAfterDispatch).
       if dInitiated d \<and> syTimedOut w then (quietRun StatusError vm)\<lparr>runCalls := dCalls d\<rparr>
       else
         let (vm', _, _) = Update_versions (syVersionRounds w) vm (versionedResource (syEnv w) r) (sort selected) (dVersionMap d);
             (writes, reconcileStatus) = setFederatedStatus w (frObject r) AggregateSuccess (Some (CollectedStatus d));
             result = (if reconcileStatus \<noteq> StatusAllOK then reconcileStatus
               else if \<not> dOk d then StatusError
               else if shouldRecheckAfterDispatch then requeueAfter recheckAfterDispatchDelay
               else StatusAllOK)
         in \<lparr>runResult = result, runVersions = vm', runObjectWrites = [], runStatusWrites = writes, runCalls = dCalls d\<rparr>)
       (dispatchAll w vm r selected clusters (NewManagedDispatcher, False))"


section \<open>Model: deletion of a federated object\<close>

record deletionState =
  delOk :: bool
  delRemaining :: "string list"
  delNoNeed :: "string list"
  delUnready :: "string list"
  delFailed :: "string list"
  delCalls :: "(string \<times> memberCall) list"

definition deletionStep :: "syncWorld \<Rightarrow> federatedResource \<Rightarrow> SyncCluster \<Rightarrow> deletionState \<Rightarrow> deletionState option" where
  "deletionStep w r cluster s =
     (let name = CName cluster in
      if \<not> IsClusterReady (CConditions cluster) then Some (s\<lparr>delUnready := delUnready s @ [name]\<rparr>)
      else case GetClusterObject w name (TargetGVK r) of
        Inl err \<Rightarrow> Some (s\<lparr>delFailed := delFailed s @ [name]\<rparr>)
      | Inr None \<Rightarrow> Some (s\<lparr>delNoNeed := delNoNeed s @ [name]\<rparr>)
      | Inr (Some clusterObj) \<Rightarrow>
          if IsDerivedService (MAnnotations (frObject r)) \<noteq> IsDerivedService (MAnnotations clusterObj)
          then Some (s\<lparr>delNoNeed := delNoNeed s @ [name]\<rparr>)
          else map_option (\<lambda>o1. s\<lparr>delRemaining := delRemaining s @ [name], delOk := (delOk s \<and> OpOk o1),
              delCalls := delCalls s @ map (Pair name) (OpCalls o1)\<rparr>)
            (removeFromCluster (frObject r) clusterObj True (syMember w name)))"

fun deletionLoop :: "syncWorld \<Rightarrow> federatedResource \<Rightarrow> SyncCluster list \<Rightarrow> deletionState \<Rightarrow> deletionState option" where
  "deletionLoop w r [] s = Some s"
| "deletionLoop w r (cluster # clusters) s = Option.bind (deletionStep w r cluster s) (deletionLoop w r clusters)"

definition handleDeletionInClusters ::
    "syncWorld \<Rightarrow> federatedResource \<Rightarrow> (deletionState \<times> string option) option" where
  "handleDeletionInClusters w r =
     (let start = \<lparr>delOk = True, delRemaining = [], delNoNeed = [], delUnready = [], delFailed = [], delCalls = []\<rparr> in
      case GetJoinedClusters w of
        Inl err \<Rightarrow> Some (start, Some (''failed to get the list of joined clusters: '' @ err))
      | Inr clusters \<Rightarrow>
          map_option (\<lambda>s. (s,
            if delRemaining s \<noteq> [] \<and> syTimedOut w then Some ''Failed to finish operations''
            else if delFailed s \<noteq> [] then Some ''failed to retrieve a managed resource''
            else if delUnready s \<noteq> [] then Some ''clusters were not ready''
            else None)) (deletionLoop w r (syncedClusters clusters (frObject r)) start))"

definition checkObjectRemovedFromAllClusters :: "syncWorld \<Rightarrow> federatedResource \<Rightarrow> string list \<Rightarrow> string option" where
  "checkObjectRemovedFromAllClusters w r clustersNoNeedHandleDeletion =
     (case GetJoinedClusters w of
        Inl err \<Rightarrow> Some (''failed to get the list of joined clusters: '' @ err)
      | Inr clusters \<Rightarrow>
          let synced = syncedClusters clusters (frObject r);
              unready = filter (\<lambda>c. \<not> IsClusterReady (CConditions c)) synced;
              checked = filter (\<lambda>c. IsClusterReady (CConditions c) \<and> CName c \<notin> set clustersNoNeedHandleDeletion) synced
          in if checked \<noteq> [] \<and> syTimedOut w then Some ''Failed to finish operations''
             else if unready \<noteq> [] then Some ''clusters were not ready''
             else if \<not> list_all (\<lambda>c. checkRemovedOrUnlabeled (syMember w (CName c))) checked then Some ''one or more checks failed''
             else None)"

text \<open>The second component of a result asks for a recheck.\<close>

definition ensureRemovalFromClusters ::
    "syncWorld \<Rightarrow> federatedResource \<Rightarrow> ((string \<times> memberCall) list \<times> (string + bool)) option" where
  "ensureRemovalFromClusters w r =
     map_option (\<lambda>(s, err). (delCalls s,
       case err of
         Some e \<Rightarrow> Inl e
       | None \<Rightarrow>
           if \<not> delOk s then Inl ''failed to remove managed resources from one or more clusters.''
           else if delRemaining s \<noteq> [] then Inr True
           else case checkObjectRemovedFromAllClusters w r (delNoNeed s) of
             Some e \<Rightarrow> Inl e
           | None \<Rightarrow> Inr False)) (handleDeletionInClusters w r)"

definition removeFinalizer :: "syncWorld \<Rightarrow> SyncObject \<Rightarrow> SyncObject list \<times> (apiError + SyncObject)" where
  "removeFinalizer w obj =
     (let (obj', isUpdated) = RemoveFinalizers obj [FinalizerSyncController] in
      if \<not> isUpdated then ([], Inr obj') else ([obj'], syUpdate w obj'))"

definition handleTerminatingFederatedResource ::
    "syncWorld \<Rightarrow> VersionManager \<Rightarrow> federatedResource \<Rightarrow> syncRun option" where
  "handleTerminatingFederatedResource w vm r =
     (let vm' = Delete_versions vm (frFederatedName r) in
      if \<not> HasFinalizer (frObject r) FinalizerSyncController then Some (quietRun StatusAllOK vm')
      else map_option (\<lambda>(calls, removal).
        (case removal of
           Inl err \<Rightarrow> (quietRun StatusError vm')\<lparr>runCalls := calls\<rparr>
         | Inr True \<Rightarrow> (quietRun (requeueAfter ensureDeletionRecheckDelay) vm')\<lparr>runCalls := calls\<rparr>
         | Inr False \<Rightarrow>
             let (writes, updated) = removeFinalizer w (frObject r) in
             \<lparr>runResult = (case updated of
                      Inr _ \<Rightarrow> StatusAllOK | Inl IsConflict \<Rightarrow> StatusConflict | Inl err \<Rightarrow> StatusError),
              runVersions = vm', runObjectWrites = writes, runStatusWrites = [], runCalls = calls\<rparr>))
        (ensureRemovalFromClusters w r))"


section \<open>Model: reconciliation\<close>

text \<open>\<open>ensureFinalizer\<close>: the object with the finalizer as it is stored.\<close>

definition ensureFinalizer :: "syncWorld \<Rightarrow> SyncObject \<Rightarrow> SyncObject list \<times> (apiError + SyncObject)" where
  "ensureFinalizer w obj =
     (let (obj', isUpdated) = AddFinalizers obj [FinalizerSyncController] in
      if \<not> isUpdated then ([], Inr obj') else ([obj'], syUpdate w obj'))"

definition afterFinalizer :: "syncWorld \<Rightarrow> VersionManager \<Rightarrow> federatedResource \<Rightarrow> bool \<Rightarrow> syncRun option" where
  "afterFinalizer w vm r isCentralizedHPA =
     (if mget [] (MAnnotations (frObject r)) DryRunAnnotation = AnnotationValueTrue \<and> StatusClusters (OStatus (frObject r)) = []
      then Some (quietRun StatusAllOK vm)
      else case prepareToSync w r isCentralizedHPA of
        (writes, None) \<Rightarrow> Some ((quietRun StatusError vm)\<lparr>runStatusWrites := writes\<rparr>)
      | (writes, Some (clustersToSync, selectedClusters, obj)) \<Rightarrow>
          map_option (\<lambda>run. run\<lparr>runStatusWrites := writes @ runStatusWrites run\<rparr>)
            (syncToClusters w vm (r\<lparr>frObject := obj\<rparr>) clustersToSync selectedClusters))"

definition reconcileSync :: "syncWorld \<Rightarrow> VersionManager \<Rightarrow> string \<times> string \<Rightarrow> syncRun option" where
  "reconcileSync w vm federatedName =
     (case FederatedResource w federatedName of
        Inl err \<Rightarrow> Some (quietRun StatusError vm)
      | Inr None \<Rightarrow> Some (quietRun StatusAllOK vm)
      | Inr (Some r) \<Rightarrow>
          if ODeletionTimestamp (frObject r) \<noteq> None then handleTerminatingFederatedResource w vm r
          else case GetPendingControllers (frObject r) of
            Inl err \<Rightarrow> Some (quietRun StatusError vm)
          | Inr pendingControllers \<Rightarrow>
     (case isCentralizedHPAObject (syEnv w) (frObject r) of
        Inl err \<Rightarrow> Some (quietRun StatusError vm)
      | Inr hpa \<Rightarrow>
          if pendingControllers \<noteq> [] \<and> \<not> hpa then Some (quietRun StatusAllOK vm)
          else case ensureFinalizer w (frObject r) of
            (writes, Inl err) \<Rightarrow>
              Some ((quietRun (if err = IsConflict then StatusConflict else StatusError) vm)\<lparr>runObjectWrites := writes\<rparr>)
          | (writes, Inr obj) \<Rightarrow>
              map_option (\<lambda>run. run\<lparr>runObjectWrites := writes @ runObjectWrites run\<rparr>)
                (afterFinalizer w vm (r\<lparr>frObject := obj\<rparr>) hpa)))"


section \<open>Model: cascading deletion\<close>

record clusterRound =
  RoundGetCluster :: "apiError + SyncCluster"
  RoundUpdateCluster :: "apiError option"

record objectListing =
  ListerExists :: bool
  ListerSynced :: bool
  CachedObjects :: "string + MemberObject list"
  ListClient :: bool
  LiveObjects :: "apiError + MemberObject list"

record cascadeWorld =
  cwCluster :: "string \<Rightarrow> SyncCluster lookup"
  cwRounds :: "clusterRound list"
  cwFTCs :: "string + FederatedTypeConfig list"
  cwListing :: "FederatedTypeConfig \<Rightarrow> objectListing"
  cwFedResource :: "string \<times> string \<Rightarrow> string + federatedResource option"
  cwAnswers :: "FederatedTypeConfig \<Rightarrow> MemberObject \<Rightarrow> memberAnswers"
  cwTimedOut :: "FederatedTypeConfig \<Rightarrow> MemberObject \<Rightarrow> bool"

record cascadeRun =
  cascadeResult :: Result
  cascadeWrites :: "SyncCluster list"
  cascadeCalls :: "(gvk \<times> MemberObject \<times> memberCall) list"

text \<open>\<open>retry.RetryOnConflict\<close>; the last error is a conflict when the attempts are used up.\<close>

fun retryOnConflict ::
    "(SyncCluster \<Rightarrow> SyncCluster \<times> bool) \<Rightarrow> clusterRound list \<Rightarrow> SyncCluster list \<times> apiError option" where
  "retryOnConflict change [] = ([], Some IsConflict)"
| "retryOnConflict change (rnd # rounds) =
     (case RoundGetCluster rnd of
        Inl err \<Rightarrow> if err = IsConflict then retryOnConflict change rounds else ([], Some err)
      | Inr cluster \<Rightarrow>
          let (cluster', isUpdated) = change cluster in
          if \<not> isUpdated then ([], None)
          else case RoundUpdateCluster rnd of
            None \<Rightarrow> ([cluster'], None)
          | Some err \<Rightarrow>
              if err = IsConflict then let (writes, e) = retryOnConflict change rounds in (cluster' # writes, e)
              else ([cluster'], Some err))"

definition ensureClusterFinalizer :: "cascadeWorld \<Rightarrow> SyncCluster list \<times> apiError option" where
  "ensureClusterFinalizer w = retryOnConflict (\<lambda>cluster.
     let (meta, isUpdated) = AddFinalizers (CMeta cluster) [FinalizerCascadingDelete] in (cluster\<lparr>CMeta := meta\<rparr>, isUpdated)) (cwRounds w)"

definition removeClusterFinalizer :: "cascadeWorld \<Rightarrow> SyncCluster list \<times> apiError option" where
  "removeClusterFinalizer w = retryOnConflict (\<lambda>cluster.
     let (meta, isUpdated) = RemoveFinalizers (CMeta cluster) [FinalizerCascadingDelete] in (cluster\<lparr>CMeta := meta\<rparr>, isUpdated)) (cwRounds w)"

definition listManagedClusterObjects :: "objectListing \<Rightarrow> string + MemberObject list" where
  "listManagedClusterObjects l =
     (if \<not> ListerExists l then Inl ''lister of cluster does not exist''
      else if ListerSynced l then map_sum (\<lambda>err. ''failed to list cluster objects: '' @ err) id (CachedObjects l)
      else if \<not> ListClient l then Inl ''client does not exist for cluster''
      else case LiveObjects l of
        Inl err \<Rightarrow> if err = IsNoMatch \<or> err = IsNotFound then Inr [] else Inl ''failed to list objects''
      | Inr objs \<Rightarrow> Inr objs)"

definition federatedNameOf :: "FederatedTypeConfig \<Rightarrow> MemberObject \<Rightarrow> string \<times> string" where
  "federatedNameOf ftc clusterObj =
     (MNamespace clusterObj,
      if IsDerivedService (MAnnotations clusterObj) then GenerateDerivedSvcFedObjName (MName clusterObj)
      else GenerateFederatedObjectName (MName clusterObj) (FTCName ftc))"

definition cascadeObject :: "cascadeWorld \<Rightarrow> FederatedTypeConfig \<Rightarrow> MemberObject \<Rightarrow> (bool \<times> memberCall list) option" where
  "cascadeObject w ftc clusterObj =
     (case cwFedResource w (federatedNameOf ftc clusterObj) of
        Inl err \<Rightarrow> Some (False, [])
      | Inr None \<Rightarrow> Some (False, [])
      | Inr (Some r) \<Rightarrow>
          map_option (\<lambda>o1. (OpOk o1 \<and> \<not> cwTimedOut w ftc clusterObj, OpCalls o1))
            (removeFromCluster (frObject r) clusterObj True (cwAnswers w ftc clusterObj)))"

fun cascadeObjects ::
    "cascadeWorld \<Rightarrow> FederatedTypeConfig \<Rightarrow> MemberObject list \<Rightarrow> (bool \<times> (gvk \<times> MemberObject \<times> memberCall) list) option" where
  "cascadeObjects w ftc [] = Some (True, [])"
| "cascadeObjects w ftc (clusterObj # clusterObjs) =
     Option.bind (cascadeObject w ftc clusterObj) (\<lambda>(ok, calls).
       map_option (\<lambda>(oks, rest). (ok \<and> oks, map (\<lambda>c. (GetSourceTypeGVK ftc, clusterObj, c)) calls @ rest)) (cascadeObjects w ftc clusterObjs))"

text \<open>\<open>False\<close> stands for an entry in the map of the types whose objects remain.\<close>

definition cascadingDeletionForFTC ::
    "cascadeWorld \<Rightarrow> FederatedTypeConfig \<Rightarrow> (bool \<times> (gvk \<times> MemberObject \<times> memberCall) list) option" where
  "cascadingDeletionForFTC w ftc =
     (case listManagedClusterObjects (cwListing w ftc) of
        Inl err \<Rightarrow> Some (False, [])
      | Inr clusterObjs \<Rightarrow> cascadeObjects w ftc clusterObjs)"

fun cascadeFTCs ::
    "cascadeWorld \<Rightarrow> FederatedTypeConfig list \<Rightarrow> (bool \<times> (gvk \<times> MemberObject \<times> memberCall) list) option" where
  "cascadeFTCs w [] = Some (True, [])"
| "cascadeFTCs w (ftc # ftcs) =
     Option.bind (cascadingDeletionForFTC w ftc) (\<lambda>(ok, calls).
       map_option (\<lambda>(oks, rest). (ok \<and> oks, calls @ rest)) (cascadeFTCs w ftcs))"

definition finalizerRun :: "SyncCluster list \<times> apiError option \<Rightarrow> bool \<Rightarrow> (gvk \<times> MemberObject \<times> memberCall) list \<Rightarrow> cascadeRun" where
  "finalizerRun r conflictKnown calls = \<lparr>cascadeResult = (case snd r of
       None \<Rightarrow> StatusAllOK
     | Some err \<Rightarrow> if conflictKnown \<and> err = IsConflict then StatusConflict else StatusError),
     cascadeWrites = fst r, cascadeCalls = calls\<rparr>"

definition reconcileClusterForCascadingDeletion :: "cascadeWorld \<Rightarrow> string \<Rightarrow> cascadeRun option" where
  "reconcileClusterForCascadingDeletion w name =
     (case cwCluster w name of
        NotFound \<Rightarrow> Some \<lparr>cascadeResult = StatusAllOK, cascadeWrites = [], cascadeCalls = []\<rparr>
      | LookupFailed \<Rightarrow> Some \<lparr>cascadeResult = StatusError, cascadeWrites = [], cascadeCalls = []\<rparr>
      | Found cluster \<Rightarrow>
          if CDeletionTimestamp cluster = None then Some (finalizerRun (ensureClusterFinalizer w) True [])
          else if \<not> IsClusterJoined (CConditions cluster) \<or> \<not> IsCascadingDeleteEnabled (CMeta cluster)
          then Some (finalizerRun (removeClusterFinalizer w) True [])
          else if \<not> IsClusterReady (CConditions cluster)
          then Some \<lparr>cascadeResult = requeueAfter cascadingDeletionRecheckDelay, cascadeWrites = [], cascadeCalls = []\<rparr>
          else case cwFTCs w of
            Inl err \<Rightarrow> Some \<lparr>cascadeResult = StatusError, cascadeWrites = [], cascadeCalls = []\<rparr>
          | Inr ftcs \<Rightarrow>
              map_option (\<lambda>(ok, calls).
                if \<not> ok then \<lparr>cascadeResult = requeueAfter cascadingDeletionRecheckDelay, cascadeWrites = [], cascadeCalls = calls\<rparr>
                else finalizerRun (removeClusterFinalizer w) False calls) (cascadeFTCs w ftcs))"


section \<open>Model: enqueueing\<close>

text \<open>The predicates of the cluster event handlers; \<open>None\<close> is a nil cluster.\<close>

definition cascadeOnClusterEvent :: "SyncCluster option \<Rightarrow> SyncCluster option \<Rightarrow> bool" where
  "cascadeOnClusterEvent oldCluster newCluster =
     (case oldCluster of
        None \<Rightarrow> True
      | Some old \<Rightarrow> (case newCluster of
            None \<Rightarrow> False | Some new \<Rightarrow> CDeletionTimestamp old = None \<and> CDeletionTimestamp new \<noteq> None))"

definition becameReady :: "SyncCluster option \<Rightarrow> SyncCluster option \<Rightarrow> bool" where
  "becameReady oldCluster newCluster \<longleftrightarrow>
     (case newCluster of None \<Rightarrow> False | Some new \<Rightarrow> IsClusterReady (CConditions new)) \<and>
     (case oldCluster of None \<Rightarrow> True | Some old \<Rightarrow> \<not> IsClusterReady (CConditions old))"

definition becameUnready :: "SyncCluster option \<Rightarrow> SyncCluster option \<Rightarrow> bool" where
  "becameUnready oldCluster newCluster =
     (case newCluster of
        None \<Rightarrow> True
      | Some new \<Rightarrow>
          if IsClusterReady (CConditions new) then False
          else case oldCluster of None \<Rightarrow> False | Some old \<Rightarrow> IsClusterReady (CConditions old))"

definition startsTerminating :: "SyncCluster option \<Rightarrow> SyncCluster option \<Rightarrow> bool" where
  "startsTerminating oldCluster newCluster \<longleftrightarrow>
     (case newCluster of None \<Rightarrow> False | Some new \<Rightarrow> CDeletionTimestamp new \<noteq> None) \<and>
     (case oldCluster of None \<Rightarrow> True | Some old \<Rightarrow> CDeletionTimestamp old = None)"

text \<open>\<open>VisitFederatedResources\<close> skips a lister that fails.\<close>

definition visitFederatedResources :: "string + SyncObject list \<Rightarrow> string + SyncObject list \<Rightarrow> SyncObject list" where
  "visitFederatedResources fedObjects clusterFedObjects = case_sum (\<lambda>_. []) id fedObjects @ case_sum (\<lambda>_. []) id clusterFedObjects"

definition enqueueAllObjects :: "string + SyncObject list \<Rightarrow> string + SyncObject list \<Rightarrow> (string \<times> string) list" where
  "enqueueAllObjects fedObjects clusterFedObjects =
     map (\<lambda>obj. (MNamespace obj, MName obj)) (visitFederatedResources fedObjects clusterFedObjects)"

definition enqueueForGVK :: "apimachinery \<Rightarrow> gvk \<Rightarrow> string + SyncObject list \<Rightarrow> string + SyncObject list \<Rightarrow> (string \<times> string) list" where
  "enqueueForGVK k8s g fedObjects clusterFedObjects =
     map (\<lambda>obj. (MNamespace obj, MName obj)) (filter (\<lambda>obj. case GetTemplateMetadata k8s obj of
         Inl err \<Rightarrow> False | Inr meta \<Rightarrow> TMGroupVersionKind meta = g) (visitFederatedResources fedObjects clusterFedObjects))"


section \<open>Statement vocabulary\<close>

text \<open>The object of a cluster that belongs to the resource, as the controller sees it.\<close>

definition ownObject :: "syncWorld \<Rightarrow> federatedResource \<Rightarrow> string \<Rightarrow> MemberObject option" where
  "ownObject w r c =
     (case GetClusterObject w c (TargetGVK r) of
        Inr (Some o1) \<Rightarrow> if IsDerivedService (MAnnotations (frObject r)) \<noteq> IsDerivedService (MAnnotations o1) then None else Some o1
      | _ \<Rightarrow> None)"

definition hasLabel :: "memberCall \<Rightarrow> bool" where
  "hasLabel call = (case call of CreateObject x \<Rightarrow> HasManagedLabel x | UpdateObject x \<Rightarrow> HasManagedLabel x | _ \<Rightarrow> True)"

definition isCreate :: "memberCall \<Rightarrow> bool" where
  "isCreate call = (case call of CreateObject x \<Rightarrow> True | _ \<Rightarrow> False)"

text \<open>The requests that a cluster may get.\<close>

definition allowedCall :: "syncWorld \<Rightarrow> federatedResource \<Rightarrow> string list \<Rightarrow> SyncCluster \<Rightarrow> memberCall \<Rightarrow> bool" where
  "allowedCall w r selected cluster call \<longleftrightarrow>
     IsClusterReady (CConditions cluster) \<and> CDeletionTimestamp cluster = None \<and>
     (if CName cluster \<in> set selected
      then HasFinalizer (CMeta cluster) FinalizerCascadingDelete \<and> call \<noteq> DeleteObject \<and> hasLabel call \<and>
        (isCreate call \<longrightarrow> ownObject w r (CName cluster) = None)
      else (case ownObject w r (CName cluster) of
          None \<Rightarrow> False
        | Some o1 \<Rightarrow> UDeletionTimestamp o1 = None \<and> (call = DeleteObject \<or> call = UpdateObject (fst (removeRetainObjectFinalizer o1)))))"

text \<open>The caches show the object in no cluster of the status.\<close>

definition goneFromCaches :: "syncWorld \<Rightarrow> federatedResource \<Rightarrow> SyncCluster list \<Rightarrow> bool" where
  "goneFromCaches w r clusters \<longleftrightarrow> list_all (\<lambda>c. IsClusterReady (CConditions c) \<and>
     (case GetClusterObject w (CName c) (TargetGVK r) of Inl err \<Rightarrow> False | Inr _ \<Rightarrow> ownObject w r (CName c) = None)) clusters"

text \<open>A removal of an object: it is deleted, or kept without the label when it is to be orphaned.\<close>

definition removalCalls :: "SyncObject \<Rightarrow> MemberObject \<Rightarrow> memberCall set" where
  "removalCalls fedObj clusterObj =
     (if ShouldBeOrphaned fedObj clusterObj then {UpdateObject (fst (removeRetainObjectFinalizer (RemoveManagedLabel clusterObj)))}
      else {DeleteObject, UpdateObject (fst (removeRetainObjectFinalizer clusterObj))})"

text \<open>What was removed for a type, and the requests that were sent.\<close>

definition removedAll :: "cascadeWorld \<Rightarrow> FederatedTypeConfig \<Rightarrow> MemberObject list \<Rightarrow> bool" where
  "removedAll w ftc objs \<longleftrightarrow> (\<forall>o1 \<in> set objs. \<exists>r out. cwFedResource w (federatedNameOf ftc o1) = Inr (Some r) \<and>
     removeFromCluster (frObject r) o1 True (cwAnswers w ftc o1) = Some out \<and> OpOk out)"

definition removalOf :: "cascadeWorld \<Rightarrow> gvk \<times> MemberObject \<times> memberCall \<Rightarrow> bool" where
  "removalOf w = (\<lambda>(g, o1, call). \<exists>ftc r. GetSourceTypeGVK ftc = g \<and> cwFedResource w (federatedNameOf ftc o1) = Inr (Some r) \<and>
     call \<in> removalCalls (frObject r) o1)"

text \<open>The operation that an action starts, if any.\<close>

definition actionOp :: "syncWorld \<Rightarrow> VersionManager \<Rightarrow> federatedResource \<Rightarrow> string \<Rightarrow> syncAction \<Rightarrow> opOutcome option option" where
  "actionOp w vm r c action =
     (case action of
        Remove o1 \<Rightarrow> Some (deleteOp o1 (syMember w c))
      | Create \<Rightarrow> Some (createOp (syEnv w) vm r c (syMember w c))
      | Update o1 \<Rightarrow> Some (updateOp (syEnv w) vm r c o1 (syMember w c))
      | _ \<Rightarrow> None)"

text \<open>Example values for the witnesses.\<close>

definition syncClusterSample :: "string \<Rightarrow> SyncCluster" where
  "syncClusterSample n = FederatedCluster.extend (joinedCluster n) \<lparr>CMeta = sampleMeta\<lparr>MFinalizers := [FinalizerCascadingDelete]\<rparr>\<rparr>"

definition syncWorldSample :: syncWorld where
  "syncWorldSample = \<lparr>syEnv = syncEnvSample, syFedObject = (\<lambda>_. Found syncObjectSample), syTemplate = (\<lambda>_. Inr templateSample),
     syTemplateGVK = (\<lambda>_. (''apps'', ''v1'', ''Deployment'')), syFTC = (\<lambda>_. Some ftcSample), syFedNamespace = ''kube-admiral-system'',
     syAllClusters = Inr [syncClusterSample ''A'', syncClusterSample ''B''],
     syLister = (\<lambda>c. Some (if c = ''B'' then Found clusterSample else NotFound)), syLiveGet = (\<lambda>_. Inl IsNotFound),
     syMember = (\<lambda>_. answersSample), syTimedOut = False, syUpdate = (\<lambda>obj. Inr obj), syPrepareRounds = [], syStatusRounds = [], syVersionRounds = []\<rparr>"

definition terminatingSample :: federatedResource where
  "terminatingSample = resourceSample\<lparr>frObject := syncObjectSample\<lparr>MFinalizers := [FinalizerSyncController],
     OStatus := statusSample\<lparr>StatusClusters := [\<lparr>PSCluster = ''A'', PSStatus = ''OK'', LastObservedGeneration = 1\<rparr>]\<rparr>\<rparr>\<rparr>"

definition cascadeWorldSample :: cascadeWorld where
  "cascadeWorldSample = \<lparr>cwCluster = (\<lambda>n. Found ((syncClusterSample n)\<lparr>CDeletionTimestamp := Some 1,
       CMeta := sampleMeta\<lparr>MAnnotations := [(DefaultPrefix @ ''cascading-delete'', [])], MFinalizers := [FinalizerCascadingDelete]\<rparr>\<rparr>)),
     cwRounds = [\<lparr>RoundGetCluster = Inr (syncClusterSample ''A''), RoundUpdateCluster = None\<rparr>], cwFTCs = Inr [ftcSample],
     cwListing = (\<lambda>_. \<lparr>ListerExists = True, ListerSynced = True, CachedObjects = Inr [clusterSample], ListClient = True, LiveObjects = Inr []\<rparr>),
     cwFedResource = (\<lambda>_. Inr (Some resourceSample)), cwAnswers = (\<lambda>_ _. answersSample), cwTimedOut = (\<lambda>_ _. False)\<rparr>"


section \<open>Dispatching\<close>

lemma clusterAction_cases:
  "clusterAction w r selected cluster = Remove o1 \<Longrightarrow> IsClusterReady (CConditions cluster) \<and> CDeletionTimestamp cluster = None \<and>
     CName cluster \<notin> set selected \<and> ownObject w r (CName cluster) = Some o1 \<and> UDeletionTimestamp o1 = None"
  "clusterAction w r selected cluster = Create \<Longrightarrow> IsClusterReady (CConditions cluster) \<and> CDeletionTimestamp cluster = None \<and>
     CName cluster \<in> set selected \<and> HasFinalizer (CMeta cluster) FinalizerCascadingDelete \<and> ownObject w r (CName cluster) = None"
  "clusterAction w r selected cluster = Update o1 \<Longrightarrow> IsClusterReady (CConditions cluster) \<and> CDeletionTimestamp cluster = None \<and>
     CName cluster \<in> set selected \<and> HasFinalizer (CMeta cluster) FinalizerCascadingDelete \<and> ownObject w r (CName cluster) = Some o1"
  by (auto simp: clusterAction_def ownObject_def Let_def split: if_splits sum.splits option.splits)

text \<open>A selected cluster is reported on, unless its objects wait for the cascading deletion.\<close>

lemma clusterAction_reports:
  assumes "CName cluster \<in> set selected" "CDeletionTimestamp cluster = None \<or> \<not> IsCascadingDeleteEnabled (CMeta cluster)"
  shows "clusterAction w r selected cluster \<noteq> Skip"
  using assms by (auto simp: clusterAction_def Let_def split: if_splits sum.splits option.splits)

lemma clusterAction_Report: "clusterAction w r selected cluster = Report st again \<Longrightarrow> st \<noteq> []"
  by (auto simp: clusterAction_def Let_def split: if_splits sum.splits option.splits)

lemma deleteOp_calls:
  "deleteOp o1 answers = Some out \<Longrightarrow> set (OpCalls out) \<subseteq> {DeleteObject, UpdateObject (fst (removeRetainObjectFinalizer o1))}"
  by (auto simp: deleteOp_def opFailed_def opDone_def Let_def split: if_splits prod.splits sum.splits)

lemma removeManagedLabelOp_calls:
  "removeManagedLabelOp o1 answers = Some out \<Longrightarrow>
     set (OpCalls out) \<subseteq> {UpdateObject (fst (removeRetainObjectFinalizer (RemoveManagedLabel o1)))}"
  by (auto simp: removeManagedLabelOp_def opFailed_def opDone_def Let_def split: if_splits sum.splits)

lemma removeFromCluster_calls:
  "removeFromCluster fedObj o1 True answers = Some out \<Longrightarrow> set (OpCalls out) \<subseteq> removalCalls fedObj o1"
  using deleteOp_calls removeManagedLabelOp_calls by (auto simp: removeFromCluster_def removalCalls_def split: if_splits)

lemma dispatchAction_op:
  "actionOp w vm r c action = Some out \<Longrightarrow>
     dispatchAction w vm r c action (d, b) = map_option (\<lambda>d'. (d', b)) (finishOp c out d)"
  by (auto simp: actionOp_def dispatchAction_def removeFromCluster_def Let_def split: syncAction.splits)

lemma actionOp_allowed:
  assumes "actionOp w vm r (CName cluster) (clusterAction w r selected cluster) = Some (Some out)" "call \<in> set (OpCalls out)"
  shows "allowedCall w r selected cluster call"
proof (cases "clusterAction w r selected cluster")
  case (Remove o1)
  with assms have "deleteOp o1 (syMember w (CName cluster)) = Some out" by (simp add: actionOp_def)
  with deleteOp_calls [of o1 _ out] clusterAction_cases(1) [OF Remove] assms(2) show ?thesis by (auto simp: allowedCall_def)
next
  case Create
  with assms have "createOp (syEnv w) vm r (CName cluster) (syMember w (CName cluster)) = Some out" by (simp add: actionOp_def)
  from createOp_calls [OF this assms(2)] have "call \<noteq> DeleteObject \<and> hasLabel call"
    by (auto simp: hasLabel_def createRequest_def updateRequest_def)
  with clusterAction_cases(2) [OF Create] show ?thesis by (simp add: allowedCall_def)
next
  case (Update o1)
  with assms have "updateOp (syEnv w) vm r (CName cluster) o1 (syMember w (CName cluster)) = Some out" by (simp add: actionOp_def)
  from updateOp_calls [OF this assms(2)] have "call \<noteq> DeleteObject \<and> hasLabel call \<and> \<not> isCreate call"
    by (auto simp: hasLabel_def isCreate_def updateRequest_def)
  with clusterAction_cases(3) [OF Update] show ?thesis by (simp add: allowedCall_def)
qed (use assms in \<open>simp_all add: actionOp_def\<close>)

lemma actionOp_outcome: "actionOp w vm r c action = Some (Some out) \<Longrightarrow> outcome_ok out"
  by (auto simp: actionOp_def outcome_ok_ops split: syncAction.splits)

text \<open>One cluster: its requests are allowed, its status is recorded and the rest is untouched.\<close>

lemma dispatch_step:
  assumes "dispatchAction w vm r (CName cluster) (clusterAction w r selected cluster) (d, b) = Some (d', b')"
    and "dispatcher_ok d" "CName cluster \<notin> set (mkeys (dVersionMap d))"
  shows "dispatcher_ok d'" "set (mkeys (dVersionMap d')) \<subseteq> insert (CName cluster) (set (mkeys (dVersionMap d)))"
    and "set (mkeys (dStatusMap d)) \<subseteq> set (mkeys (dStatusMap d'))"
    and "clusterAction w r selected cluster \<noteq> Skip \<Longrightarrow> CName cluster \<in> set (mkeys (dStatusMap d'))"
    and "\<exists>calls. dCalls d' = dCalls d @ map (Pair (CName cluster)) calls \<and> (\<forall>call \<in> set calls. allowedCall w r selected cluster call)"
proof -
  let ?c = "CName cluster" and ?a = "clusterAction w r selected cluster"
  have "dispatcher_ok d' \<and> set (mkeys (dVersionMap d')) \<subseteq> insert ?c (set (mkeys (dVersionMap d))) \<and>
      set (mkeys (dStatusMap d)) \<subseteq> set (mkeys (dStatusMap d')) \<and> (?a \<noteq> Skip \<longrightarrow> ?c \<in> set (mkeys (dStatusMap d'))) \<and>
      (\<exists>calls. dCalls d' = dCalls d @ map (Pair ?c) calls \<and> (\<forall>call \<in> set calls. allowedCall w r selected cluster call))"
  proof (cases "actionOp w vm r ?c ?a")
    case (Some out)
    then have f: "finishOp ?c out d = Some d'" using assms(1) by (auto simp: dispatchAction_op)
    then obtain o1 where o1: "out = Some o1" by (auto simp: finishOp_def)
    have ok: "outcome_ok o1" using actionOp_outcome Some o1 by blast
    note g = finishOp_Some [OF f, unfolded o1 option.sel]
    have "dispatcher_ok d'" using dispatcher_ok_put [OF assms(2,3) _ _ g(1,2)] ok by (auto simp: outcome_ok_def)
    moreover have "\<forall>call \<in> set (OpCalls o1). allowedCall w r selected cluster call" using actionOp_allowed Some o1 by blast
    ultimately show ?thesis using g by (auto simp: set_mkeys_mput split: option.splits)
  next
    case None
    show ?thesis
    proof (cases ?a)
      case Skip
      with assms show ?thesis by (auto simp: dispatchAction_def)
    next
      case (Report st again)
      with assms have d': "d' = RecordStatus ?c st d" by (auto simp: dispatchAction_def Let_def)
      have "dispatcher_ok d'"
        using dispatcher_ok_put [OF assms(2,3), of st None d'] clusterAction_Report [OF Report] by (simp add: d' RecordStatus_def)
      then show ?thesis by (auto simp: d' RecordStatus_def set_mkeys_mput)
    qed (use None in \<open>simp_all add: actionOp_def\<close>)
  qed
  then show "dispatcher_ok d'" "set (mkeys (dVersionMap d')) \<subseteq> insert ?c (set (mkeys (dVersionMap d)))"
    "set (mkeys (dStatusMap d)) \<subseteq> set (mkeys (dStatusMap d'))" "?a \<noteq> Skip \<Longrightarrow> ?c \<in> set (mkeys (dStatusMap d'))"
    "\<exists>calls. dCalls d' = dCalls d @ map (Pair ?c) calls \<and> (\<forall>call \<in> set calls. allowedCall w r selected cluster call)"
    by blast+
qed

lemma insert_disjoint_subset: "A \<subseteq> insert x B \<Longrightarrow> x \<notin> C \<Longrightarrow> B \<inter> C = {} \<Longrightarrow> A \<inter> C = {}"
  by auto

lemma dispatchAll_spec:
  assumes "dispatchAll w vm r selected clusters (d, b) = Some (d', b')" "dispatcher_ok d" "distinct (map CName clusters)"
    and "set (mkeys (dVersionMap d)) \<inter> CName ` set clusters = {}"
  shows "dispatcher_ok d' \<and> set (mkeys (dStatusMap d)) \<subseteq> set (mkeys (dStatusMap d')) \<and>
     (\<forall>cluster \<in> set clusters. clusterAction w r selected cluster = Skip \<or> CName cluster \<in> set (mkeys (dStatusMap d'))) \<and>
     (\<forall>(c, call) \<in> set (dCalls d'). (c, call) \<in> set (dCalls d) \<or> (\<exists>cluster \<in> set clusters. CName cluster = c \<and> allowedCall w r selected cluster call))"
  using assms
proof (induction clusters arbitrary: d b)
  case (Cons cluster clusters)
  from Cons.prems(1) obtain d1 b1 where s: "dispatchAction w vm r (CName cluster) (clusterAction w r selected cluster) (d, b) = Some (d1, b1)"
      and rest: "dispatchAll w vm r selected clusters (d1, b1) = Some (d', b')"
    by (cases "dispatchAction w vm r (CName cluster) (clusterAction w r selected cluster) (d, b)") auto
  have fresh: "CName cluster \<notin> set (mkeys (dVersionMap d))" using Cons.prems(4) by auto
  note st = dispatch_step [OF s Cons.prems(2) fresh]
  obtain calls where calls: "dCalls d1 = dCalls d @ map (Pair (CName cluster)) calls" "\<forall>call \<in> set calls. allowedCall w r selected cluster call"
    using st(5) by blast
  have "CName cluster \<notin> CName ` set clusters" "set (mkeys (dVersionMap d)) \<inter> CName ` set clusters = {}" using Cons.prems(3,4) by auto
  then have "set (mkeys (dVersionMap d1)) \<inter> CName ` set clusters = {}" by (rule insert_disjoint_subset [OF st(2)])
  from Cons.IH [OF rest st(1) _ this] Cons.prems(3) have IH: "dispatcher_ok d'" "set (mkeys (dStatusMap d1)) \<subseteq> set (mkeys (dStatusMap d'))"
      "\<forall>cluster \<in> set clusters. clusterAction w r selected cluster = Skip \<or> CName cluster \<in> set (mkeys (dStatusMap d'))"
      "\<forall>(c, call) \<in> set (dCalls d'). (c, call) \<in> set (dCalls d1) \<or> (\<exists>cluster \<in> set clusters. CName cluster = c \<and> allowedCall w r selected cluster call)"
    by simp_all
  have "(c, call) \<in> set (dCalls d) \<or> (\<exists>x \<in> set (cluster # clusters). CName x = c \<and> allowedCall w r selected x call)"
    if "(c, call) \<in> set (dCalls d')" for c call
  proof -
    from IH(4) that consider "(c, call) \<in> set (dCalls d1)" | cl where "cl \<in> set clusters" "CName cl = c" "allowedCall w r selected cl call" by blast
    then show ?thesis using calls by cases auto
  qed
  then show ?case using IH(1-3) st(3,4) by auto
qed simp



section \<open>Deleting a federated object\<close>

lemma ownObject_eq:
  "GetClusterObject w c (TargetGVK r) = Inr cached \<Longrightarrow> ownObject w r c =
     (case cached of None \<Rightarrow> None | Some o1 \<Rightarrow>
        if IsDerivedService (MAnnotations (frObject r)) \<noteq> IsDerivedService (MAnnotations o1) then None else Some o1)"
  by (simp add: ownObject_def split: option.split)

lemma deletionStep_cases:
  assumes "deletionStep w r cluster s = Some s'"
  obtains (unready) "\<not> IsClusterReady (CConditions cluster)" "s' = s\<lparr>delUnready := delUnready s @ [CName cluster]\<rparr>"
  | (failed) err where "IsClusterReady (CConditions cluster)" "GetClusterObject w (CName cluster) (TargetGVK r) = Inl err"
      "s' = s\<lparr>delFailed := delFailed s @ [CName cluster]\<rparr>"
  | (gone) cached where "IsClusterReady (CConditions cluster)" "GetClusterObject w (CName cluster) (TargetGVK r) = Inr cached"
      "ownObject w r (CName cluster) = None" "s' = s\<lparr>delNoNeed := delNoNeed s @ [CName cluster]\<rparr>"
  | (removed) o1 out where "IsClusterReady (CConditions cluster)" "ownObject w r (CName cluster) = Some o1"
      "removeFromCluster (frObject r) o1 True (syMember w (CName cluster)) = Some out"
      "s' = s\<lparr>delRemaining := delRemaining s @ [CName cluster], delOk := (delOk s \<and> OpOk out),
         delCalls := delCalls s @ map (Pair (CName cluster)) (OpCalls out)\<rparr>"
proof (cases "IsClusterReady (CConditions cluster)")
  case False
  with assms unready show thesis by (simp add: deletionStep_def Let_def)
next
  case True
  show thesis
  proof (cases "GetClusterObject w (CName cluster) (TargetGVK r)")
    case (Inl err)
    with assms True failed show thesis by (simp add: deletionStep_def Let_def)
  next
    case (Inr cached)
    note own = ownObject_eq [OF Inr]
    show thesis
    proof (cases "ownObject w r (CName cluster)")
      case None
      with assms True Inr own gone show thesis by (auto simp: deletionStep_def Let_def split: option.splits if_splits)
    next
      case (Some o1)
      with own have "cached = Some o1" "IsDerivedService (MAnnotations (frObject r)) = IsDerivedService (MAnnotations o1)"
        by (auto split: option.splits if_splits)
      with assms True Inr Some removed show thesis by (auto simp: deletionStep_def Let_def)
    qed
  qed
qed

text \<open>The loop ends with nothing to do exactly when the caches show the object nowhere.\<close>

lemma deletionLoop_quiet:
  assumes "deletionLoop w r clusters s = Some s'"
  shows "(delUnready s' = [] \<and> delFailed s' = [] \<and> delRemaining s' = []) \<longleftrightarrow>
       delUnready s = [] \<and> delFailed s = [] \<and> delRemaining s = [] \<and> goneFromCaches w r clusters"
    and "goneFromCaches w r clusters \<Longrightarrow> s' = s\<lparr>delNoNeed := delNoNeed s @ map CName clusters\<rparr>"
  using assms
proof (induction clusters arbitrary: s)
  case Nil
  { case 1 then show ?case by (simp add: goneFromCaches_def) }
  { case 2 then show ?case by simp }
next
  case (Cons cluster clusters)
  have step: "\<exists>s1. deletionStep w r cluster s = Some s1 \<and> deletionLoop w r clusters s1 = Some s'"
    if "deletionLoop w r (cluster # clusters) s = Some s'" for s
    using that by (cases "deletionStep w r cluster s") auto
  { case 1
    then obtain s1 where 1: "deletionStep w r cluster s = Some s1" "deletionLoop w r clusters s1 = Some s'" using step by blast
    from 1(1) show ?case
      by (cases rule: deletionStep_cases) (use Cons.IH(1) [OF 1(2)] in \<open>auto simp: goneFromCaches_def split: sum.splits\<close>) }
  { case 2
    then obtain s1 where 1: "deletionStep w r cluster s = Some s1" "deletionLoop w r clusters s1 = Some s'" using step by blast
    from 2(1) have g: "goneFromCaches w r clusters" by (simp add: goneFromCaches_def)
    from 1(1) show ?case
      by (cases rule: deletionStep_cases) (use Cons.IH(2) [OF g 1(2)] 2(1) in \<open>auto simp: goneFromCaches_def split: sum.splits\<close>) }
qed

lemma deletionLoop_calls:
  assumes "deletionLoop w r clusters s = Some s'" "(c, call) \<in> set (delCalls s')"
  shows "(c, call) \<in> set (delCalls s) \<or> (\<exists>cluster \<in> set clusters. CName cluster = c \<and> IsClusterReady (CConditions cluster) \<and>
     (\<exists>o1. ownObject w r c = Some o1 \<and> call \<in> removalCalls (frObject r) o1))"
  using assms
proof (induction clusters arbitrary: s)
  case (Cons cluster clusters)
  from Cons.prems(1) obtain s1 where 1: "deletionStep w r cluster s = Some s1" "deletionLoop w r clusters s1 = Some s'"
    by (cases "deletionStep w r cluster s") auto
  have "(c, call) \<in> set (delCalls s) \<or> CName cluster = c \<and> IsClusterReady (CConditions cluster) \<and>
      (\<exists>o1. ownObject w r c = Some o1 \<and> call \<in> removalCalls (frObject r) o1)" if "(c, call) \<in> set (delCalls s1)"
    using 1(1)
  proof (cases rule: deletionStep_cases)
    case (removed o1 out)
    then show ?thesis using that removeFromCluster_calls [OF removed(3)] by auto
  qed (use that in auto)
  with Cons.IH [OF 1(2) Cons.prems(2)] show ?case by auto
qed simp

lemma check_skipped:
  assumes "GetJoinedClusters w = Inr clusters" "goneFromCaches w r (syncedClusters clusters (frObject r))"
  shows "checkObjectRemovedFromAllClusters w r (map CName (syncedClusters clusters (frObject r))) = None"
proof -
  let ?cs = "syncedClusters clusters (frObject r)"
  have "filter (\<lambda>c. \<not> IsClusterReady (CConditions c)) ?cs = []"
    "filter (\<lambda>c. IsClusterReady (CConditions c) \<and> CName c \<notin> set (map CName ?cs)) ?cs = []"
    using assms(2) by (auto simp: goneFromCaches_def list_all_iff filter_empty_conv)
  then show ?thesis using assms(1) by (simp add: checkObjectRemovedFromAllClusters_def Let_def)
qed

text \<open>Whether the removal is over depends on the caches alone.\<close>

lemma ensureRemoval_done:
  assumes "ensureRemovalFromClusters w r = Some (calls, removal)"
  shows "removal = Inr False \<longleftrightarrow> (\<exists>clusters. GetJoinedClusters w = Inr clusters \<and> goneFromCaches w r (syncedClusters clusters (frObject r)))"
    and "(c, call) \<in> set calls \<Longrightarrow> \<exists>clusters. GetJoinedClusters w = Inr clusters \<and> (\<exists>cluster \<in> set (syncedClusters clusters (frObject r)).
       CName cluster = c \<and> IsClusterReady (CConditions cluster) \<and> (\<exists>o1. ownObject w r c = Some o1 \<and> call \<in> removalCalls (frObject r) o1))"
proof -
  let ?start = "\<lparr>delOk = True, delRemaining = [], delNoNeed = [], delUnready = [], delFailed = [], delCalls = []\<rparr>"
  have "(removal = Inr False \<longleftrightarrow> (\<exists>clusters. GetJoinedClusters w = Inr clusters \<and> goneFromCaches w r (syncedClusters clusters (frObject r)))) \<and>
    ((c, call) \<in> set calls \<longrightarrow> (\<exists>clusters. GetJoinedClusters w = Inr clusters \<and> (\<exists>cluster \<in> set (syncedClusters clusters (frObject r)).
       CName cluster = c \<and> IsClusterReady (CConditions cluster) \<and> (\<exists>o1. ownObject w r c = Some o1 \<and> call \<in> removalCalls (frObject r) o1))))"
  proof (cases "GetJoinedClusters w")
    case (Inl err)
    with assms show ?thesis by (auto simp: ensureRemovalFromClusters_def handleDeletionInClusters_def Let_def)
  next
    case (Inr clusters)
    let ?cs = "syncedClusters clusters (frObject r)"
    from assms Inr obtain s where l: "deletionLoop w r ?cs ?start = Some s" and c: "calls = delCalls s"
      by (auto simp: ensureRemovalFromClusters_def handleDeletionInClusters_def Let_def)
    note q = deletionLoop_quiet [OF l]
    have "removal = Inr False \<longleftrightarrow> goneFromCaches w r ?cs"
    proof (cases "goneFromCaches w r ?cs")
      case True
      with q(2) have "s = ?start\<lparr>delNoNeed := map CName ?cs\<rparr>" by simp
      with assms Inr l check_skipped [OF Inr True] True show ?thesis
        by (auto simp: ensureRemovalFromClusters_def handleDeletionInClusters_def Let_def)
    next
      case False
      then have "\<not> (delUnready s = [] \<and> delFailed s = [] \<and> delRemaining s = [])" using q(1) by simp
      with assms Inr l False show ?thesis
        by (auto simp: ensureRemovalFromClusters_def handleDeletionInClusters_def Let_def split: if_splits option.splits)
    qed
    moreover have "(c, call) \<in> set calls \<longrightarrow> (\<exists>cluster \<in> set ?cs.
       CName cluster = c \<and> IsClusterReady (CConditions cluster) \<and> (\<exists>o1. ownObject w r c = Some o1 \<and> call \<in> removalCalls (frObject r) o1))"
      using deletionLoop_calls [OF l, of c call] c by auto
    ultimately show ?thesis using Inr by auto
  qed
  then show "removal = Inr False \<longleftrightarrow> (\<exists>clusters. GetJoinedClusters w = Inr clusters \<and> goneFromCaches w r (syncedClusters clusters (frObject r)))"
    "(c, call) \<in> set calls \<Longrightarrow> \<exists>clusters. GetJoinedClusters w = Inr clusters \<and> (\<exists>cluster \<in> set (syncedClusters clusters (frObject r)).
       CName cluster = c \<and> IsClusterReady (CConditions cluster) \<and> (\<exists>o1. ownObject w r c = Some o1 \<and> call \<in> removalCalls (frObject r) o1))"
    by blast+
qed



section \<open>Cascading deletion\<close>

lemma cascadeObject_spec:
  assumes "cascadeObject w ftc o1 = Some (ok, calls)"
  shows "ok \<Longrightarrow> \<exists>r out. cwFedResource w (federatedNameOf ftc o1) = Inr (Some r) \<and>
       removeFromCluster (frObject r) o1 True (cwAnswers w ftc o1) = Some out \<and> OpOk out"
    and "call \<in> set calls \<Longrightarrow> \<exists>r. cwFedResource w (federatedNameOf ftc o1) = Inr (Some r) \<and> call \<in> removalCalls (frObject r) o1"
  using assms removeFromCluster_calls by (fastforce simp: cascadeObject_def split: sum.splits option.splits)+

lemma cascadeObjects_spec:
  "cascadeObjects w ftc objs = Some (ok, calls) \<Longrightarrow> (ok \<longrightarrow> removedAll w ftc objs) \<and> (\<forall>x \<in> set calls. removalOf w x)"
proof (induction objs arbitrary: ok calls)
  case (Cons o1 objs)
  from Cons.prems obtain ok1 calls1 ok2 calls2 where 1: "cascadeObject w ftc o1 = Some (ok1, calls1)" "cascadeObjects w ftc objs = Some (ok2, calls2)"
      and e: "ok = (ok1 \<and> ok2)" "calls = map (\<lambda>c. (GetSourceTypeGVK ftc, o1, c)) calls1 @ calls2"
    by (cases "cascadeObject w ftc o1") auto
  have "removalOf w (GetSourceTypeGVK ftc, o1, c)" if "c \<in> set calls1" for c
    using cascadeObject_spec(2) [OF 1(1) that] by (auto simp: removalOf_def)
  with Cons.IH [OF 1(2)] cascadeObject_spec(1) [OF 1(1)] show ?case by (auto simp: e removedAll_def)
qed (simp add: removedAll_def)

lemma cascadeFTCs_spec:
  "cascadeFTCs w ftcs = Some (ok, calls) \<Longrightarrow>
     (ok \<longrightarrow> (\<forall>ftc \<in> set ftcs. \<exists>objs. listManagedClusterObjects (cwListing w ftc) = Inr objs \<and> removedAll w ftc objs)) \<and>
     (\<forall>x \<in> set calls. removalOf w x)"
proof (induction ftcs arbitrary: ok calls)
  case (Cons ftc ftcs)
  from Cons.prems obtain ok1 calls1 ok2 calls2 where 1: "cascadingDeletionForFTC w ftc = Some (ok1, calls1)" "cascadeFTCs w ftcs = Some (ok2, calls2)"
      and e: "ok = (ok1 \<and> ok2)" "calls = calls1 @ calls2"
    by (cases "cascadingDeletionForFTC w ftc") auto
  have "(ok1 \<longrightarrow> (\<exists>objs. listManagedClusterObjects (cwListing w ftc) = Inr objs \<and> removedAll w ftc objs)) \<and> (\<forall>x \<in> set calls1. removalOf w x)"
    using 1(1) cascadeObjects_spec by (auto simp: cascadingDeletionForFTC_def split: sum.splits)
  with Cons.IH [OF 1(2)] show ?case by (auto simp: e)
qed simp

lemma retryOnConflict_writes:
  assumes "\<And>c. snd (change c) \<Longrightarrow> P (fst (change c))" "x \<in> set (fst (retryOnConflict change rounds))"
  shows "P x"
  using assms(2)
proof (induction rounds)
  case (Cons rnd rounds)
  show ?case
  proof (cases "RoundGetCluster rnd")
    case (Inl err)
    with Cons show ?thesis by (auto split: if_splits)
  next
    case (Inr cluster)
    obtain c' b where ch: "change cluster = (c', b)" by fastforce
    with assms(1) [of cluster] have "b \<Longrightarrow> P c'" by simp
    with Cons Inr ch show ?thesis by (auto split: if_splits option.splits prod.splits)
  qed
qed simp

lemma removeClusterFinalizer_writes:
  assumes "x \<in> set (fst (removeClusterFinalizer w))"
  shows "\<not> HasFinalizer (CMeta x) FinalizerCascadingDelete"
  using assms unfolding removeClusterFinalizer_def
  by (rule retryOnConflict_writes [rotated]) (auto simp: RemoveFinalizers_def HasFinalizer_def Let_def split: if_splits)


section \<open>Properties\<close>

text \<open>
  C38.  Synchronising never touches the wrong cluster.  Every request goes to a ready cluster that is not
  terminating.  A selected cluster is never sent a deletion, gets objects only once it carries the
  cascading-deletion finalizer, always with the managed label, and a creation only when the object was
  not seen there; a cluster that is not selected only gets the deletion of an object that was seen there
  and is not being deleted, and before it the removal of its retaining finalizer.  The collected status is fit for
  the object, and no selected cluster is forgotten in it unless its objects await cascading deletion.
\<close>

theorem sync_touches_right_clusters:
  assumes "dispatchAll w vm r selected clusters (NewManagedDispatcher, False) = Some (d, recheck)" "distinct (map CName clusters)"
  shows "(\<forall>(c, call) \<in> set (dCalls d). \<exists>cluster \<in> set clusters. CName cluster = c \<and> allowedCall w r selected cluster call) \<and>
     collected_ok (CollectedStatus d) \<and>
     (\<forall>cluster \<in> set clusters. CName cluster \<in> set selected \<longrightarrow>
        CDeletionTimestamp cluster = None \<or> \<not> IsCascadingDeleteEnabled (CMeta cluster) \<longrightarrow> map_of (dStatusMap d) (CName cluster) \<noteq> None)"
proof -
  have new: "dCalls NewManagedDispatcher = []" "dVersionMap NewManagedDispatcher = []" by (simp_all add: NewManagedDispatcher_def)
  have "dispatcher_ok d \<and>
     (\<forall>cluster \<in> set clusters. clusterAction w r selected cluster = Skip \<or> CName cluster \<in> set (mkeys (dStatusMap d))) \<and>
     (\<forall>(c, call) \<in> set (dCalls d). \<exists>cluster \<in> set clusters. CName cluster = c \<and> allowedCall w r selected cluster call)"
    using dispatchAll_spec [OF assms(1) dispatcher_ok_new assms(2)] by (auto simp: new)
  then show ?thesis using collected_ok_CollectedStatus clusterAction_reports by (simp add: mkeys_iff) blast
qed

theorem sync_touches_right_clusters_witness:
  "\<exists>d recheck. dispatchAll syncWorldSample NewVersionManager resourceSample [''A''] [syncClusterSample ''A'', syncClusterSample ''B'']
       (NewManagedDispatcher, False) = Some (d, recheck) \<and>
     map fst (dCalls d) = [''A'', ''B''] \<and> collected_ok (CollectedStatus d) \<and> map_of (dStatusMap d) ''A'' \<noteq> None"
proof -
  let ?cs = "[syncClusterSample ''A'', syncClusterSample ''B'']"
  have "case dispatchAll syncWorldSample NewVersionManager resourceSample [''A''] ?cs (NewManagedDispatcher, False) of None \<Rightarrow> False
      | Some (d, b) \<Rightarrow> map fst (dCalls d) = [''A'', ''B'']" by code_simp
  then obtain d b where d: "dispatchAll syncWorldSample NewVersionManager resourceSample [''A''] ?cs (NewManagedDispatcher, False) = Some (d, b)"
      "map fst (dCalls d) = [''A'', ''B'']" by (auto split: option.splits)
  have n: "CName (syncClusterSample x) = x" "CDeletionTimestamp (syncClusterSample x) = None" for x
    by (simp_all add: syncClusterSample_def joinedCluster_def apiCluster_def sampleCluster_def FederatedCluster.defs)
  then have "distinct (map CName ?cs)" by simp
  from sync_touches_right_clusters [OF d(1) this] d n show ?thesis by auto
qed





end
