(* ===== verification/Spec2Isabelle.thy ===== *)
theory Spec2Isabelle
  imports Indexes Sync_Controller
begin

text \<open>
  A verification development for KubeAdmiral, a multi-cluster controller for Kubernetes (Go).

  \<^bold>\<open>The program.\<close>  A federated object wraps the template of a Kubernetes object together with placements
  (which member clusters get it) and overrides (what differs per cluster), each in sections owned by
  controllers.  An annotation lists the controllers that still have to process the object.  The
  scheduler reads the object, its propagation policy and the joined clusters, decides whether a new
  scheduling is due, builds a scheduling unit, filters, scores and selects clusters with a framework of
  plugins, divides the replicas with a planner, and writes placements and replica overrides.  The override
  controller turns override policies into patches.  When no controller is pending any more, the sync
  controller creates, updates and removes the objects in the member clusters and reports on them.

  \<^bold>\<open>Theories and sources\<close> (paths under \<open>src/pkg\<close>).

  \<^item> \<open>Go_Prelude\<close>: 64-bit integers as \<open>int\<close> with explicit wrap-around, Go maps as association lists in
    iteration order, strings as byte lists, FNV-1; the lemma collections \<open>go_arith\<close> and \<open>gomap_simps\<close>.
    \<open>Go_Strings\<close>: \<open>strconv\<close> and quoting.  \<open>Go_Float\<close>: the float64 arithmetic of the score plugins.
    \<open>Json\<close>: the part of \<open>encoding/json\<close> that is used on annotations, with its round trip.
  \<^item> \<open>Planner\<close>: \<open>controllers/scheduler/planner/planner.go\<close> (C1-C7).  \<open>BinPack\<close>: the bin-packing planner (C8, C9).
  \<^item> \<open>Framework\<close>: \<open>scheduler/framework/{types,util}.go\<close>.  \<open>Plugins\<close>: the in-tree plugins (C10-C12).
    \<open>Balanced\<close>: the balanced allocation score.  \<open>Rsp\<close>: the replica scheduling plugins (C13, C14).
  \<^item> \<open>Framework_Runtime\<close>: plugin interfaces, registry, \<open>NewFramework\<close> and the \<open>Run*\<close> functions, webhook plugins.
    \<open>Generic_Scheduler\<close>: \<open>scheduler/core/generic_scheduler.go\<close> (C15).  \<open>Profile\<close>: \<open>scheduler/profile.go\<close>, \<open>webhook.go\<close>
    (C16).
  \<^item> \<open>Object_Meta\<close>: annotations, finalizers, labels, adoption, orphaning (C17).  \<open>Fed_Object\<close>: placements,
    overrides and pending controllers (C18-C20).  \<open>Naming\<close>: generated names (C21).  \<open>Indexes\<close>: in-memory
    indexes (C22, C23).
  \<^item> \<open>Sched_Inputs\<close>: policies, type configurations, templates, pod resource requests.  \<open>Triggers\<close>:
    \<open>scheduler/schedulingtriggers.go\<close> (C24, C25).  \<open>Scheduling_Unit\<close>: \<open>scheduler/schedulingunit.go\<close> and \<open>util.go\<close> (C26).
  \<^item> \<open>Worker\<close>: \<open>util/worker\<close> and \<open>util/eventhandlers\<close> (C27).  \<open>Scheduler\<close>: \<open>scheduler/scheduler.go\<close> and
    \<open>schedulingannotation.go\<close>, the reconciliation that composes the parts above (C28, C29).
  \<^item> \<open>Override_Patches\<close>: the overriders of \<open>controllers/override\<close> and the patches they stand for
    (C30, C31).  \<open>Override_Controller\<close>: resolving the rules of override policies and the controller's
    reconciliation (C32, C33).
  \<^item> \<open>Version_Manager\<close>: \<open>controllers/sync/{version,propagatedversion}\<close>, what was written where (C34).
    \<open>Sync_Status\<close>: \<open>sync/status\<close>, the status of a federated object (C35).  \<open>Sync_Retain\<close>: \<open>sync/dispatch/retain.go\<close>, what an
    update keeps from the member cluster (C36).  \<open>Sync_Dispatch\<close>: federated resources and the operations
    on member clusters, \<open>sync/resource.go\<close> and \<open>sync/dispatch\<close> (C37).  \<open>Sync_Controller\<close>: reconciliation, deletion
    and cascading deletion, \<open>sync/{controller,accessor}.go\<close> (C38-C40).

  \<^bold>\<open>Interfaces.\<close>  The locales state what one part relies on from another and are interpreted on the model:
  the plugin contracts (\<open>select_plugin\<close>, \<open>score_extension\<close>, \<open>replicas_plugin\<close>, \<open>plugin_framework\<close>) on the in-tree
  plugins and on every framework that \<open>createFramework\<close> returns, \<open>controller_section\<close> on placements and
  overrides, \<open>relation_index\<close> on the bijection, the multimap and the follower cache.

  \<^bold>\<open>Parameters.\<close>  Code outside the repository is an argument: the record \<open>externs\<close> (label selectors, name
  validation, tolerations), \<open>pluginEnv\<close>, the webhook transport, \<open>apimachinery\<close> and \<open>unstructuredOps\<close> (unstructured
  objects, quantities, time stamps) and \<open>syncEnv\<close> (JSON patches, digests).  What listers and API servers answer is
  a record per controller, such as \<open>syncWorld\<close>; a loop that polls takes its answers from a list of rounds and
  times out at its end, so the theorems hold for any number of rounds.

  \<^bold>\<open>Errors, panics and loops.\<close>  Errors are values of a sum, panics and non-termination are \<open>None\<close>.  The planner's
  distribution loop is a \<open>partial_function\<close> that C1 proves to return.  The JSON parser has fuel
  \<open>2 * length + 2\<close>, which the round trip shows to be enough for printed values; square roots take 57 bits.

  \<^bold>\<open>Not modelled.\<close>  Generated code (clients, informers, deep copies, OpenAPI), command line and process wiring,
  the life cycle of informers, logs, events and metrics; the HPA aggregator, which serves HTTP; printers
  lifted from Kubernetes.  Of the controllers: federation of source objects, followers, automatic
  migration, status collection and aggregation, namespace propagation, policy reference counts (but the
  counter), joining of clusters, federated HPA and multi-cluster services.
\<close>

end
